(* ===== verification/Prelude.thy ===== *)
theory Prelude
  imports Main "HOL-Library.Word"
begin

text \<open>
  Shared vocabulary of the ministream development: the machine types of the Go code, Go errors
  and panics as values, Go's dynamically typed values as far as the code inspects them, the
  iteration order of Go maps, and the generic lemmas the component theories use.
\<close>

section \<open>Lemma collections\<close>

text \<open>
  \<open>go_defs\<close> collects the definitions of straight-line operations that proofs unfold;
  \<open>keeps\<close> collects the facts of the form ``this operation preserves that invariant''.
\<close>

named_theorems go_defs
named_theorems keeps

section \<open>Machine types\<close>

text \<open>
  \<open>u64\<close> is Go's \<^verbatim>\<open>uint64\<close> (message ids, counters and sizes, which wrap around);
  a UUID is its 128 bits; a \<^verbatim>\<open>time.Time\<close> is the number of nanoseconds since the Unix
  epoch, an unbounded integer, and \<open>zero_time\<close> is \<^verbatim>\<open>time.Time{}\<close>, the first instant
  of the year 1.
\<close>

type_synonym u64 = "64 word"
type_synonym uuid = "128 word"
type_synonym time = int

definition zero_time :: time where
  "zero_time = - 62135596800000000000"

text \<open>
  \<^verbatim>\<open>Time.UnixNano\<close> is an \<^verbatim>\<open>int64\<close>: outside the years 1678 to 2262 the count of
  nanoseconds wraps around. \<^verbatim>\<open>Time.Unix\<close> counts whole seconds, rounding down.
\<close>

definition UnixNano :: "time \<Rightarrow> int" where
  "UnixNano t = signed_take_bit 63 t"

definition Unix :: "time \<Rightarrow> int" where
  "Unix t = t div 1000000000"

lemma UnixNano_small:
  assumes "- (2 ^ 63) \<le> t" and "t < 2 ^ 63"
  shows "UnixNano t = t"
  using assms by (simp add: UnixNano_def signed_take_bit_int_eq_self)

text \<open>\<^verbatim>\<open>time.Duration(n) * time.Second\<close>, a number of nanoseconds kept in 64 bits.\<close>

definition seconds :: "int \<Rightarrow> int" where
  "seconds n = sint (word_of_int (n * 1000000000) :: 64 word)"

section \<open>Errors, panics and dynamic values\<close>

text \<open>
  A Go function that fails returns an error value or panics. Both are values here:
  \<open>Inl (Error msg)\<close> is a returned error, \<open>Inl (Panic msg)\<close> a run-time panic.
\<close>

datatype go_error = Error string | Panic string

fun is_panic :: "go_error \<Rightarrow> bool" where
  "is_panic (Error m) = False"
| "is_panic (Panic m) = True"

text \<open>\<^verbatim>\<open>logger.Fatal\<close> logs and ends the process; nothing after it runs.\<close>

definition fatal :: go_error where
  "fatal = Panic ''fatal''"

text \<open>
  A value of type \<^verbatim>\<open>interface{}\<close>, split only as far as the code's type assertions look
  into it: nil, a boolean, an error, a string, or any other value (of the type variable).
\<close>

datatype 'x iface = INil | IBool bool | IErr go_error | IStr string | IOther 'x

section \<open>Slices and maps\<close>

text \<open>Reading a slice out of range panics.\<close>

definition slice_get :: "'a list \<Rightarrow> nat \<Rightarrow> go_error + 'a" where
  "slice_get xs i = (if i < length xs then Inr (xs ! i) else Inl (Panic ''index out of range''))"

lemma slice_get_in [simp]: "i < length xs \<Longrightarrow> slice_get xs i = Inr (xs ! i)"
  by (simp add: slice_get_def)

text \<open>
  Go visits the keys of a map in an unspecified order. Where the result of a loop over a map
  depends on it, the order is an argument \<open>ks\<close> of the model, and it is one the runtime can
  choose when \<open>range_order m ks\<close> holds.
\<close>

definition range_order :: "('k \<rightharpoonup> 'v) \<Rightarrow> 'k list \<Rightarrow> bool" where
  "range_order m ks \<longleftrightarrow> distinct ks \<and> set ks = dom m"

lemma range_order_empty [simp]: "range_order Map.empty ks \<longleftrightarrow> ks = []"
  by (auto simp: range_order_def)

lemma range_order_update:
  "range_order m ks \<Longrightarrow> k \<notin> dom m \<Longrightarrow> range_order (m(k \<mapsto> v)) (k # ks)"
  by (auto simp: range_order_def)

lemma range_order_length: "range_order m ks \<Longrightarrow> card (dom m) = length ks"
  by (metis range_order_def distinct_card)

text \<open>A loop that stops at the first error, collecting the results in order.\<close>

fun collect :: "('a \<Rightarrow> go_error + 'b) \<Rightarrow> 'a list \<Rightarrow> go_error + 'b list" where
  "collect f [] = Inr []"
| "collect f (x # xs) =
     (case f x of Inl e \<Rightarrow> Inl e
      | Inr y \<Rightarrow> (case collect f xs of Inl e \<Rightarrow> Inl e | Inr ys \<Rightarrow> Inr (y # ys)))"

lemma collect_Inr_iff:
  "collect f xs = Inr ys \<longleftrightarrow> list_all2 (\<lambda>x y. f x = Inr y) xs ys"
proof (induction xs arbitrary: ys)
  case Nil
  then show ?case by auto
next
  case (Cons x xs)
  have IH: "list_all2 (\<lambda>x y. f x = Inr y) xs zs \<longleftrightarrow> collect f xs = Inr zs" for zs
    using Cons.IH by simp
  show ?case by (cases ys) (auto simp: IH split: sum.splits)
qed

lemma collect_length: "collect f xs = Inr ys \<Longrightarrow> length ys = length xs"
  by (simp add: collect_Inr_iff list_all2_lengthD)

lemma collect_total:
  "(\<And>x. x \<in> set xs \<Longrightarrow> \<exists>y. f x = Inr y) \<Longrightarrow> \<exists>ys. collect f xs = Inr ys"
proof (induction xs)
  case Nil
  then show ?case by simp
next
  case (Cons x xs)
  from Cons.prems obtain y where "f x = Inr y" by auto
  moreover from Cons obtain ys where "collect f xs = Inr ys" by auto
  ultimately show ?case by simp
qed

section \<open>Arithmetic on 64-bit counters\<close>

lemma unat_of_nat_small: "n < 2 ^ 64 \<Longrightarrow> unat (of_nat n :: u64) = n"
  by (simp add: unat_of_nat take_bit_nat_eq_self)

lemma of_nat_u64_inj:
  "m < 2 ^ 64 \<Longrightarrow> n < 2 ^ 64 \<Longrightarrow> (of_nat m :: u64) = of_nat n \<longleftrightarrow> m = n"
  by (metis unat_of_nat_small)

lemma of_nat_u64_less:
  "m < 2 ^ 64 \<Longrightarrow> n < 2 ^ 64 \<Longrightarrow> (of_nat m :: u64) < of_nat n \<longleftrightarrow> m < n"
  by (simp add: word_less_nat_alt unat_of_nat_small)

lemma unat_plus_small:
  fixes a b :: u64
  shows "unat a + unat b < 2 ^ 64 \<Longrightarrow> unat (a + b) = unat a + unat b"
  by (simp add: unat_word_ariths)

lemma unat_Suc_small:
  fixes a :: u64
  shows "unat a + 1 < 2 ^ 64 \<Longrightarrow> unat (a + 1) = unat a + 1"
  using unat_plus_small [of a 1] by simp

text \<open>Two slice indices add up without wrapping, so a 64-bit midpoint is the exact one.\<close>

lemma midpoint_u64:
  assumes "low < 2 ^ 63" and "high < 2 ^ 63"
  shows "drop_bit 1 (of_nat low + of_nat high :: u64) = of_nat ((low + high) div 2)"
proof -
  have s: "low + high < 2 ^ 64" using assms by simp
  have "unat (of_nat low + of_nat high :: u64) = low + high"
    using unat_of_nat_small [OF s] by simp
  then have "unat (drop_bit 1 (of_nat low + of_nat high :: u64)) = (low + high) div 2"
    by (simp only: unat_drop_bit_eq drop_bit_nat_def power_one_right)
  also have "\<dots> = unat (of_nat ((low + high) div 2) :: u64)"
    using s by (simp add: unat_of_nat_small)
  finally show ?thesis by (simp add: word_unat_eq_iff)
qed

end
