(* ===== verification/Types.thy ===== *)
theory Types
  imports Prelude
begin

text \<open>
  The package \<^verbatim>\<open>types\<close>: stream descriptions, their counters and properties, the deferred
  records that travel from a producer to the storage, and the request that creates a record
  iterator.
\<close>

section \<open>Deferred records and iterator requests (types/types.go, types/istreamiteratorhandler.go)\<close>

record 'x deferred =
  dr_Id :: u64
  dr_CreationDate :: time
  dr_Msg :: "'x iface"

record iterator_request =
  rq_IteratorType :: string
  rq_MessageId :: u64
  rq_Timestamp :: time
  rq_JqFilter :: string
  rq_MaxWaitTimeSeconds :: int
  rq_Name :: string

section \<open>Stream descriptions (types/streaminfo.go)\<close>

record msgs_info =
  CptMessages :: u64
  SizeInBytes :: u64
  FirstMsgId :: u64
  LastMsgId :: u64
  FirstMsgTimestamp :: time
  LastMsgTimestamp :: time

text \<open>
  Properties are a Go map from strings to dynamic values. A Go map variable may be nil
  (\<open>None\<close>), which reads as empty but panics on a write.
\<close>

type_synonym 'x props = "(string \<rightharpoonup> 'x iface) option"

record 'x stream_info =
  si_UUID :: uuid
  si_CreationDate :: time
  si_LastUpdate :: time
  si_Properties :: "'x props"
  IngestedMessages :: msgs_info
  ReadableMessages :: msgs_info

definition no_msgs :: msgs_info where
  "no_msgs = \<lparr>CptMessages = 0, SizeInBytes = 0, FirstMsgId = 0, LastMsgId = 0,
     FirstMsgTimestamp = zero_time, LastMsgTimestamp = zero_time\<rparr>"

definition NewStreamInfo :: "time \<Rightarrow> uuid \<Rightarrow> 'x stream_info" where
  "NewStreamInfo now u = \<lparr>si_UUID = u, si_CreationDate = now, si_LastUpdate = now,
     si_Properties = Some Map.empty, IngestedMessages = no_msgs, ReadableMessages = no_msgs\<rparr>"

text \<open>
  Adding entries to a map: \<^verbatim>\<open>for key, value := range *properties { s.Properties[key] = value }\<close>.
  The keys of \<open>p\<close> are distinct, so the order of the loop does not matter; a nil target
  panics as soon as there is something to write.
\<close>

definition props_add :: "'x props \<Rightarrow> 'x props \<Rightarrow> go_error + 'x props" where
  "props_add target p =
     (case p of None \<Rightarrow> Inr target
      | Some q \<Rightarrow> (case target of
          Some m \<Rightarrow> Inr (Some (m ++ q))
        | None \<Rightarrow> if q = Map.empty then Inr None
                  else Inl (Panic ''assignment to entry in nil map'')))"

text \<open>
  The argument \<open>properties\<close> is a pointer to a map: \<open>None\<close> is the nil pointer,
  \<open>Some p\<close> points to the map value \<open>p\<close>.
\<close>

definition UpdateProperties ::
    "'x props option \<Rightarrow> 'x stream_info \<Rightarrow> go_error + 'x stream_info" where
  "UpdateProperties properties s =
     (case properties of None \<Rightarrow> Inr s
      | Some p \<Rightarrow> (case props_add (si_Properties s) p of
          Inl e \<Rightarrow> Inl e | Inr m \<Rightarrow> Inr (s\<lparr>si_Properties := m\<rparr>)))"

text \<open>\<^verbatim>\<open>SetProperties\<close> first deletes every key, then adds the new ones.\<close>

definition props_clear :: "'x props \<Rightarrow> 'x props" where
  "props_clear m = map_option (\<lambda>_. Map.empty) m"

definition SetProperties ::
    "'x props option \<Rightarrow> 'x stream_info \<Rightarrow> go_error + 'x stream_info" where
  "SetProperties properties s =
     (let s' = s\<lparr>si_Properties := props_clear (si_Properties s)\<rparr> in
      case properties of None \<Rightarrow> Inr s'
      | Some p \<Rightarrow> (case props_add (si_Properties s') p of
          Inl e \<Rightarrow> Inl e | Inr m \<Rightarrow> Inr (s'\<lparr>si_Properties := m\<rparr>)))"

text \<open>
  \<^verbatim>\<open>MatchFilterProperties\<close> runs a compiled jq query (the library gojq: the argument
  \<open>run\<close> gives the values its iterator yields, in order) and looks at the first value only.
\<close>

definition MatchFilterProperties ::
    "('q \<Rightarrow> 'x props \<Rightarrow> 'x iface list) \<Rightarrow> 'q \<Rightarrow> 'x stream_info \<Rightarrow> go_error + bool" where
  "MatchFilterProperties run jq s =
     (case run jq (si_Properties s) of
        [] \<Rightarrow> Inr False
      | IErr e # _ \<Rightarrow> Inl e
      | v # _ \<Rightarrow> Inr (case v of IBool b \<Rightarrow> b | _ \<Rightarrow> False))"

section \<open>Lemmas\<close>

lemmas props_defs = props_add_def props_clear_def UpdateProperties_def SetProperties_def

lemma props_add_Some: "props_add (Some m) (Some q) = Inr (Some (m ++ q))"
  by (simp add: props_add_def)

lemma UpdateProperties_keeps_info:
  "UpdateProperties ps s = Inr t \<Longrightarrow>
     si_UUID t = si_UUID s \<and> IngestedMessages t = IngestedMessages s \<and>
     ReadableMessages t = ReadableMessages s"
  by (auto simp: props_defs split: option.splits sum.splits if_splits)

lemma SetProperties_keeps_info:
  "SetProperties ps s = Inr t \<Longrightarrow>
     si_UUID t = si_UUID s \<and> IngestedMessages t = IngestedMessages s \<and>
     ReadableMessages t = ReadableMessages s"
  by (auto simp: props_defs Let_def split: option.splits sum.splits if_splits)

text \<open>
  The property of the component: over a non-nil map, \<^verbatim>\<open>UpdateProperties\<close> overlays the
  stored properties with the given ones and \<^verbatim>\<open>SetProperties\<close> replaces them, so a
  \<^verbatim>\<open>SetProperties\<close> forgets whatever an earlier update stored.
\<close>

lemma SetProperties_replaces:
  "si_Properties s = Some m \<Longrightarrow>
     SetProperties (Some (Some q)) s = Inr (s\<lparr>si_Properties := Some q\<rparr>)"
  by (simp add: props_defs Let_def)

lemma UpdateProperties_overlays:
  "si_Properties s = Some m \<Longrightarrow>
     UpdateProperties (Some (Some q)) s = Inr (s\<lparr>si_Properties := Some (m ++ q)\<rparr>)"
  by (simp add: props_defs)

lemma Update_then_Set:
  assumes "si_Properties s = Some m" and "UpdateProperties (Some (Some q)) s = Inr t"
  shows "SetProperties (Some (Some r)) t = SetProperties (Some (Some r)) s"
  using assms by (auto simp: props_defs Let_def)

end
