(* ===== verification/Interfaces.thy ===== *)
theory Interfaces
  imports Types
begin

text \<open>
  The contracts between the parts of the server, as locales. The Go code states them as the
  interfaces \<^verbatim>\<open>IStreamWriter\<close>, \<^verbatim>\<open>IStreamIteratorHandler\<close> and
  \<^verbatim>\<open>IStorageCatalog\<close>; a locale adds what an implementation promises, so that the clients
  (the ingest loop, the record iterator, the storage providers) are verified once and each
  provider discharges the laws in an interpretation.
\<close>

section \<open>Writers\<close>

text \<open>
  A writer shares the stream's description with the stream: both hold a pointer to the same
  \<^verbatim>\<open>StreamInfo\<close>. \<open>store\<close> therefore takes and returns the description beside the
  writer's own state. \<open>holds w rs\<close> says that the storage behind the writer is sound and holds
  the records \<open>rs\<close>, oldest first; \<open>wsize\<close> is the number of bytes a record adds to the
  counters.
\<close>

type_synonym ('x, 'w) write_op =
  "'x stream_info \<times> 'w \<Rightarrow> 'x deferred list \<Rightarrow> ('x stream_info \<times> 'w) \<times> go_error option"

text \<open>The counters that describe a stored sequence.\<close>

definition describes ::
    "('x deferred \<Rightarrow> u64) \<Rightarrow> msgs_info \<Rightarrow> 'x deferred list \<Rightarrow> bool" where
  "describes wsize mi rs \<longleftrightarrow>
     CptMessages mi = of_nat (length rs) \<and>
     (rs \<noteq> [] \<longrightarrow> LastMsgId mi = dr_Id (last rs) \<and>
                 FirstMsgTimestamp mi = dr_CreationDate (hd rs) \<and>
                 LastMsgTimestamp mi = dr_CreationDate (last rs)) \<and>
     SizeInBytes mi = sum_list (map wsize rs)"

text \<open>
  The three writers keep the counters with the same code: the first record ever resets the ids,
  and each stored record is counted with its size in bytes.
\<close>

definition first_readable :: "'x stream_info \<Rightarrow> 'x deferred list \<Rightarrow> 'x stream_info" where
  "first_readable i rs =
     (if CptMessages (ReadableMessages i) = 0 \<and> rs \<noteq> [] then
        i\<lparr>ReadableMessages := (ReadableMessages i)
            \<lparr>FirstMsgId := FirstMsgId (IngestedMessages i), LastMsgId := 0,
             FirstMsgTimestamp := dr_CreationDate (hd rs)\<rparr>\<rparr>
      else i)"

definition count_readable :: "u64 \<Rightarrow> 'x deferred \<Rightarrow> 'x stream_info \<Rightarrow> 'x stream_info" where
  "count_readable n r i =
     i\<lparr>ReadableMessages := (ReadableMessages i)
         \<lparr>CptMessages := CptMessages (ReadableMessages i) + 1,
          LastMsgTimestamp := dr_CreationDate r,
          SizeInBytes := SizeInBytes (ReadableMessages i) + n,
          LastMsgId := dr_Id r\<rparr>\<rparr>"

lemma count_readable_frame [simp]:
  "si_UUID (count_readable n r i) = si_UUID i"
  "IngestedMessages (count_readable n r i) = IngestedMessages i"
  "si_Properties (count_readable n r i) = si_Properties i"
  by (simp_all add: count_readable_def)

lemma first_readable_frame [simp]:
  "si_UUID (first_readable i rs) = si_UUID i"
  "IngestedMessages (first_readable i rs) = IngestedMessages i"
  "si_Properties (first_readable i rs) = si_Properties i"
  by (simp_all add: first_readable_def)

lemma describes_count:
  assumes "describes w (ReadableMessages i) st"
    and "st = [] \<Longrightarrow> FirstMsgTimestamp (ReadableMessages i) = dr_CreationDate r"
  shows "describes w (ReadableMessages (count_readable (w r) r i)) (st @ [r])"
  using assms by (cases st) (auto simp: describes_def count_readable_def)

lemma describes_first:
  assumes "describes w (ReadableMessages i) st" and "length st < 2 ^ 64"
  shows "describes w (ReadableMessages (first_readable i rs)) st"
proof (cases "st = []")
  case True
  with assms show ?thesis by (simp add: describes_def first_readable_def)
next
  case False
  with assms(2) have "(of_nat (length st) :: u64) \<noteq> 0"
    using of_nat_u64_inj [of "length st" 0] by simp
  with assms(1) show ?thesis by (simp add: describes_def first_readable_def)
qed

text \<open>
  The contract: whatever its outcome, a write extends what is stored by a prefix of the records
  it was given, by all of them when it reports no error, and the counters keep describing what is
  stored.
\<close>

locale record_writer =
  fixes store :: "('x, 'w) write_op"
    and holds :: "'w \<Rightarrow> 'x deferred list \<Rightarrow> bool"
    and wsize :: "'x deferred \<Rightarrow> u64"
  assumes store_law:
      "holds w old \<Longrightarrow> store (i, w) rs = ((i', w'), err) \<Longrightarrow>
         \<exists>k \<le> length rs. holds w' (old @ take k rs) \<and> (err = None \<longrightarrow> k = length rs) \<and>
           (length (old @ take k rs) < 2 ^ 64 \<longrightarrow> describes wsize (ReadableMessages i) old \<longrightarrow>
              describes wsize (ReadableMessages i') (old @ take k rs))"
    and store_frame:
      "store (i, w) rs = ((i', w'), err) \<Longrightarrow>
         si_UUID i' = si_UUID i \<and> IngestedMessages i' = IngestedMessages i \<and> si_Properties i' = si_Properties i"
begin

lemma store_ok: "holds w old \<Longrightarrow> store (i, w) rs = ((i', w'), None) \<Longrightarrow> holds w' (old @ rs)"
  using store_law [of w old i rs i' w' None] by auto

lemma store_prefix:
  assumes "holds w old" and "store (i, w) rs = ((i', w'), err)"
  obtains k where "k \<le> length rs" "holds w' (old @ take k rs)" "err = None \<Longrightarrow> k = length rs"
  using store_law [OF assms] by blast

text \<open>Several writes in a row: what a sequence of successful saves leaves behind.\<close>

fun store_seq ::
    "'x stream_info \<times> 'w \<Rightarrow> 'x deferred list list \<Rightarrow> ('x stream_info \<times> 'w) \<times> go_error option"
where
  "store_seq s [] = (s, None)"
| "store_seq s (rs # rss) =
     (case store s rs of (s', None) \<Rightarrow> store_seq s' rss | (s', Some e) \<Rightarrow> (s', Some e))"

lemma store_seq_concat:
  "holds w old \<Longrightarrow> store_seq (i, w) rss = ((i', w'), None) \<Longrightarrow> holds w' (old @ concat rss)"
proof (induction rss arbitrary: i w old)
  case Nil
  then show ?case by simp
next
  case (Cons rs rss)
  obtain i1 w1 err where w1: "store (i, w) rs = ((i1, w1), err)"
    by (metis surj_pair)
  with Cons.prems(2) have "err = None" by (cases err) auto
  with w1 Cons.prems have "store_seq (i1, w1) rss = ((i', w'), None)" and "holds w1 (old @ rs)"
    using store_ok by auto
  with Cons.IH [of w1 "old @ rs" i1] show ?case by simp
qed

end

text \<open>The ingest buffer closes its writer; closing loses nothing of what is stored.\<close>

locale closable_writer = record_writer +
  fixes wclose :: "'b \<Rightarrow> 'b \<times> go_error option"
  assumes close_keeps: "holds w rs \<Longrightarrow> wclose w = (w', err) \<Longrightarrow> holds w' rs"

section \<open>Record sources\<close>

text \<open>
  What \<^verbatim>\<open>GetNextRecord\<close> returns: the id of the record, the record, whether one was found,
  whether the caller may go on, and an error. A handler operation may also panic (\<open>Inl\<close>).
\<close>

type_synonym 'r next_result = "u64 \<times> 'r iface \<times> bool \<times> bool \<times> go_error option"

text \<open>
  \<open>pending h\<close> is what the handler has still to deliver from the storage as it is now: for each
  position the id it reports and either the record or the error of a record that cannot be
  decoded.
\<close>

locale record_source =
  fixes get_next :: "'h \<Rightarrow> go_error + 'h \<times> 'r next_result"
    and pending :: "'h \<Rightarrow> (u64 \<times> (go_error + 'r iface)) list"
    and hinv :: "'h \<Rightarrow> bool"
  assumes next_end:
      "hinv h \<Longrightarrow> pending h = [] \<Longrightarrow>
         \<exists>h' i v c err. get_next h = Inr (h', i, v, False, c, err) \<and> hinv h' \<and> pending h' = []"
    and next_record:
      "hinv h \<Longrightarrow> pending h = (i, Inr r) # ps \<Longrightarrow>
         \<exists>h' c. get_next h = Inr (h', i, r, True, c, None) \<and> hinv h' \<and> pending h' = ps"
    and next_bad:
      "hinv h \<Longrightarrow> pending h = (i, Inl e) # ps \<Longrightarrow>
         \<exists>h' v. get_next h = Inr (h', i, v, True, True, Some e) \<and> hinv h' \<and> pending h' = ps"

section \<open>Catalogs\<close>

text \<open>
  A catalog maps the UUIDs of the existing streams to pointers to their descriptions; the
  pointer type is left open (\<open>'p\<close>). An operation may fail with an error.
\<close>

locale stream_catalog =
  fixes find :: "'c \<Rightarrow> uuid \<Rightarrow> 'p option"
    and on_create :: "'c \<Rightarrow> uuid \<Rightarrow> 'p \<Rightarrow> go_error + 'c"
    and on_delete :: "'c \<Rightarrow> uuid \<Rightarrow> go_error + 'c"
    and exists :: "'c \<Rightarrow> uuid \<Rightarrow> bool"
    and get_info :: "'c \<Rightarrow> uuid \<Rightarrow> go_error + 'p"
  assumes exists_find: "exists c u \<longleftrightarrow> find c u \<noteq> None"
    and get_info_find: "get_info c u = Inr p \<longleftrightarrow> find c u = Some p"
    and find_create: "on_create c u p = Inr c' \<Longrightarrow> find c' = (find c)(u \<mapsto> p)"
    and find_delete: "on_delete c u = Inr c' \<Longrightarrow> find c' = (find c)(u := None)"
begin

lemma create_then_get: "on_create c u p = Inr c' \<Longrightarrow> get_info c' u = Inr p"
  by (simp add: get_info_find find_create)

lemma create_frame:
  "on_create c u p = Inr c' \<Longrightarrow> v \<noteq> u \<Longrightarrow> exists c' v = exists c v"
  by (simp add: exists_find find_create)

lemma delete_then_get: "on_delete c u = Inr c' \<Longrightarrow> \<not> exists c' u \<and> (\<forall>p. get_info c' u \<noteq> Inr p)"
  by (simp add: exists_find get_info_find find_delete)

lemma delete_frame:
  "on_delete c u = Inr c' \<Longrightarrow> v \<noteq> u \<Longrightarrow> exists c' v = exists c v"
  by (simp add: exists_find find_delete)

lemma create_delete_find:
  "find c u = None \<Longrightarrow> on_create c u p = Inr c' \<Longrightarrow> on_delete c' u = Inr c'' \<Longrightarrow> find c'' = find c"
  by (auto simp: find_create find_delete fun_eq_iff)

end

section \<open>Drawing a fresh UUID\<close>

text \<open>
  \<^verbatim>\<open>GenerateNewStreamUuid\<close> of every provider draws candidates until one is free.
  \<open>ds\<close> lists the successive results of \<^verbatim>\<open>uuid.New()\<close> (a random source outside the
  program); \<open>None\<close> means that the loop is still running after all of them.
\<close>

fun fresh_uuid :: "(uuid \<Rightarrow> bool) \<Rightarrow> uuid list \<Rightarrow> uuid option" where
  "fresh_uuid taken [] = None"
| "fresh_uuid taken (candidate # rest) =
     (if taken candidate then fresh_uuid taken rest else Some candidate)"

lemma fresh_uuid_free: "fresh_uuid taken ds = Some u \<Longrightarrow> \<not> taken u \<and> u \<in> set ds"
  by (induction ds) (auto split: if_splits)

lemma fresh_uuid_ends: "u \<in> set ds \<Longrightarrow> \<not> taken u \<Longrightarrow> \<exists>v. fresh_uuid taken ds = Some v"
  by (induction ds) auto

end
