(* ===== verification/Dichotomy.thy ===== *)
theory Dichotomy
  imports Prelude
begin

text \<open>
  The loop that four search routines of the storage providers share: a dichotomy on the rank of
  a row, comparing the row's key with the one looked for. The routines differ in how a row is
  read (\<open>get\<close>: a slice access or a read from the index file), in the key, and in what they
  do when the interval is empty, so the loop returns either the row it hit or the last values of
  its variables.

  Ranks are slice indices or row counts, so they are below \<open>2 ^ 63\<close> and \<open>low + high\<close>
  never wraps at 64 bits: by \<open>midpoint_u64\<close> the shift of the code computes \<open>(low + high) div 2\<close>.
\<close>

section \<open>The loop\<close>

datatype 'r probe_end =
    Hit nat 'r      \<comment> \<open>rank and row whose key is the one looked for\<close>
  | Miss nat nat    \<comment> \<open>final \<open>lowIndexRank\<close> and final \<open>nextMedianIndexRank\<close>\<close>

function dichotomy ::
    "(nat \<Rightarrow> go_error + 'r) \<Rightarrow> ('r \<Rightarrow> 'k::linorder) \<Rightarrow> 'k \<Rightarrow> nat \<Rightarrow> nat \<Rightarrow> nat \<Rightarrow> go_error + 'r probe_end"
where
  "dichotomy get key x low high med =
     (if low < high then
        (let m = (low + high) div 2 in
         case get m of
           Inl e \<Rightarrow> Inl e
         | Inr r \<Rightarrow>
             if key r = x then Inr (Hit m r)
             else if key r > x then dichotomy get key x low m m
             else dichotomy get key x (m + 1) high m)
      else Inr (Miss low med))"
  by pat_completeness auto
termination
  by (relation "measure (\<lambda>(get, key, x, low, high, med). high - low)") auto

declare dichotomy.simps [simp del]

text \<open>One pass of the loop at a time, for evaluation on concrete tables.\<close>

lemma dichotomy_stop: "high \<le> low \<Longrightarrow> dichotomy get key x low high med = Inr (Miss low med)"
  by (simp add: dichotomy.simps)

lemma dichotomy_pass:
  "low < high \<Longrightarrow> get ((low + high) div 2) = Inr r \<Longrightarrow>
   dichotomy get key x low high med =
     (if key r = x then Inr (Hit ((low + high) div 2) r)
      else if key r > x then dichotomy get key x low ((low + high) div 2) ((low + high) div 2)
      else dichotomy get key x ((low + high) div 2 + 1) high ((low + high) div 2))"
  by (simp add: dichotomy.simps [of get key x low high med] Let_def)

lemmas dichotomy_eval = dichotomy_stop dichotomy_pass

text \<open>Whatever the rows are, a hit is a row that was read and has the key.\<close>

lemma dichotomy_Hit:
  "dichotomy get key x low high med = Inr (Hit m r) \<Longrightarrow>
     get m = Inr r \<and> key r = x \<and> low \<le> m \<and> m < high"
proof (induction get key x low high med rule: dichotomy.induct)
  case (1 get key x low high med)
  let ?m = "(low + high) div 2"
  from "1.prems" have lh: "low < high"
    by (auto simp: dichotomy.simps [of get key x low high med] split: if_splits)
  from "1.prems" lh obtain r' where r': "get ?m = Inr r'"
    by (cases "get ?m") (auto simp: dichotomy.simps [of get key x low high med] Let_def)
  note unfold = dichotomy.simps [of get key x low high med]
  consider "key r' = x" | "key r' \<noteq> x" "x < key r'" | "key r' \<noteq> x" "\<not> x < key r'" by blast
  then show ?case
  proof cases
    case 1
    with "1.prems" lh r' show ?thesis by (auto simp: unfold Let_def)
  next
    case 2
    with "1.prems" lh r' have "dichotomy get key x low ?m ?m = Inr (Hit m r)"
      by (simp add: unfold Let_def)
    from "1.IH"(1) [OF lh refl r' 2 this] lh show ?thesis by auto
  next
    case 3
    with "1.prems" lh r' have "dichotomy get key x (?m + 1) high ?m = Inr (Hit m r)"
      by (simp add: unfold Let_def)
    from "1.IH"(2) [OF lh refl r' 3 this] show ?thesis by auto
  qed
qed

section \<open>A table of rows sorted by key\<close>

text \<open>
  The interface of a searched table \<open>t\<close>: \<open>rows t\<close> is what it holds, in rank order,
  \<open>get t\<close> reads the row of a rank, and \<open>tinv t\<close> is the invariant under which the reads
  succeed and the keys are sorted.
\<close>

locale sorted_rows =
  fixes rows :: "'t \<Rightarrow> 'r list"
    and key :: "'r \<Rightarrow> 'k::linorder"
    and get :: "'t \<Rightarrow> nat \<Rightarrow> go_error + 'r"
    and tinv :: "'t \<Rightarrow> bool"
  assumes get_row: "tinv t \<Longrightarrow> i < length (rows t) \<Longrightarrow> get t i = Inr (rows t ! i)"
    and keys_mono:
      "tinv t \<Longrightarrow> i < j \<Longrightarrow> j < length (rows t) \<Longrightarrow> key (rows t ! i) \<le> key (rows t ! j)"
begin

text \<open>What the loop knows at its head, and what its result means.\<close>

definition probing :: "'t \<Rightarrow> 'k \<Rightarrow> nat \<Rightarrow> nat \<Rightarrow> nat \<Rightarrow> bool" where
  "probing t x low high med \<longleftrightarrow>
     low \<le> high \<and> high < length (rows t) \<and>
     (\<forall>i<low. key (rows t ! i) < x) \<and>
     (high = length (rows t) - 1 \<or> x < key (rows t ! high)) \<and>
     (low = 0 \<and> high = length (rows t) - 1 \<and> med = 0
      \<or> med = high \<and> high + 1 < length (rows t) \<and> x < key (rows t ! med)
      \<or> med + 1 = low \<and> key (rows t ! med) < x)"

definition probed :: "'t \<Rightarrow> 'k \<Rightarrow> nat \<Rightarrow> 'r probe_end \<Rightarrow> bool" where
  "probed t x high res \<longleftrightarrow>
     (case res of
        Hit m r \<Rightarrow> m < high \<and> r = rows t ! m \<and> key r = x
      | Miss low med \<Rightarrow> probing t x low low med)"

lemma probing_start: "rows t \<noteq> [] \<Longrightarrow> probing t x 0 (length (rows t) - 1) 0"
  by (simp add: probing_def)

lemma key_le: "tinv t \<Longrightarrow> i \<le> j \<Longrightarrow> j < length (rows t) \<Longrightarrow> key (rows t ! i) \<le> key (rows t ! j)"
  using keys_mono by (cases "i = j") auto

lemma probing_left:
  assumes "tinv t" and "probing t x low high med" and "low \<le> m" and "m < high" and "x < key (rows t ! m)"
  shows "probing t x low m m"
  using assms by (auto simp: probing_def)

lemma probing_right:
  assumes "tinv t" and "probing t x low high med" and "low \<le> m" and "m < high" and "key (rows t ! m) < x"
  shows "probing t x (m + 1) high m"
proof -
  have "key (rows t ! i) < x" if "i < m + 1" for i
    using that assms key_le [of t i m] by (auto simp: probing_def intro: le_less_trans)
  with assms show ?thesis by (auto simp: probing_def)
qed

theorem dichotomy_probed:
  assumes "tinv t" and "probing t x low high med"
  shows "\<exists>res. dichotomy (get t) key x low high med = Inr res \<and> probed t x high res"
  using assms(2)
proof (induction "high - low" arbitrary: low high med rule: less_induct)
  case less
  show ?case
  proof (cases "low < high")
    case False
    with less.prems have "high = low" by (simp add: probing_def)
    with less.prems show ?thesis by (auto simp: dichotomy.simps [of "get t"] probed_def)
  next
    case True
    let ?m = "(low + high) div 2"
    have m: "low \<le> ?m" "?m < high" using True by auto
    then have g: "get t ?m = Inr (rows t ! ?m)"
      using less.prems assms(1) by (intro get_row) (auto simp: probing_def)
    have unfold: "dichotomy (get t) key x low high med =
        (if key (rows t ! ?m) = x then Inr (Hit ?m (rows t ! ?m))
         else if x < key (rows t ! ?m) then dichotomy (get t) key x low ?m ?m
         else dichotomy (get t) key x (?m + 1) high ?m)"
      using True g by (simp add: dichotomy.simps [of "get t" key x low high med] Let_def)
    consider "key (rows t ! ?m) = x" | "x < key (rows t ! ?m)" | "key (rows t ! ?m) < x"
      by (rule linorder_cases)
    then show ?thesis
    proof cases
      case 1
      with m show ?thesis by (auto simp: unfold probed_def)
    next
      case 2
      from probing_left [OF assms(1) less.prems m 2] have p: "probing t x low ?m ?m" .
      have "?m - low < high - low" using m True by simp
      from less.hyps [OF this p] obtain res
        where "dichotomy (get t) key x low ?m ?m = Inr res" "probed t x ?m res" by blast
      with 2 m show ?thesis by (auto simp: unfold probed_def split: probe_end.splits)
    next
      case 3
      from probing_right [OF assms(1) less.prems m 3] have p: "probing t x (?m + 1) high ?m" .
      have "high - (?m + 1) < high - low" using m True by simp
      from less.hyps [OF this p] obtain res
        where "dichotomy (get t) key x (?m + 1) high ?m = Inr res" "probed t x high res" by blast
      with 3 show ?thesis by (auto simp: unfold)
    qed
  qed
qed

text \<open>
  The whole search, from the first rank to the last: it ends, it never fails on a read, a hit is
  a row with the key, and a miss leaves the first rank whose key is not below the one looked for,
  or the last rank.
\<close>

definition whole :: "'t \<Rightarrow> 'k \<Rightarrow> go_error + 'r probe_end" where
  "whole t x = dichotomy (get t) key x 0 (length (rows t) - 1) 0"

lemma whole_total: "tinv t \<Longrightarrow> rows t \<noteq> [] \<Longrightarrow> \<exists>res. whole t x = Inr res \<and> probed t x (length (rows t) - 1) res"
  unfolding whole_def by (rule dichotomy_probed [OF _ probing_start])

lemma whole_cases:
  assumes "tinv t" and "rows t \<noteq> []"
  obtains (hit) m where "whole t x = Inr (Hit m (rows t ! m))" "m + 1 < length (rows t)" "key (rows t ! m) = x"
    | (miss) low med where "whole t x = Inr (Miss low med)" "probing t x low low med"
proof -
  obtain res where res: "whole t x = Inr res" "probed t x (length (rows t) - 1) res"
    using whole_total [OF assms(1,2)] by blast
  show thesis
  proof (cases res)
    case (Hit m r)
    with res hit [of m] show thesis by (auto simp: probed_def)
  next
    case (Miss low med)
    with res miss show thesis by (simp add: probed_def)
  qed
qed

text \<open>The final check that is complete: comparing the row at \<open>lowIndexRank\<close>.\<close>

lemma miss_low_complete:
  assumes "tinv t" and "probing t x low low med" and "k < length (rows t)" and "key (rows t ! k) = x"
  shows "key (rows t ! low) = x"
proof -
  have "low \<le> k" using assms by (auto simp: probing_def not_less [symmetric])
  then have "key (rows t ! low) \<le> x" using key_le [of t low k] assms by simp
  moreover have "x \<le> key (rows t ! low)"
  proof (cases "low = length (rows t) - 1")
    case True
    with \<open>low \<le> k\<close> assms(3) have "k = low" by simp
    with assms show ?thesis by simp
  next
    case False
    with assms show ?thesis by (auto simp: probing_def)
  qed
  ultimately show ?thesis by simp
qed

lemma miss_low_first:
  assumes "tinv t" and "probing t x low low med" and "k < length (rows t)" and "x \<le> key (rows t ! k)"
  shows "low \<le> k" and "x \<le> key (rows t ! low)"
proof -
  show "low \<le> k" using assms by (auto simp: probing_def not_less [symmetric])
  show "x \<le> key (rows t ! low)"
  proof (cases "low = length (rows t) - 1")
    case True
    with \<open>low \<le> k\<close> assms(3) have "k = low" by simp
    with assms show ?thesis by simp
  next
    case False
    with assms show ?thesis by (auto simp: probing_def)
  qed
qed

text \<open>
  The final check that is not: comparing the row at \<open>nextMedianIndexRank\<close>. With two rows or
  more, that row was already compared inside the loop.
\<close>

lemma miss_median:
  assumes "tinv t" and "probing t x low low med" and "2 \<le> length (rows t)"
  shows "key (rows t ! med) \<noteq> x"
    and "x < key (rows t ! med) \<Longrightarrow> med = low \<and> med + 1 < length (rows t)"
    and "med < length (rows t)"
  using assms by (auto simp: probing_def)

end

end
