(* ===== verification/Bytes.thy ===== *)
theory Bytes
  imports Prelude
begin

text \<open>
  Bytes and lines: the little-endian encoding that \<^verbatim>\<open>encoding/binary\<close> gives machine integers,
  its inverse, and the splitting of a text file into complete lines. A binary file is a list of
  bytes; a text file is a string, one character per byte.
\<close>

unbundle bit_operations_syntax

section \<open>Little-endian integers\<close>

type_synonym bytes = "8 word list"

definition le_bytes :: "nat \<Rightarrow> 'a::len word \<Rightarrow> bytes" where
  "le_bytes n w = map (\<lambda>i. ucast (drop_bit (8 * i) w)) [0..<n]"

definition le_word :: "bytes \<Rightarrow> 'a::len word" where
  "le_word bs = foldr (\<lambda>b acc. ucast b OR push_bit 8 acc) bs 0"

lemma length_le_bytes [simp]: "length (le_bytes n w) = n"
  by (simp add: le_bytes_def)

lemma le_bytes_Suc: "le_bytes (Suc n) w = ucast w # le_bytes n (drop_bit 8 w)"
  by (simp add: le_bytes_def upt_conv_Cons map_Suc_upt [symmetric] add.commute
        del: upt_Suc)

lemma le_word_Nil [simp]: "le_word [] = 0"
  by (simp add: le_word_def)

lemma le_word_Cons [simp]: "le_word (b # bs) = ucast b OR push_bit 8 (le_word bs)"
  by (simp add: le_word_def)

lemma le_word_le_bytes: "le_word (le_bytes n w) = take_bit (8 * n) w"
proof (induction n arbitrary: w)
  case 0
  then show ?case by (simp add: le_bytes_def)
next
  case (Suc n)
  have "(ucast (ucast w :: 8 word) :: 'a word) OR push_bit 8 (take_bit (8 * n) (drop_bit 8 w))
      = take_bit (8 * Suc n) w"
    by (rule bit_word_eqI) (auto simp: bit_simps)
  then show ?case by (simp add: le_bytes_Suc Suc)
qed

lemma le_word64_roundtrip [simp]: "le_word (le_bytes 8 w) = (w :: 64 word)"
  by (simp add: le_word_le_bytes take_bit_word_eq_self)

lemma le_word32_roundtrip [simp]: "le_word (le_bytes 4 w) = (w :: 32 word)"
  by (simp add: le_word_le_bytes take_bit_word_eq_self)

section \<open>Lines\<close>

definition EOL :: char where
  "EOL = CHR 0x0A"

text \<open>
  \<open>cut_line s\<close> is what \<^verbatim>\<open>ReadString('\n')\<close> finds in a text: the line up to and including the
  first newline and what follows it, or nothing when there is no newline.
\<close>

fun cut_line :: "string \<Rightarrow> (string \<times> string) option" where
  "cut_line [] = None"
| "cut_line (c # s) =
     (if c = EOL then Some ([c], s)
      else (case cut_line s of None \<Rightarrow> None | Some (l, rest) \<Rightarrow> Some (c # l, rest)))"

lemma cut_line_append: "cut_line s = Some (l, rest) \<Longrightarrow> s = l @ rest"
  by (induction s arbitrary: l) (auto split: if_splits option.splits)

lemma cut_line_length: "cut_line s = Some (l, rest) \<Longrightarrow> length rest < length s"
  by (induction s arbitrary: l) (auto split: if_splits option.splits)

lemma cut_line_None: "cut_line s = None \<longleftrightarrow> EOL \<notin> set s"
  by (induction s) (auto split: option.splits)

lemma cut_line_at: "EOL \<notin> set s \<Longrightarrow> cut_line (s @ EOL # t) = Some (s @ [EOL], t)"
  by (induction s) auto

lemma cut_line_more:
  "cut_line s = Some (l, rest) \<Longrightarrow> cut_line (s @ t) = Some (l, rest @ t)"
  by (induction s arbitrary: l) (auto split: if_splits option.splits)

text \<open>The complete lines of a text, each with its newline; an unfinished last line is dropped.\<close>

function full_lines :: "string \<Rightarrow> string list" where
  "full_lines s = (case cut_line s of None \<Rightarrow> [] | Some (l, rest) \<Rightarrow> l # full_lines rest)"
  by pat_completeness auto
termination
  by (relation "measure length") (auto dest: cut_line_length)

declare full_lines.simps [simp del]

lemma full_lines_Nil [simp]: "full_lines [] = []"
  by (simp add: full_lines.simps)

lemma full_lines_None: "cut_line s = None \<Longrightarrow> full_lines s = []"
  by (simp add: full_lines.simps)

lemma full_lines_Some: "cut_line s = Some (l, rest) \<Longrightarrow> full_lines s = l # full_lines rest"
  by (simp add: full_lines.simps)

text \<open>A line of a file: no newline but the last character.\<close>

definition is_line :: "string \<Rightarrow> bool" where
  "is_line l \<longleftrightarrow> (\<exists>s. l = s @ [EOL] \<and> EOL \<notin> set s)"

lemma full_lines_cons: "is_line l \<Longrightarrow> full_lines (l @ s) = l # full_lines s"
  by (auto simp: is_line_def cut_line_at full_lines.simps [of "_ @ _"])

lemma full_lines_concat: "list_all is_line ls \<Longrightarrow> full_lines (concat ls @ s) = ls @ full_lines s"
  by (induction ls) (auto simp: full_lines_cons)

lemma full_lines_lines: "list_all is_line ls \<Longrightarrow> full_lines (concat ls) = ls"
  using full_lines_concat [of ls "[]"] by simp

end
