(* ===== verification/FileIndex.thy ===== *)
theory FileIndex
  imports Interfaces Dichotomy Bytes
begin

text \<open>
  The index of a stream stored in files (storageprovider/jsonfileprovider/streamindexfile.go):
  its binary rows, the construction of the index from the data file, and the searches that give
  an iterator its first byte offset.

  A file is \<open>Some content\<close>, or \<open>None\<close> when opening it fails. \<^verbatim>\<open>goccy/go-json\<close> is outside
  the repository: decoding a line is the argument \<open>um\<close>.
\<close>

section \<open>Rows\<close>

text \<open>
  The four fields are 64-bit words; the last three are signed. \<^verbatim>\<open>MsgOffset\<close> is an \<^verbatim>\<open>int64\<close>.
\<close>

record index_row =
  ir_Id :: "64 word"
  ir_LengthInBytes :: "64 word"
  ir_Offset :: "64 word"
  ir_TimestampUnixNano :: "64 word"

definition sizeOfStreamIndexRowMsg :: nat where
  "sizeOfStreamIndexRowMsg = 4 * 8"

definition encode_row :: "index_row \<Rightarrow> bytes" where
  "encode_row r = le_bytes 8 (ir_Id r) @ le_bytes 8 (ir_LengthInBytes r) @
     le_bytes 8 (ir_Offset r) @ le_bytes 8 (ir_TimestampUnixNano r)"

definition decode_row :: "bytes \<Rightarrow> index_row" where
  "decode_row bs = \<lparr>ir_Id = le_word (take 8 bs), ir_LengthInBytes = le_word (take 8 (drop 8 bs)),
     ir_Offset = le_word (take 8 (drop 16 bs)), ir_TimestampUnixNano = le_word (take 8 (drop 24 bs))\<rparr>"

lemma length_encode_row [simp]: "length (encode_row r) = sizeOfStreamIndexRowMsg"
  by (simp add: encode_row_def sizeOfStreamIndexRowMsg_def)

lemma decode_encode_row [simp]: "decode_row (encode_row r) = r"
  by (simp add: decode_row_def encode_row_def)

section \<open>Reading rows\<close>

text \<open>
  \<^verbatim>\<open>binary.Read\<close> of a row at a position: end of file when nothing is left, unexpected end of
  file when less than a row is left.
\<close>

definition read_row :: "bytes \<Rightarrow> nat \<Rightarrow> go_error + index_row" where
  "read_row content pos =
     (let rest = drop pos content in
      if rest = [] then Inl (Error ''EOF'')
      else if length rest < sizeOfStreamIndexRowMsg then Inl (Error ''unexpected EOF'')
      else Inr (decode_row (take sizeOfStreamIndexRowMsg rest)))"

definition getRowAtIndexPos :: "bytes \<Rightarrow> nat \<Rightarrow> go_error + index_row" where
  "getRowAtIndexPos content indexPos = read_row content (indexPos * sizeOfStreamIndexRowMsg)"

definition getIndexRowsCount :: "bytes \<Rightarrow> nat" where
  "getIndexRowsCount content = length content div sizeOfStreamIndexRowMsg"

text \<open>
  \<^verbatim>\<open>getOffsetMessage\<close> is only called with one row before the end of the file; seeking before
  the start of the file fails.
\<close>

definition getOffsetMessage :: "bytes option \<Rightarrow> go_error + index_row" where
  "getOffsetMessage file =
     (case file of
        None \<Rightarrow> Inl (Error ''open'')
      | Some content \<Rightarrow>
          if length content < sizeOfStreamIndexRowMsg then Inl (Error ''seek: invalid argument'')
          else read_row content (length content - sizeOfStreamIndexRowMsg))"

section \<open>Searches\<close>

definition id_not_found :: go_error where
  "id_not_found = Error ''message id not found''"

definition searchMessageId :: "bytes \<Rightarrow> u64 \<Rightarrow> nat \<Rightarrow> go_error + index_row" where
  "searchMessageId content messageId lastIndexRank =
     (case dichotomy (getRowAtIndexPos content) ir_Id messageId 0 lastIndexRank 0 of
        Inl e \<Rightarrow> Inl e
      | Inr (Hit m row) \<Rightarrow> Inr row
      | Inr (Miss low med) \<Rightarrow>
          (case getRowAtIndexPos content low of
             Inl e \<Rightarrow> Inl e
           | Inr row \<Rightarrow> if ir_Id row = messageId then Inr row else Inl id_not_found))"

definition row_time :: "index_row \<Rightarrow> int" where
  "row_time r = sint (ir_TimestampUnixNano r)"

definition searchTimestamp :: "bytes \<Rightarrow> int \<Rightarrow> nat \<Rightarrow> go_error + index_row" where
  "searchTimestamp content timestampUnixNano lastIndexRank =
     (case dichotomy (getRowAtIndexPos content) row_time timestampUnixNano 0 lastIndexRank 0 of
        Inl e \<Rightarrow> Inl e
      | Inr (Hit m row) \<Rightarrow> Inr row
      | Inr (Miss low med) \<Rightarrow>
          (case getRowAtIndexPos content low of
             Inl e \<Rightarrow> Inl e
           | Inr row \<Rightarrow> if row_time row \<ge> timestampUnixNano then Inr row else Inl id_not_found))"

text \<open>
  \<^verbatim>\<open>getOffsetAt\<close> takes either an id (\<open>Inl\<close>) or a timestamp (\<open>Inr\<close>). With an empty index
  it returns a nil row and no error (\<open>Inr None\<close>).
\<close>

definition getOffsetAt :: "bytes option \<Rightarrow> u64 + time \<Rightarrow> go_error + index_row option" where
  "getOffsetAt file what =
     (case file of
        None \<Rightarrow> Inl (Error ''open'')
      | Some content \<Rightarrow>
          (let indexRowsCount = getIndexRowsCount content in
           if indexRowsCount = 0 then Inr None
           else map_sum id Some
             (case what of
                Inl messageId \<Rightarrow> searchMessageId content messageId (indexRowsCount - 1)
              | Inr timestamp \<Rightarrow> searchTimestamp content (UnixNano timestamp) (indexRowsCount - 1))))"

text \<open>The callers dereference the row without a check.\<close>

definition row_result ::
    "(index_row \<Rightarrow> u64 \<times> int) \<Rightarrow> go_error + index_row option \<Rightarrow> go_error + u64 \<times> int" where
  "row_result f res =
     (case res of
        Inl e \<Rightarrow> Inl e
      | Inr None \<Rightarrow> Inl (Panic ''nil pointer dereference'')
      | Inr (Some row) \<Rightarrow> Inr (f row))"

definition row_at :: "index_row \<Rightarrow> u64 \<times> int" where
  "row_at row = (ir_Id row, sint (ir_Offset row))"

definition row_after :: "index_row \<Rightarrow> u64 \<times> int" where
  "row_after row = (ir_Id row + 1, sint (ir_Offset row + ir_LengthInBytes row))"

definition GetOffsetFirstMessage :: "bytes option \<Rightarrow> go_error + u64 \<times> int" where
  "GetOffsetFirstMessage file = Inr (0, 0)"

definition GetOffsetLastMessage :: "bytes option \<Rightarrow> go_error + u64 \<times> int" where
  "GetOffsetLastMessage file = map_sum id row_at (getOffsetMessage file)"

definition GetOffsetAfterLastMessage :: "bytes option \<Rightarrow> go_error + u64 \<times> int" where
  "GetOffsetAfterLastMessage file = map_sum id row_after (getOffsetMessage file)"

definition GetOffsetAtMessageId :: "bytes option \<Rightarrow> u64 \<Rightarrow> go_error + u64 \<times> int" where
  "GetOffsetAtMessageId file messageId = row_result row_at (getOffsetAt file (Inl messageId))"

definition GetOffsetAfterMessageId :: "bytes option \<Rightarrow> u64 \<Rightarrow> go_error + u64 \<times> int" where
  "GetOffsetAfterMessageId file messageId = row_result row_after (getOffsetAt file (Inl messageId))"

definition GetOffsetAtTimestamp :: "bytes option \<Rightarrow> time \<Rightarrow> go_error + u64 \<times> int" where
  "GetOffsetAtTimestamp file timestamp = row_result row_at (getOffsetAt file (Inr timestamp))"

section \<open>Building the index\<close>

record index_stats =
  is_CptMessages :: "64 word"
  is_FileSize :: "64 word"
  is_FirstMsgId :: u64
  is_LastMsgId :: u64
  is_FirstMsgTimestamp :: time
  is_LastMsgTimestamp :: time

definition no_stats :: index_stats where
  "no_stats = \<lparr>is_CptMessages = 0, is_FileSize = 0, is_FirstMsgId = 0, is_LastMsgId = 0,
     is_FirstMsgTimestamp = zero_time, is_LastMsgTimestamp = zero_time\<rparr>"

text \<open>
  \<^verbatim>\<open>json.Unmarshal(line, &message)\<close> decodes into the pointer \<^verbatim>\<open>message\<close>, which still points to
  the record of the line before: \<open>um prev line\<close> is the new pointer (\<open>None\<close> is nil, what the
  JSON value null gives). The index file is truncated first and extended row by row, so what it
  holds when the loop fails is part of the result.
\<close>

definition make_row :: "'x deferred \<Rightarrow> string \<Rightarrow> 64 word \<Rightarrow> index_row" where
  "make_row m line off =
     \<lparr>ir_Id = dr_Id m, ir_LengthInBytes = of_nat (length line), ir_Offset = off,
      ir_TimestampUnixNano = word_of_int (UnixNano (dr_CreationDate m))\<rparr>"

fun build_rows ::
    "('x deferred option \<Rightarrow> string \<Rightarrow> go_error + 'x deferred option) \<Rightarrow>
     'x deferred option \<Rightarrow> 64 word \<Rightarrow> bytes \<Rightarrow> index_stats \<Rightarrow> string list \<Rightarrow>
     bytes \<times> (go_error + 'x deferred option \<times> 64 word \<times> index_stats)" where
  "build_rows um message msgOffset idx stats [] = (idx, Inr (message, msgOffset, stats))"
| "build_rows um message msgOffset idx stats (line # lines) =
     (case um message line of
        Inl e \<Rightarrow> (idx, Inl e)
      | Inr None \<Rightarrow> (idx, Inl (Panic ''nil pointer dereference''))
      | Inr (Some m) \<Rightarrow>
          (let row = make_row m line msgOffset;
               stats1 = (if msgOffset = 0
                 then stats\<lparr>is_FirstMsgId := dr_Id m, is_FirstMsgTimestamp := dr_CreationDate m\<rparr>
                 else stats)
           in build_rows um (Some m) (msgOffset + ir_LengthInBytes row) (idx @ encode_row row)
                (stats1\<lparr>is_CptMessages := is_CptMessages stats1 + 1\<rparr>) lines))"

definition BuildIndex ::
    "('x deferred option \<Rightarrow> string \<Rightarrow> go_error + 'x deferred option) \<Rightarrow>
     string option \<Rightarrow> bytes option \<Rightarrow> bytes option \<times> (go_error + index_stats)" where
  "BuildIndex um dataFile indexFile =
     (case dataFile of
        None \<Rightarrow> (indexFile, Inl (Error ''open''))
      | Some content \<Rightarrow>
          (case build_rows um None 0 [] no_stats (full_lines content) of
             (idx, Inl e) \<Rightarrow> (Some idx, Inl e)
           | (idx, Inr (message, msgOffset, stats)) \<Rightarrow>
               (Some idx, Inr (case message of
                  None \<Rightarrow> stats
                | Some m \<Rightarrow> stats\<lparr>is_LastMsgId := dr_Id m,
                    is_LastMsgTimestamp := dr_CreationDate m, is_FileSize := msgOffset\<rparr>))))"

section \<open>A file of whole rows is a sorted table\<close>

definition rows_file :: "index_row list \<Rightarrow> bytes" where
  "rows_file rs = concat (map encode_row rs)"

lemma rows_file_simps [simp]:
  "rows_file [] = []"
  "rows_file (r # rs) = encode_row r @ rows_file rs"
  "rows_file (rs @ qs) = rows_file rs @ rows_file qs"
  by (simp_all add: rows_file_def)

lemma length_rows_file: "length (rows_file rs) = length rs * sizeOfStreamIndexRowMsg"
  by (induction rs) auto

lemma row_size_pos: "0 < sizeOfStreamIndexRowMsg"
  by (simp add: sizeOfStreamIndexRowMsg_def)

lemma getIndexRowsCount_rows [simp]: "getIndexRowsCount (rows_file rs) = length rs"
  using row_size_pos by (simp add: getIndexRowsCount_def length_rows_file)

lemma drop_rows_file: "drop (i * sizeOfStreamIndexRowMsg) (rows_file rs) = rows_file (drop i rs)"
proof (induction rs arbitrary: i)
  case Nil
  then show ?case by simp
next
  case (Cons r rs)
  then show ?case by (cases i) auto
qed

lemma read_row_rows: "i < length rs \<Longrightarrow> getRowAtIndexPos (rows_file rs) i = Inr (rs ! i)"
proof -
  assume i: "i < length rs"
  then obtain qs where d: "drop i rs = rs ! i # qs" by (metis Cons_nth_drop_Suc)
  have "encode_row (rs ! i) \<noteq> []"
    using row_size_pos by (metis length_encode_row length_0_conv less_irrefl)
  then show ?thesis
    by (simp add: getRowAtIndexPos_def read_row_def drop_rows_file d Let_def)
qed

definition row_ids_increase :: "index_row list \<Rightarrow> bool" where
  "row_ids_increase rs \<longleftrightarrow> sorted_wrt (\<lambda>a b. ir_Id a < ir_Id b) rs"

definition row_times_increase :: "index_row list \<Rightarrow> bool" where
  "row_times_increase rs \<longleftrightarrow> sorted_wrt (\<lambda>a b. row_time a \<le> row_time b) rs"

interpretation id_index: sorted_rows "\<lambda>rs. rs" ir_Id "\<lambda>rs. getRowAtIndexPos (rows_file rs)" row_ids_increase
  by unfold_locales
     (auto simp: read_row_rows row_ids_increase_def sorted_wrt_iff_nth_less intro: less_imp_le)

interpretation time_index: sorted_rows "\<lambda>rs. rs" row_time "\<lambda>rs. getRowAtIndexPos (rows_file rs)" row_times_increase
  by unfold_locales
     (auto simp: read_row_rows row_times_increase_def sorted_wrt_iff_nth_less)

lemma row_ids_inj:
  "row_ids_increase rs \<Longrightarrow> i < length rs \<Longrightarrow> j < length rs \<Longrightarrow> ir_Id (rs ! i) = ir_Id (rs ! j) \<longleftrightarrow> i = j"
  by (metis row_ids_increase_def linorder_neqE_nat order_less_irrefl sorted_wrt_iff_nth_less)

lemma probing_index: "id_index.probing rs x low high med \<Longrightarrow> low < length rs"
  by (auto simp: id_index.probing_def)

text \<open>The search by id finds exactly the ids of the table.\<close>

lemma searchMessageId_found:
  assumes "row_ids_increase rs" and "k < length rs"
  shows "searchMessageId (rows_file rs) (ir_Id (rs ! k)) (length rs - 1) = Inr (rs ! k)"
proof -
  have ne: "rs \<noteq> []" using assms(2) by auto
  let ?x = "ir_Id (rs ! k)"
  show ?thesis
  proof (cases rule: id_index.whole_cases [OF assms(1) ne, of ?x])
    case (1 m)
    with row_ids_inj [OF assms(1), of m k] assms(2) show ?thesis
      by (simp add: searchMessageId_def id_index.whole_def)
  next
    case (2 low med)
    have low: "low < length rs" using 2(2) by (rule probing_index)
    from id_index.miss_low_complete [OF assms(1) 2(2) assms(2) refl] row_ids_inj [OF assms(1) low assms(2)]
    have "low = k" by simp
    with 2(1) low show ?thesis
      by (simp add: searchMessageId_def id_index.whole_def read_row_rows)
  qed
qed

lemma searchMessageId_absent:
  assumes "row_ids_increase rs" and "rs \<noteq> []" and "\<forall>r \<in> set rs. ir_Id r \<noteq> x"
  shows "searchMessageId (rows_file rs) x (length rs - 1) = Inl id_not_found"
proof (cases rule: id_index.whole_cases [OF assms(1,2), of x])
  case (1 m)
  then have "rs ! m \<in> set rs" by (intro nth_mem) simp
  with 1 assms(3) show ?thesis by auto
next
  case (2 low med)
  have "low < length rs" using 2(2) by (rule probing_index)
  with 2(1) assms(3) show ?thesis
    by (auto simp: searchMessageId_def id_index.whole_def read_row_rows)
qed

text \<open>
  The search by timestamp answers a row that is not before the requested instant whenever there
  is one, and the first such row unless it met a row with exactly that timestamp.
\<close>

lemma searchTimestamp_found:
  assumes "row_times_increase rs" and "k < length rs" and "x \<le> row_time (rs ! k)"
  shows "\<exists>i < length rs. searchTimestamp (rows_file rs) x (length rs - 1) = Inr (rs ! i) \<and>
           x \<le> row_time (rs ! i) \<and> (row_time (rs ! i) \<noteq> x \<longrightarrow> i \<le> k)"
proof -
  have ne: "rs \<noteq> []" using assms(2) by auto
  show ?thesis
  proof (cases rule: time_index.whole_cases [OF assms(1) ne, of x])
    case (1 m)
    then show ?thesis
      by (intro exI [of _ m]) (simp add: searchTimestamp_def time_index.whole_def)
  next
    case (2 low med)
    have low: "low < length rs" using 2(2) by (auto simp: time_index.probing_def)
    from time_index.miss_low_first [OF assms(1) 2(2) assms(2,3)] 2(1) low show ?thesis
      by (intro exI [of _ low]) (simp add: searchTimestamp_def time_index.whole_def read_row_rows)
  qed
qed

lemma searchTimestamp_none:
  assumes "row_times_increase rs" and "rs \<noteq> []" and "\<forall>r \<in> set rs. row_time r < x"
  shows "searchTimestamp (rows_file rs) x (length rs - 1) = Inl id_not_found"
proof (cases rule: time_index.whole_cases [OF assms(1,2), of x])
  case (1 m)
  then have "rs ! m \<in> set rs" by (intro nth_mem) simp
  with 1 assms(3) show ?thesis by auto
next
  case (2 low med)
  have low: "low < length rs" using 2(2) by (auto simp: time_index.probing_def)
  then have "row_time (rs ! low) < x" using assms(3) by simp
  with 2(1) low show ?thesis
    by (simp add: searchTimestamp_def time_index.whole_def read_row_rows)
qed

section \<open>What BuildIndex writes\<close>

text \<open>
  \<open>decodes um ls ms\<close>: every line decodes to its record whatever the pointer held before, as a
  line written by \<^verbatim>\<open>json.Marshal\<close> of a whole record does (all three fields are present).
\<close>

definition decodes ::
    "('x deferred option \<Rightarrow> string \<Rightarrow> go_error + 'x deferred option) \<Rightarrow> string list \<Rightarrow> 'x deferred list \<Rightarrow> bool"
where
  "decodes um ls ms \<longleftrightarrow> list_all2 (\<lambda>l m. \<forall>prev. um prev l = Inr (Some m)) ls ms"

fun index_rows :: "64 word \<Rightarrow> string list \<Rightarrow> 'x deferred list \<Rightarrow> index_row list" where
  "index_rows off (l # ls) (m # ms) = make_row m l off # index_rows (off + of_nat (length l)) ls ms"
| "index_rows off _ _ = []"

lemma length_index_rows: "length (index_rows off ls ms) = min (length ls) (length ms)"
  by (induction off ls ms rule: index_rows.induct) auto

lemma index_rows_nth:
  "k < length ls \<Longrightarrow> k < length ms \<Longrightarrow>
     index_rows off ls ms ! k = make_row (ms ! k) (ls ! k) (off + of_nat (length (concat (take k ls))))"
proof (induction off ls ms arbitrary: k rule: index_rows.induct)
  case (1 off l ls m ms)
  then show ?case by (cases k) (auto simp: algebra_simps)
qed auto

lemma build_rows_decodes:
  "decodes um ls ms \<Longrightarrow>
     \<exists>msg off' stats'. build_rows um prev off idx stats ls =
       (idx @ rows_file (index_rows off ls ms), Inr (msg, off', stats')) \<and>
       is_CptMessages stats' = is_CptMessages stats + of_nat (length ls) \<and>
       msg = (if ms = [] then prev else Some (last ms))"
  unfolding decodes_def
proof (induction ls ms arbitrary: prev off idx stats rule: list_all2_induct)
  case Nil
  then show ?case by simp
next
  case (Cons l ls m ms)
  let ?row = "make_row m l off"
  let ?st = "(if off = 0 then stats\<lparr>is_FirstMsgId := dr_Id m, is_FirstMsgTimestamp := dr_CreationDate m\<rparr>
              else stats)"
  from Cons.IH [of "Some m" "off + ir_LengthInBytes ?row" "idx @ encode_row ?row"
      "?st\<lparr>is_CptMessages := is_CptMessages ?st + 1\<rparr>"]
  show ?case using Cons.hyps
    by (auto simp: Let_def make_row_def algebra_simps split: if_splits)
qed

lemma BuildIndex_decodes:
  assumes "decodes um ls ms" and "full_lines content = ls"
  shows "\<exists>stats. BuildIndex um (Some content) old = (Some (rows_file (index_rows 0 ls ms)), Inr stats) \<and>
           is_CptMessages stats = of_nat (length ls) \<and>
           (ms \<noteq> [] \<longrightarrow> is_LastMsgId stats = dr_Id (last ms))"
proof -
  from build_rows_decodes [OF assms(1), of None 0 "[]" no_stats] obtain off' stats' where
    "build_rows um None 0 [] no_stats ls =
       (rows_file (index_rows 0 ls ms), Inr (if ms = [] then None else Some (last ms), off', stats'))"
    "is_CptMessages stats' = of_nat (length ls)"
    by (auto simp: no_stats_def)
  with assms(2) show ?thesis by (auto simp: BuildIndex_def)
qed

text \<open>The rows of an index inherit the order of the records.\<close>

lemma decodes_length: "decodes um ls ms \<Longrightarrow> length ls = length ms"
  by (simp add: decodes_def list_all2_lengthD)

lemma index_rows_ids:
  "length ls = length ms \<Longrightarrow> sorted_wrt (\<lambda>a b. dr_Id a < dr_Id b) ms \<Longrightarrow>
     row_ids_increase (index_rows off ls ms)"
  by (auto simp: row_ids_increase_def sorted_wrt_iff_nth_less length_index_rows index_rows_nth make_row_def)

lemma sint_offset: "n < 2 ^ 63 \<Longrightarrow> sint (of_nat n :: 64 word) = int n"
  by (simp add: signed_of_nat signed_take_bit_int_eq_self)

lemma length_concat_take: "length (concat (take k ls)) \<le> length (concat ls)"
  by (metis append_take_drop_id concat_append length_append le_add1)

text \<open>
  The property the index exists for: after \<^verbatim>\<open>BuildIndex\<close> the search by id gives, for the record
  of rank \<open>k\<close>, its id and the byte offset at which the lines from rank \<open>k\<close> on begin.
\<close>

lemma built_index_at:
  assumes "decodes um ls ms" and "sorted_wrt (\<lambda>a b. dr_Id a < dr_Id b) ms"
    and "length (concat ls) < 2 ^ 63" and "k < length ms"
  shows "GetOffsetAtMessageId (Some (rows_file (index_rows 0 ls ms))) (dr_Id (ms ! k)) =
           Inr (dr_Id (ms ! k), int (length (concat (take k ls))))"
    and "GetOffsetAfterMessageId (Some (rows_file (index_rows 0 ls ms))) (dr_Id (ms ! k)) =
           Inr (dr_Id (ms ! k) + 1, int (length (concat (take (Suc k) ls))))"
proof -
  let ?rs = "index_rows 0 ls ms"
  have len: "length ls = length ms" using assms(1) by (rule decodes_length)
  have inc: "row_ids_increase ?rs" using len assms(2) by (rule index_rows_ids)
  have k: "k < length ?rs" using assms(4) len by (simp add: length_index_rows)
  have row: "?rs ! k = make_row (ms ! k) (ls ! k) (of_nat (length (concat (take k ls))))"
    using index_rows_nth [of k ls ms 0] assms(4) len by simp
  have "searchMessageId (rows_file ?rs) (dr_Id (ms ! k)) (length ?rs - 1) = Inr (?rs ! k)"
    using searchMessageId_found [OF inc k] row by (simp add: make_row_def)
  then have off: "getOffsetAt (Some (rows_file ?rs)) (Inl (dr_Id (ms ! k))) = Inr (Some (?rs ! k))"
    using k by (auto simp: getOffsetAt_def Let_def)
  have b: "length (concat (take k ls)) < 2 ^ 63" "length (concat (take (Suc k) ls)) < 2 ^ 63"
    using length_concat_take [of k ls] length_concat_take [of "Suc k" ls] assms(3) by linarith+
  show "GetOffsetAtMessageId (Some (rows_file ?rs)) (dr_Id (ms ! k)) =
           Inr (dr_Id (ms ! k), int (length (concat (take k ls))))"
    using off row sint_offset [OF b(1)]
    by (simp add: GetOffsetAtMessageId_def row_result_def row_at_def make_row_def)
  have "(of_nat (length (concat (take k ls))) :: 64 word) + of_nat (length (ls ! k)) =
      of_nat (length (concat (take (Suc k) ls)))"
    using assms(4) len by (simp add: take_Suc_conv_app_nth)
  then show "GetOffsetAfterMessageId (Some (rows_file ?rs)) (dr_Id (ms ! k)) =
           Inr (dr_Id (ms ! k) + 1, int (length (concat (take (Suc k) ls))))"
    using off row sint_offset [OF b(2)]
    by (simp add: GetOffsetAfterMessageId_def row_result_def row_after_def make_row_def)
qed

section \<open>Properties\<close>

text \<open>
  The format of the index file. Decoding inverts encoding on every row, and a file of
  encoded rows is read back row by row, with the number of rows recovered from its length.
\<close>

theorem index_file_roundtrip:
  "decode_row (encode_row r) = r \<and>
   getIndexRowsCount (rows_file rs) = length rs \<and>
   map (getRowAtIndexPos (rows_file rs)) [0..<getIndexRowsCount (rows_file rs)] = map Inr rs"
  by (auto simp: read_row_rows intro: nth_equalityI)

lemma BuildIndex_file:
  assumes "decodes um ls ms" and "list_all is_line ls" and "EOL \<notin> set tail"
    and "BuildIndex um (Some (concat ls @ tail)) old = (idx, res)"
  shows "idx = Some (rows_file (index_rows 0 ls ms))"
proof -
  have "full_lines (concat ls @ tail) = ls"
    using assms(2,3) by (simp add: full_lines_concat full_lines_None cut_line_None)
  from BuildIndex_decodes [OF assms(1) this, of old] assms(4) show ?thesis by auto
qed

lemma drop_concat_lines:
  "k \<le> length ls \<Longrightarrow> drop (length (concat (take k ls))) (concat ls @ tail) = concat (drop k ls) @ tail"
  by (metis append_take_drop_id append_assoc append_eq_conv_conj concat_append)

text \<open>
  C14: what building an index is for. Let the data file hold lines that decode to records with
  increasing ids, and possibly an unfinished last line. After \<^verbatim>\<open>BuildIndex\<close>, looking up the id
  of the record of rank \<open>k\<close> gives a byte offset at which the file continues with exactly the
  lines from \<open>k\<close> on, and looking up ``after'' that id gives the lines from \<open>k + 1\<close> on;
  whatever the index file held before.
\<close>

theorem BuildIndex_then_lookup:
  assumes "decodes um ls ms" and "list_all is_line ls" and "EOL \<notin> set tail"
    and "sorted_wrt (\<lambda>a b. dr_Id a < dr_Id b) ms"
    and "length (concat ls) < 2 ^ 63" and "k < length ms"
    and "BuildIndex um (Some (concat ls @ tail)) old = (idx, res)"
  shows "\<exists>o1 o2. GetOffsetAtMessageId idx (dr_Id (ms ! k)) = Inr (dr_Id (ms ! k), int o1) \<and>
     drop o1 (concat ls @ tail) = concat (drop k ls) @ tail \<and>
     GetOffsetAfterMessageId idx (dr_Id (ms ! k)) = Inr (dr_Id (ms ! k) + 1, int o2) \<and>
     drop o2 (concat ls @ tail) = concat (drop (k + 1) ls) @ tail"
proof -
  note idx = BuildIndex_file [OF assms(1,2,3,7)]
  have "k + 1 \<le> length ls" "k \<le> length ls" using assms(6) decodes_length [OF assms(1)] by simp_all
  then show ?thesis
    using built_index_at [OF assms(1,4,5,6)] drop_concat_lines unfolding idx by (metis Suc_eq_plus1)
qed

definition sample_um :: "unit deferred option \<Rightarrow> string \<Rightarrow> go_error + unit deferred option" where
  "sample_um prev l = Inr (Some \<lparr>dr_Id = of_nat (length l), dr_CreationDate = 10 * int (length l), dr_Msg = INil\<rparr>)"

definition sample_lines :: "string list" where
  "sample_lines = [''a'' @ [EOL], ''bb'' @ [EOL], ''ccc'' @ [EOL]]"

definition sample_msgs :: "unit deferred list" where
  "sample_msgs = map (\<lambda>n. \<lparr>dr_Id = of_nat n, dr_CreationDate = 10 * int n, dr_Msg = INil\<rparr>) [2, 3, 4]"

lemma sample_file:
  "decodes sample_um sample_lines sample_msgs" "list_all is_line sample_lines" "EOL \<notin> set ''x''"
  "sorted_wrt (\<lambda>a b. dr_Id a < dr_Id b) sample_msgs" "length (concat sample_lines) < 2 ^ 63"
  "length sample_msgs = 3"
  by (auto simp: decodes_def sample_um_def sample_lines_def sample_msgs_def is_line_def EOL_def)

lemma BuildIndex_then_lookup_witness:
  "\<exists>o1. GetOffsetAtMessageId
       (fst (BuildIndex sample_um (Some (concat sample_lines @ ''x'')) None)) 3 = Inr (3, int o1) \<and>
     drop o1 (concat sample_lines @ ''x'') = concat (drop 1 sample_lines) @ ''x''"
  using BuildIndex_then_lookup [OF sample_file(1-5), of 1 None] sample_file(6)
  by (cases "BuildIndex sample_um (Some (concat sample_lines @ ''x'')) None")
     (auto simp: sample_msgs_def)

text \<open>
  The lookup of a timestamp in a built index. When the timestamps of the file are sorted and
  some record is not before the requested instant, the lookup answers such a record, with the
  byte offset of its line; unless its timestamp is exactly the one asked for, it is the first
  such record.
\<close>

theorem BuildIndex_then_timestamp:
  assumes "decodes um ls ms" and "list_all is_line ls" and "EOL \<notin> set tail"
    and "sorted_wrt (\<lambda>a b. dr_CreationDate a \<le> dr_CreationDate b) ms"
    and "\<forall>m \<in> set ms. - (2 ^ 63) \<le> dr_CreationDate m \<and> dr_CreationDate m < 2 ^ 63"
    and "- (2 ^ 63) \<le> t \<and> t < 2 ^ 63"
    and "length (concat ls) < 2 ^ 63" and "k < length ms" and "t \<le> dr_CreationDate (ms ! k)"
    and "BuildIndex um (Some (concat ls @ tail)) old = (idx, res)"
  shows "\<exists>i < length ms. t \<le> dr_CreationDate (ms ! i) \<and>
     GetOffsetAtTimestamp idx t = Inr (dr_Id (ms ! i), int (length (concat (take i ls)))) \<and>
     (dr_CreationDate (ms ! i) \<noteq> t \<longrightarrow> i \<le> k)"
proof -
  let ?rs = "index_rows 0 ls ms"
  note idx = BuildIndex_file [OF assms(1,2,3,10)]
  have len: "length ls = length ms" using assms(1) by (rule decodes_length)
  have un: "UnixNano (dr_CreationDate m) = dr_CreationDate m" if "m \<in> set ms" for m
    using assms(5) that by (simp add: UnixNano_small)
  have row: "?rs ! i = make_row (ms ! i) (ls ! i) (of_nat (length (concat (take i ls))))"
    if "i < length ms" for i using index_rows_nth [of i ls ms 0] that len by simp
  have time: "row_time (?rs ! i) = dr_CreationDate (ms ! i)" if "i < length ms" for i
    using that un [of "ms ! i"] assms(5) row [OF that]
    by (simp add: row_time_def make_row_def signed_of_int signed_take_bit_int_eq_self)
  have ln: "length ?rs = length ms" using len by (simp add: length_index_rows)
  have inc: "row_times_increase ?rs"
    using assms(4) by (auto simp: row_times_increase_def sorted_wrt_iff_nth_less ln time)
  have "k < length ?rs" "t \<le> row_time (?rs ! k)" using assms(8,9) by (simp_all add: ln time)
  from searchTimestamp_found [OF inc this] obtain i where i: "i < length ms"
    "searchTimestamp (rows_file ?rs) t (length ms - 1) = Inr (?rs ! i)"
    "t \<le> dr_CreationDate (ms ! i)" "dr_CreationDate (ms ! i) \<noteq> t \<longrightarrow> i \<le> k"
    by (metis (no_types, lifting) ln time)
  have "getOffsetAt idx (Inr t) = Inr (Some (?rs ! i))"
    using i(1,2) assms(6) by (auto simp: getOffsetAt_def idx ln Let_def UnixNano_small)
  moreover have "length (concat (take i ls)) < 2 ^ 63"
    using length_concat_take [of i ls] assms(7) by linarith
  ultimately have "GetOffsetAtTimestamp idx t = Inr (dr_Id (ms ! i), int (length (concat (take i ls))))"
    using row [OF i(1)] sint_offset
    by (simp add: GetOffsetAtTimestamp_def row_result_def row_at_def make_row_def)
  with i show ?thesis by blast
qed

lemma BuildIndex_then_timestamp_witness:
  "\<exists>i < 3. GetOffsetAtTimestamp (fst (BuildIndex sample_um (Some (concat sample_lines @ ''x'')) None)) 25 =
     Inr (dr_Id (sample_msgs ! i), int (length (concat (take i sample_lines)))) \<and> i \<le> 1"
proof -
  obtain idx res where b: "BuildIndex sample_um (Some (concat sample_lines @ ''x'')) None = (idx, res)"
    by fastforce
  have s: "sorted_wrt (\<lambda>a b. dr_CreationDate a \<le> dr_CreationDate b) sample_msgs"
    "\<forall>m \<in> set sample_msgs. - (2 ^ 63) \<le> dr_CreationDate m \<and> dr_CreationDate m < 2 ^ 63"
    "- (2 ^ 63) \<le> (25::int) \<and> (25::int) < 2 ^ 63" "1 < length sample_msgs"
    "25 \<le> dr_CreationDate (sample_msgs ! 1)"
    by (simp_all add: sample_msgs_def)
  from BuildIndex_then_timestamp [OF sample_file(1-3) s(1-3) sample_file(5) s(4,5) b] sample_file(6) b
  show ?thesis
  proof (elim exE conjE)
    fix i assume i: "i < length sample_msgs"
      "GetOffsetAtTimestamp idx 25 = Inr (dr_Id (sample_msgs ! i), int (length (concat (take i sample_lines))))"
      "dr_CreationDate (sample_msgs ! i) \<noteq> 25 \<longrightarrow> i \<le> 1"
    have "\<forall>m \<in> set sample_msgs. dr_CreationDate m \<noteq> 25" by (simp add: sample_msgs_def)
    then have "dr_CreationDate (sample_msgs ! i) \<noteq> 25" using i(1) by simp
    with i b sample_file(6) show ?thesis by (intro exI [of _ i]) auto
  qed
qed

text \<open>
  Lookups in an empty index. \<^verbatim>\<open>getOffsetAt\<close> answers a nil row without an error, and the three
  exported lookups dereference it: an iterator positioned by id or by timestamp on a stream with
  an empty index panics instead of reporting that nothing was found.
\<close>

theorem empty_index_panics:
  "GetOffsetAtMessageId (Some []) x = Inl (Panic ''nil pointer dereference'') \<and>
   GetOffsetAfterMessageId (Some []) x = Inl (Panic ''nil pointer dereference'') \<and>
   GetOffsetAtTimestamp (Some []) t = Inl (Panic ''nil pointer dereference'')"
  by (simp add: GetOffsetAtMessageId_def GetOffsetAfterMessageId_def GetOffsetAtTimestamp_def
      row_result_def getOffsetAt_def getIndexRowsCount_def)

end
