(* ===== verification/FileWriter.thy ===== *)
theory FileWriter
  imports FileIndex
begin

text \<open>
  The writer of a stream stored in files (storageprovider/jsonfileprovider/streamwriter.go): one
  line of JSON per record in the data file, one binary row per record in the index file, and the
  description of the stream in the meta file.
\<close>

section \<open>Files and faults\<close>

text \<open>
  The three files of a stream (\<open>None\<close>: the file does not exist). A text file is a string, the
  index file a list of bytes. Appends through a handle reach the file.
\<close>

record stream_files =
  sf_data :: "string option"
  sf_index :: "bytes option"
  sf_meta :: "string option"

datatype writer_state =
  STREAM_WRITER_FILE_STATE_NONE | STREAM_WRITER_FILE_STATE_OPENED | STREAM_WRITER_FILE_STATE_CLOSED

record file_writer =
  fw_files :: stream_files
  fw_state :: writer_state

definition NewStreamWriterFile :: "stream_files \<Rightarrow> file_writer" where
  "NewStreamWriterFile files = \<lparr>fw_files = files, fw_state = STREAM_WRITER_FILE_STATE_NONE\<rparr>"

text \<open>
  What the operating system may do to one call: an error per operation, and for the writes the
  number of bytes that reached the file before the error. The write of the \<open>k\<close>-th record of a
  batch has its own entry.
\<close>

record file_faults =
  ff_mkdir :: "go_error option"
  ff_open_data :: "go_error option"
  ff_open_index :: "go_error option"
  ff_open_meta :: "go_error option"
  ff_close_data :: "go_error option"
  ff_close_index :: "go_error option"
  ff_write_data :: "nat \<Rightarrow> (nat \<times> go_error) option"
  ff_write_index :: "nat \<Rightarrow> (nat \<times> go_error) option"
  ff_write_meta :: "(nat \<times> go_error) option"

definition no_faults :: file_faults where
  "no_faults = \<lparr>ff_mkdir = None, ff_open_data = None, ff_open_index = None, ff_open_meta = None,
     ff_close_data = None, ff_close_index = None, ff_write_data = Map.empty,
     ff_write_index = Map.empty, ff_write_meta = None\<rparr>"

text \<open>Appending to a file, completely or up to a fault.\<close>

definition append_file :: "(nat \<times> go_error) option \<Rightarrow> 'a list \<Rightarrow> 'a list option \<Rightarrow> 'a list option \<times> go_error option" where
  "append_file fault xs file =
     (case fault of
        None \<Rightarrow> (map_option (\<lambda>f. f @ xs) file, None)
      | Some (n, e) \<Rightarrow> (map_option (\<lambda>f. f @ take n xs) file, Some e))"

definition no_such_file :: go_error where
  "no_such_file = Error ''no such file or directory''"

section \<open>SaveFileMetaInfo\<close>

text \<open>
  The meta file is opened with \<^verbatim>\<open>O_CREATE|O_WRONLY\<close>, without \<^verbatim>\<open>O_TRUNC\<close>: the new text overwrites
  the beginning of the old one. \<open>mji\<close> is \<^verbatim>\<open>json.Marshal\<close> of the description.
\<close>

definition overwrite :: "string \<Rightarrow> string \<Rightarrow> string" where
  "overwrite new old = new @ drop (length new) old"

definition SaveFileMetaInfo ::
    "('x stream_info \<Rightarrow> go_error + string) \<Rightarrow> file_faults \<Rightarrow> 'x stream_info \<Rightarrow> file_writer \<Rightarrow>
       file_writer \<times> go_error option" where
  "SaveFileMetaInfo mji flt info w =
     (case ff_open_meta flt of
        Some e \<Rightarrow> (w, Some e)
      | None \<Rightarrow>
          (let old = (case sf_meta (fw_files w) of None \<Rightarrow> [] | Some s \<Rightarrow> s);
               put = \<lambda>s. w\<lparr>fw_files := (fw_files w)\<lparr>sf_meta := Some s\<rparr>\<rparr>
           in case mji info of
                Inl e \<Rightarrow> (put old, Some e)
              | Inr strjson \<Rightarrow>
                  (case ff_write_meta flt of
                     None \<Rightarrow> (put (overwrite strjson old), None)
                   | Some (n, e) \<Rightarrow> (put (overwrite (take n strjson) old), Some e))))"

section \<open>Init, Open, Close\<close>

text \<open>
  \<^verbatim>\<open>Init\<close> creates the directory and the files that are missing. \<^verbatim>\<open>os.Stat\<close> of the meta file is
  taken to fail only when the file does not exist.
\<close>

definition fw_Init ::
    "('x stream_info \<Rightarrow> go_error + string) \<Rightarrow> file_faults \<Rightarrow> 'x stream_info \<Rightarrow> file_writer \<Rightarrow>
       file_writer \<times> go_error option" where
  "fw_Init mji flt info w =
     (case ff_mkdir flt of Some e \<Rightarrow> (w, Some e) | None \<Rightarrow>
     (case ff_open_data flt of Some e \<Rightarrow> (w, Some e) | None \<Rightarrow>
      (let w1 = w\<lparr>fw_files := (fw_files w)\<lparr>sf_data := Some (case sf_data (fw_files w) of None \<Rightarrow> [] | Some s \<Rightarrow> s)\<rparr>\<rparr> in
     (case ff_open_index flt of Some e \<Rightarrow> (w1, Some e) | None \<Rightarrow>
      (let w2 = w1\<lparr>fw_files := (fw_files w1)\<lparr>sf_index := Some (case sf_index (fw_files w1) of None \<Rightarrow> [] | Some s \<Rightarrow> s)\<rparr>\<rparr> in
       if sf_meta (fw_files w2) = None then SaveFileMetaInfo mji flt info w2 else (w2, None))))))"

definition fw_Open :: "file_faults \<Rightarrow> file_writer \<Rightarrow> file_writer \<times> go_error option" where
  "fw_Open flt w =
     (if fw_state w = STREAM_WRITER_FILE_STATE_OPENED
      then (w, Some (Error ''cannot open stream writer file because it's already opened''))
      else if sf_data (fw_files w) = None then (w, Some no_such_file)
      else case ff_open_data flt of Some e \<Rightarrow> (w, Some e) | None \<Rightarrow>
        if sf_index (fw_files w) = None then (w, Some no_such_file)
        else (case ff_open_index flt of Some e \<Rightarrow> (w, Some e) | None \<Rightarrow>
          (w\<lparr>fw_state := STREAM_WRITER_FILE_STATE_OPENED\<rparr>, None)))"

definition fw_Close :: "file_faults \<Rightarrow> file_writer \<Rightarrow> file_writer \<times> go_error option" where
  "fw_Close flt w =
     (if fw_state w \<noteq> STREAM_WRITER_FILE_STATE_OPENED
      then (w, Some (Error ''cannot close stream writer file because it's not opened''))
      else case ff_close_data flt of Some e \<Rightarrow> (w, Some e) | None \<Rightarrow>
        (case ff_close_index flt of Some e \<Rightarrow> (w, Some e) | None \<Rightarrow>
          (w\<lparr>fw_state := STREAM_WRITER_FILE_STATE_CLOSED\<rparr>, None)))"

section \<open>Write\<close>

text \<open>
  A row that the writer appends to the index (\<^verbatim>\<open>streamRowIndex\<close> of jsonfileprovider.go): the id,
  the length as an \<^verbatim>\<open>int32\<close>, the date in seconds; 20 bytes.
\<close>

definition online_row :: "'x deferred \<Rightarrow> string \<Rightarrow> bytes" where
  "online_row r line = le_bytes 8 (dr_Id r) @ le_bytes 4 (of_nat (length line) :: 32 word) @
     le_bytes 8 (word_of_int (Unix (dr_CreationDate r)) :: 64 word)"

lemma length_online_row [simp]: "length (online_row r line) = 20"
  by (simp add: online_row_def)

text \<open>
  The loop over the batch; \<open>mj\<close> is \<^verbatim>\<open>json.Marshal\<close> of a record and \<open>k\<close> counts the records. It stops
  at the first error, with the files and the counters as they are then.
\<close>

fun fw_write_records ::
    "('x deferred \<Rightarrow> go_error + string) \<Rightarrow> file_faults \<Rightarrow> nat \<Rightarrow> ('x, file_writer) write_op" where
  "fw_write_records mj flt k (i, w) [] = ((i, w), None)"
| "fw_write_records mj flt k (i, w) (r # rs) =
     (case mj r of
        Inl e \<Rightarrow> ((i, w), Some e)
      | Inr strjson \<Rightarrow>
          (let line = strjson @ [EOL] in
           case append_file (ff_write_data flt k) line (sf_data (fw_files w)) of
             (data, Some e) \<Rightarrow> ((i, w\<lparr>fw_files := (fw_files w)\<lparr>sf_data := data\<rparr>\<rparr>), Some e)
           | (data, None) \<Rightarrow>
               (let w1 = w\<lparr>fw_files := (fw_files w)\<lparr>sf_data := data\<rparr>\<rparr>;
                    i1 = count_readable (of_nat (length strjson + 1)) r i in
                case append_file (ff_write_index flt k) (online_row r line) (sf_index (fw_files w1)) of
                  (idx, Some e) \<Rightarrow> ((i1, w1\<lparr>fw_files := (fw_files w1)\<lparr>sf_index := idx\<rparr>\<rparr>), Some e)
                | (idx, None) \<Rightarrow>
                    fw_write_records mj flt (Suc k)
                      (i1, w1\<lparr>fw_files := (fw_files w1)\<lparr>sf_index := idx\<rparr>\<rparr>) rs)))"

definition fw_Write ::
    "('x deferred \<Rightarrow> go_error + string) \<Rightarrow> ('x stream_info \<Rightarrow> go_error + string) \<Rightarrow> file_faults \<Rightarrow>
       ('x, file_writer) write_op" where
  "fw_Write mj mji flt st records =
     (case st of (i, w) \<Rightarrow>
      if fw_state w \<noteq> STREAM_WRITER_FILE_STATE_OPENED
      then (st, Some (Error ''cannot write to stream writer file because it's not opened''))
      else if records = [] then (st, None)
      else case fw_write_records mj flt 0 (first_readable i records, w) records of
        ((i', w'), Some e) \<Rightarrow> ((i', w'), Some e)
      | ((i', w'), None) \<Rightarrow>
          (case SaveFileMetaInfo mji flt i' w' of (w'', err) \<Rightarrow> ((i', w''), err)))"

section \<open>What the data file holds\<close>

text \<open>One line per record; \<open>wsize\<close> is the length of the line.\<close>

definition json_line :: "('x deferred \<Rightarrow> go_error + string) \<Rightarrow> 'x deferred \<Rightarrow> string \<Rightarrow> bool" where
  "json_line mj r l \<longleftrightarrow> (\<exists>s. mj r = Inr s \<and> l = s @ [EOL])"

definition line_size :: "('x deferred \<Rightarrow> go_error + string) \<Rightarrow> 'x deferred \<Rightarrow> u64" where
  "line_size mj r = (case mj r of Inl e \<Rightarrow> 0 | Inr s \<Rightarrow> of_nat (length s + 1))"

definition fw_holds :: "('x deferred \<Rightarrow> go_error + string) \<Rightarrow> file_writer \<Rightarrow> 'x deferred list \<Rightarrow> bool" where
  "fw_holds mj w rs \<longleftrightarrow>
     (\<exists>ls. sf_data (fw_files w) = Some (concat ls) \<and> list_all2 (json_line mj) rs ls)"

lemma fw_holds_snoc:
  assumes "fw_holds mj w rs" and "mj r = Inr s"
    and "sf_data (fw_files w') = map_option (\<lambda>f. f @ s @ [EOL]) (sf_data (fw_files w))"
  shows "fw_holds mj w' (rs @ [r])"
proof -
  from assms(1) obtain ls where ls: "sf_data (fw_files w) = Some (concat ls)" "list_all2 (json_line mj) rs ls"
    by (auto simp: fw_holds_def)
  with assms(2,3) show ?thesis
    by (auto simp: fw_holds_def json_line_def intro!: exI [of _ "ls @ [s @ [EOL]]"] list_all2_appendI)
qed

text \<open>The loop without faults: it stores a prefix of the batch, counts it, and keeps the rest.\<close>

lemma no_faults_append [simp]:
  "append_file (ff_write_data no_faults k) xs f = (map_option (\<lambda>f. f @ xs) f, None)"
  "append_file (ff_write_index no_faults k) ys g = (map_option (\<lambda>f. f @ ys) g, None)"
  by (simp_all add: append_file_def no_faults_def)

lemma fw_write_records_frame:
  "fw_write_records mj flt j (i, w) rs = ((i', w'), err) \<Longrightarrow>
     si_UUID i' = si_UUID i \<and> IngestedMessages i' = IngestedMessages i \<and> si_Properties i' = si_Properties i \<and> fw_state w' = fw_state w"
proof (induction rs arbitrary: j i w)
  case Nil
  then show ?case by simp
next
  case (Cons r rs)
  then show ?case
    by (fastforce simp: Let_def split: sum.splits prod.splits option.splits dest: Cons.IH)
qed

lemma fw_write_records_law:
  "fw_write_records mj no_faults j (i, w) rs = ((i', w'), err) \<Longrightarrow> fw_holds mj w old \<Longrightarrow>
   (describes (line_size mj) (ReadableMessages i) old \<Longrightarrow> old = [] \<Longrightarrow> rs \<noteq> [] \<Longrightarrow>
      FirstMsgTimestamp (ReadableMessages i) = dr_CreationDate (hd rs)) \<Longrightarrow>
   (\<exists>k \<le> length rs. fw_holds mj w' (old @ take k rs) \<and> (err = None \<longrightarrow> k = length rs) \<and>
     (describes (line_size mj) (ReadableMessages i) old \<longrightarrow>
        describes (line_size mj) (ReadableMessages i') (old @ take k rs)))"
proof (induction rs arbitrary: j i w old)
  case Nil
  then show ?case by auto
next
  case (Cons r rs)
  show ?case
  proof (cases "mj r")
    case (Inl e)
    with Cons.prems show ?thesis by (intro exI [of _ 0]) auto
  next
    case (Inr s)
    let ?line = "s @ [EOL]"
    let ?w1 = "w\<lparr>fw_files := (fw_files w)\<lparr>sf_data := map_option (\<lambda>f. f @ ?line) (sf_data (fw_files w)),
       sf_index := map_option (\<lambda>f. f @ online_row r ?line) (sf_index (fw_files w))\<rparr>\<rparr>"
    let ?i1 = "count_readable (line_size mj r) r i"
    from Cons.prems(1) Inr have rest: "fw_write_records mj no_faults (Suc j) (?i1, ?w1) rs = ((i', w'), err)"
      by (simp add: Let_def line_size_def)
    have held: "fw_holds mj ?w1 (old @ [r])" by (rule fw_holds_snoc [OF Cons.prems(2) Inr]) simp
    have d: "describes (line_size mj) (ReadableMessages ?i1) (old @ [r])"
      if "describes (line_size mj) (ReadableMessages i) old"
      using describes_count [OF that, of r] Cons.prems(3) [OF that] by simp
    from Cons.IH [OF rest held] obtain k where
      k: "k \<le> length rs" "fw_holds mj w' ((old @ [r]) @ take k rs)" "err = None \<longrightarrow> k = length rs"
      "describes (line_size mj) (ReadableMessages ?i1) (old @ [r]) \<longrightarrow>
         describes (line_size mj) (ReadableMessages i') ((old @ [r]) @ take k rs)" by auto
    show ?thesis
      using k d by (intro exI [of _ "Suc k"]) auto
  qed
qed

lemma SaveFileMetaInfo_data:
  "SaveFileMetaInfo mji flt i w = (w', err) \<Longrightarrow> sf_data (fw_files w') = sf_data (fw_files w) \<and>
     sf_index (fw_files w') = sf_index (fw_files w) \<and> fw_state w' = fw_state w"
  by (auto simp: SaveFileMetaInfo_def Let_def split: option.splits sum.splits)

lemma fw_holds_data: "sf_data (fw_files w') = sf_data (fw_files w) \<Longrightarrow> fw_holds mj w' rs = fw_holds mj w rs"
  by (simp add: fw_holds_def)

text \<open>The file writer without faults, and with a marshaller that may refuse a record, keeps the
  contract of writers.\<close>

interpretation fw_writer: closable_writer "fw_Write mj mji no_faults" "fw_holds mj" "line_size mj" "fw_Close flt"
  for mj :: "'x deferred \<Rightarrow> go_error + string" and mji :: "'x stream_info \<Rightarrow> go_error + string" and flt
proof unfold_locales
  fix w w' :: file_writer and i i' :: "'x stream_info" and old rs err
  assume h: "fw_holds mj w old" and wr: "fw_Write mj mji no_faults (i, w) rs = ((i', w'), err)"
  show "\<exists>k\<le>length rs. fw_holds mj w' (old @ take k rs) \<and> (err = None \<longrightarrow> k = length rs) \<and>
      (length (old @ take k rs) < 2 ^ 64 \<longrightarrow>
        describes (line_size mj) (ReadableMessages i) old \<longrightarrow>
        describes (line_size mj) (ReadableMessages i') (old @ take k rs))"
  proof (cases "fw_state w = STREAM_WRITER_FILE_STATE_OPENED \<and> rs \<noteq> []")
    case False
    with wr h show ?thesis by (intro exI [of _ 0]) (auto simp: fw_Write_def split: if_splits)
  next
    case True
    obtain i1 w1 e where l: "fw_write_records mj no_faults 0 (first_readable i rs, w) rs = ((i1, w1), e)"
      by (metis surj_pair)
    have w': "i' = i1" "fw_holds mj w' xs = fw_holds mj w1 xs" "err = None \<Longrightarrow> e = None" for xs
      using wr l True SaveFileMetaInfo_data [of mji no_faults i1 w1] fw_holds_data [of w' w1 mj]
      by (auto simp: fw_Write_def split: option.splits prod.splits)
    have first: "FirstMsgTimestamp (ReadableMessages (first_readable i rs)) = dr_CreationDate (hd rs)"
      if "describes (line_size mj) (ReadableMessages (first_readable i rs)) old" "old = []"
      using that True by (auto simp: describes_def first_readable_def split: if_splits)
    from fw_write_records_law [OF l h first] obtain k where
      k: "k \<le> length rs" "fw_holds mj w1 (old @ take k rs)" "e = None \<longrightarrow> k = length rs"
      "describes (line_size mj) (ReadableMessages (first_readable i rs)) old \<longrightarrow>
         describes (line_size mj) (ReadableMessages i1) (old @ take k rs)" by blast
    have "describes (line_size mj) (ReadableMessages (first_readable i rs)) old"
      if "length (old @ take k rs) < 2 ^ 64" "describes (line_size mj) (ReadableMessages i) old"
      using describes_first [OF that(2)] that(1) by simp
    with k w' show ?thesis by (intro exI [of _ k]) auto
  qed
next
  fix w w' :: file_writer and i i' :: "'x stream_info" and rs err
  assume wr: "fw_Write mj mji no_faults (i, w) rs = ((i', w'), err)"
  obtain i1 w1 e where l: "fw_write_records mj no_faults 0 (first_readable i rs, w) rs = ((i1, w1), e)"
    by (metis surj_pair)
  from fw_write_records_frame [OF l] have "si_UUID i1 = si_UUID i \<and> IngestedMessages i1 = IngestedMessages i \<and> si_Properties i1 = si_Properties i"
    by simp
  then show "si_UUID i' = si_UUID i \<and> IngestedMessages i' = IngestedMessages i \<and> si_Properties i' = si_Properties i"
    using wr l by (auto simp: fw_Write_def split: option.splits prod.splits if_splits)
next
  show "fw_Close flt w = (w', err) \<Longrightarrow> fw_holds mj w rs \<Longrightarrow> fw_holds mj w' rs" for w w' err rs
    by (auto simp: fw_Close_def fw_holds_def split: option.splits if_splits)
qed

section \<open>Properties\<close>

lemma fw_write_records_index:
  "fw_write_records mj no_faults j (i, w) rs = ((i', w'), None) \<Longrightarrow> sf_index (fw_files w) = Some idx \<Longrightarrow>
     \<exists>rows. sf_index (fw_files w') = Some (idx @ rows) \<and> length rows = 20 * length rs"
proof (induction rs arbitrary: j i w idx)
  case Nil
  then show ?case by simp
next
  case (Cons r rs)
  then obtain s where s: "mj r = Inr s" by (cases "mj r") auto
  let ?w1 = "w\<lparr>fw_files := (fw_files w)\<lparr>sf_data := map_option (\<lambda>f. f @ s @ [EOL]) (sf_data (fw_files w)),
     sf_index := Some (idx @ online_row r (s @ [EOL]))\<rparr>\<rparr>"
  have "fw_write_records mj no_faults (Suc j) (count_readable (of_nat (length s + 1)) r i, ?w1) rs = ((i', w'), None)"
    using Cons.prems s by (simp add: Let_def)
  from Cons.IH [OF this] obtain rows where
    "sf_index (fw_files w') = Some ((idx @ online_row r (s @ [EOL])) @ rows)" "length rows = 20 * length rs"
    by fastforce
  then show ?case by (intro exI [of _ "online_row r (s @ [EOL]) @ rows"]) simp
qed

text \<open>
  The index that the writer keeps up to date cannot be used by the reader. The writer appends
  rows of 20 bytes, the lookups read rows of 32 bytes: after writing \<open>n\<close> records to a new stream
  the reader counts fewer than \<open>n\<close> rows, and with a single record it counts none, so a lookup by
  id panics. Only a rebuilt index is usable.
\<close>

theorem online_index_unreadable:
  assumes "fw_Write mj mji no_faults (i, w) rs = ((i', w'), None)"
    and "fw_state w = STREAM_WRITER_FILE_STATE_OPENED" and "sf_index (fw_files w) = Some []" and "rs \<noteq> []"
  shows "\<exists>idx. sf_index (fw_files w') = Some idx \<and> length idx = 20 * length rs \<and>
     getIndexRowsCount idx < length rs \<and>
     (length rs = 1 \<longrightarrow> GetOffsetAtMessageId (Some idx) x = Inl (Panic ''nil pointer dereference''))"
proof -
  obtain i1 w1 e where l: "fw_write_records mj no_faults 0 (first_readable i rs, w) rs = ((i1, w1), e)"
    by (metis surj_pair)
  with assms have "e = None" and s: "SaveFileMetaInfo mji no_faults i1 w1 = (w', None)"
    by (auto simp: fw_Write_def split: option.splits prod.splits)
  from fw_write_records_index [OF l [unfolded this(1)] assms(3)] SaveFileMetaInfo_data [OF s]
  obtain idx where idx: "sf_index (fw_files w') = Some idx" "length idx = 20 * length rs" by auto
  then have c: "getIndexRowsCount idx < length rs"
    using assms(4) by (simp add: getIndexRowsCount_def sizeOfStreamIndexRowMsg_def less_mult_imp_div_less)
  then have "length rs = 1 \<Longrightarrow> getIndexRowsCount idx = 0" by simp
  with idx c show ?thesis
    by (simp add: GetOffsetAtMessageId_def row_result_def getOffsetAt_def)
qed

definition empty_writer :: file_writer where
  "empty_writer = \<lparr>fw_files = \<lparr>sf_data = Some [], sf_index = Some [], sf_meta = Some []\<rparr>,
     fw_state = STREAM_WRITER_FILE_STATE_OPENED\<rparr>"

lemma online_index_unreadable_witness:
  "\<exists>i' w' idx. fw_Write (\<lambda>_. Inr ''r'') (\<lambda>_. Inr ''i'') no_faults (NewStreamInfo 0 7, empty_writer)
       ([\<lparr>dr_Id = 1, dr_CreationDate = 0, dr_Msg = INil\<rparr>] :: unit deferred list) = ((i', w'), None) \<and>
     sf_index (fw_files w') = Some idx \<and> getIndexRowsCount idx < 1"
proof -
  let ?rs = "[\<lparr>dr_Id = 1, dr_CreationDate = 0, dr_Msg = INil\<rparr>] :: unit deferred list"
  have "snd (fw_Write (\<lambda>_. Inr ''r'') (\<lambda>_. Inr ''i'') no_faults (NewStreamInfo 0 7, empty_writer) ?rs) = None"
    by (simp add: fw_Write_def empty_writer_def Let_def SaveFileMetaInfo_def no_faults_def append_file_def)
  then obtain i' w' where w: "fw_Write (\<lambda>_. Inr ''r'') (\<lambda>_. Inr ''i'') no_faults (NewStreamInfo 0 7, empty_writer) ?rs
      = ((i', w'), None)" by (metis prod.collapse)
  from online_index_unreadable [OF w _ _, of 0] obtain idx where
    "sf_index (fw_files w') = Some idx" "getIndexRowsCount idx < 1" by (auto simp: empty_writer_def)
  with w show ?thesis by blast
qed

text \<open>
  The meta file is not truncated when it is rewritten: whatever it held, afterwards it begins with
  the text that was saved, and a longer old text shows behind it.
\<close>

lemma SaveFileMetaInfo_text:
  "mji info = Inr s \<Longrightarrow> SaveFileMetaInfo mji no_faults info w = (w', err) \<Longrightarrow>
     err = None \<and> (\<exists>junk. sf_meta (fw_files w') = Some (s @ junk))"
  by (auto simp: SaveFileMetaInfo_def no_faults_def overwrite_def Let_def)

end
