(* ===== verification/InMemory.thy ===== *)
theory InMemory
  imports Interfaces Dichotomy
begin

text \<open>
  The in-memory storage of one stream (storageprovider/inmemoryprovider: inmemorystream.go,
  streamwriter.go, streamiteratorhandlerinmemory.go): the slice of records with its limit, the
  searches by message id and by timestamp, the writer that the ingest loop calls, and the
  handler behind a record iterator.
\<close>

section \<open>The stream of records (inmemorystream.go)\<close>

record 'x in_memory_record =
  im_Id :: u64
  im_CreationDate :: time
  im_Msg :: "'x iface"

text \<open>
  The back pointer \<^verbatim>\<open>info\<close> of the Go struct is never read by its methods and is left out.
  The mutex makes each method one atomic step.
\<close>

record 'x in_memory_stream =
  ims_streamUUID :: uuid
  ims_records :: "'x in_memory_record list"
  ims_maxRecordsByStream :: u64
  ims_maxSizeInBytes :: u64

definition NewInMemoryStream :: "uuid \<Rightarrow> u64 \<Rightarrow> u64 \<Rightarrow> 'x in_memory_stream" where
  "NewInMemoryStream u maxRecords maxSize =
     \<lparr>ims_streamUUID = u, ims_records = [], ims_maxRecordsByStream = maxRecords,
      ims_maxSizeInBytes = maxSize\<rparr>"

definition AddRecord :: "'x in_memory_stream \<Rightarrow> 'x deferred \<Rightarrow> go_error + 'x in_memory_stream" where
  "AddRecord s r =
     (if ims_maxRecordsByStream s > 0 \<and> of_nat (length (ims_records s)) \<ge> ims_maxRecordsByStream s
      then Inl (Error ''cannot add more record into the stream'')
      else Inr (s\<lparr>ims_records := ims_records s @
             [\<lparr>im_Id = dr_Id r, im_CreationDate = dr_CreationDate r, im_Msg = dr_Msg r\<rparr>]\<rparr>))"

definition GetRecordsCount :: "'x in_memory_stream \<Rightarrow> u64" where
  "GetRecordsCount s = of_nat (length (ims_records s))"

text \<open>
  \<^verbatim>\<open>index+1\<close> wraps around at \<open>2 ^ 64\<close>; the record is nil when none is found, and the last
  flag tells whether more records follow.
\<close>

definition GetRecordAtIndex ::
    "'x in_memory_stream \<Rightarrow> u64 \<Rightarrow> go_error + 'x in_memory_record option \<times> bool \<times> bool" where
  "GetRecordAtIndex s index =
     (let cptRecords = of_nat (length (ims_records s)) in
      if index + 1 = cptRecords then
        (case slice_get (ims_records s) (unat index) of
           Inl e \<Rightarrow> Inl e | Inr r \<Rightarrow> Inr (Some r, True, False))
      else if index < cptRecords then
        (case slice_get (ims_records s) (unat index) of
           Inl e \<Rightarrow> Inl e | Inr r \<Rightarrow> Inr (Some r, True, True))
      else Inr (None, False, False))"

subsection \<open>Searches\<close>

definition no_match :: go_error where
  "no_match = Error ''no matching record not found''"

definition searchRecordIndexByRecordId ::
    "'x in_memory_record list \<Rightarrow> u64 \<Rightarrow> nat \<Rightarrow> go_error + u64" where
  "searchRecordIndexByRecordId records messageId lastIndexRank =
     (if records = [] then Inl no_match
      else case dichotomy (slice_get records) im_Id messageId 0 lastIndexRank 0 of
        Inl e \<Rightarrow> Inl e
      | Inr (Hit m r) \<Rightarrow> Inr (of_nat m)
      | Inr (Miss low med) \<Rightarrow>
          (case slice_get records med of
             Inl e \<Rightarrow> Inl e
           | Inr r \<Rightarrow> if im_Id r = messageId then Inr (of_nat med) else Inl no_match))"

definition searchRecordIndexAtOrAfterTimestamp ::
    "'x in_memory_record list \<Rightarrow> int \<Rightarrow> nat \<Rightarrow> go_error + u64" where
  "searchRecordIndexAtOrAfterTimestamp records timestampUnixNano lastIndexRank =
     (if records = [] then Inl no_match
      else case dichotomy (slice_get records) (\<lambda>r. UnixNano (im_CreationDate r))
                  timestampUnixNano 0 lastIndexRank 0 of
        Inl e \<Rightarrow> Inl e
      | Inr (Hit m r) \<Rightarrow> Inr (of_nat m)
      | Inr (Miss low med) \<Rightarrow>
          (case slice_get records med of
             Inl e \<Rightarrow> Inl e
           | Inr r \<Rightarrow> if UnixNano (im_CreationDate r) \<ge> timestampUnixNano
                      then Inr (of_nat med) else Inl no_match))"

definition GetIndexAtMessageId :: "'x in_memory_stream \<Rightarrow> u64 \<Rightarrow> go_error + u64" where
  "GetIndexAtMessageId s messageId =
     (let cptRecords = length (ims_records s) in
      if cptRecords = 0 then Inl no_match
      else searchRecordIndexByRecordId (ims_records s) messageId (cptRecords - 1))"

definition GetIndexAfterMessageId :: "'x in_memory_stream \<Rightarrow> u64 \<Rightarrow> go_error + u64" where
  "GetIndexAfterMessageId s messageId =
     (let cptRecords = length (ims_records s) in
      if cptRecords = 0 then Inl no_match
      else case searchRecordIndexByRecordId (ims_records s) messageId (cptRecords - 1) of
        Inl e \<Rightarrow> Inl e
      | Inr recordIndex \<Rightarrow> Inr (recordIndex + 1))"

definition GetIndexAtTimestamp :: "'x in_memory_stream \<Rightarrow> time \<Rightarrow> go_error + u64" where
  "GetIndexAtTimestamp s timestamp =
     (let cptRecords = length (ims_records s) in
      if cptRecords = 0 then Inl no_match
      else searchRecordIndexAtOrAfterTimestamp (ims_records s) (UnixNano timestamp) (cptRecords - 1))"

section \<open>The writer (streamwriter.go)\<close>

text \<open>
  \<open>sz m\<close> is \<^verbatim>\<open>uint64(len(fmt.Sprintf("%v", m)))\<close>, the length of the printed message.
  The loop stops at the first record that the stream refuses; the records before it stay
  stored and counted.
\<close>

fun im_write_records ::
    "('x iface \<Rightarrow> u64) \<Rightarrow> ('x, 'x in_memory_stream) write_op" where
  "im_write_records sz (i, s) [] = ((i, s), None)"
| "im_write_records sz (i, s) (r # rs) =
     (case AddRecord s r of
        Inl e \<Rightarrow> ((i, s), Some e)
      | Inr s' \<Rightarrow> im_write_records sz (count_readable (sz (dr_Msg r)) r i, s') rs)"

definition InMemory_Write ::
    "('x iface \<Rightarrow> u64) \<Rightarrow> ('x, 'x in_memory_stream) write_op" where
  "InMemory_Write sz st records =
     (if records = [] then (st, None)
      else im_write_records sz (first_readable (fst st) records, snd st) records)"

text \<open>
  \<^verbatim>\<open>Init\<close> only logs; \<^verbatim>\<open>Open\<close> and \<^verbatim>\<open>Close\<close> do nothing.
\<close>

definition InMemory_Init :: "'x in_memory_stream \<Rightarrow> 'x in_memory_stream \<times> go_error option" where
  "InMemory_Init s = (s, None)"

definition InMemory_Open :: "'x in_memory_stream \<Rightarrow> 'x in_memory_stream \<times> go_error option" where
  "InMemory_Open s = (s, None)"

definition InMemory_Close :: "'x in_memory_stream \<Rightarrow> 'x in_memory_stream \<times> go_error option" where
  "InMemory_Close s = (s, None)"

section \<open>The iterator handler (streamiteratorhandlerinmemory.go)\<close>

record im_handler =
  imh_streamUUID :: uuid
  imh_itUUID :: uuid
  imh_initialized :: bool
  imh_nextReadRecordIndex :: u64

definition NewStreamIteratorHandlerInMemory :: "uuid \<Rightarrow> uuid \<Rightarrow> im_handler" where
  "NewStreamIteratorHandlerInMemory u itu =
     \<lparr>imh_streamUUID = u, imh_itUUID = itu, imh_initialized = False, imh_nextReadRecordIndex = 0\<rparr>"

definition im_Open :: "im_handler \<Rightarrow> im_handler \<times> go_error option" where
  "im_Open h = (h\<lparr>imh_nextReadRecordIndex := 0\<rparr>, None)"

text \<open>\<^verbatim>\<open>Close\<close> and \<^verbatim>\<open>SaveSeek\<close> do nothing.\<close>

definition im_Close :: "im_handler \<Rightarrow> im_handler \<times> go_error option" where
  "im_Close h = (h, None)"

definition im_SaveSeek :: "im_handler \<Rightarrow> im_handler \<times> go_error option" where
  "im_SaveSeek h = (h, None)"

text \<open>The rank a request designates; the searches return rank 0 beside an error.\<close>

definition im_target :: "'x in_memory_stream \<Rightarrow> iterator_request \<Rightarrow> u64 \<times> go_error option" where
  "im_target s rq =
     (let cptRecords = GetRecordsCount s;
          found = case_sum (\<lambda>e. (0, Some e)) (\<lambda>i. (i, None))
      in
      if rq_IteratorType rq = ''FIRST_MESSAGE'' then (0, None)
      else if rq_IteratorType rq = ''LAST_MESSAGE'' then (cptRecords, None)
      else if rq_IteratorType rq = ''AFTER_LAST_MESSAGE'' then (cptRecords + 1, None)
      else if rq_IteratorType rq = ''AT_MESSAGE_ID'' then
        found (GetIndexAtMessageId s (rq_MessageId rq))
      else if rq_IteratorType rq = ''AFTER_MESSAGE_ID'' then
        found (GetIndexAfterMessageId s (rq_MessageId rq))
      else if rq_IteratorType rq = ''AT_TIMESTAMP'' then
        found (GetIndexAtTimestamp s (rq_Timestamp rq))
      else (0, Some (Error ''invalid iterator type'')))"

text \<open>The request pointer is nil once the iterator is closed; reading it then panics.\<close>

definition im_Seek ::
    "'x in_memory_stream \<Rightarrow> iterator_request option \<Rightarrow> im_handler \<Rightarrow> im_handler \<times> go_error option"
where
  "im_Seek s request h =
     (if imh_initialized h then (h, None)
      else case request of
        None \<Rightarrow> (h, Some (Panic ''nil pointer dereference''))
      | Some rq \<Rightarrow>
          (case im_target s rq of (idx, err) \<Rightarrow>
             (h\<lparr>imh_nextReadRecordIndex := idx,
                imh_initialized := (err = None)\<rparr>, err)))"

definition im_GetNextRecord ::
    "'x in_memory_stream \<times> im_handler \<Rightarrow>
       go_error + ('x in_memory_stream \<times> im_handler) \<times> 'x in_memory_record next_result" where
  "im_GetNextRecord sh =
     (case sh of (s, h) \<Rightarrow>
      (let recordIndex = imh_nextReadRecordIndex h in
       case GetRecordAtIndex s recordIndex of
         Inl e \<Rightarrow> Inl e
       | Inr (record, foundRecord, mayContinue) \<Rightarrow>
           Inr ((s, if foundRecord then h\<lparr>imh_nextReadRecordIndex := recordIndex + 1\<rparr> else h),
                recordIndex, (case record of None \<Rightarrow> INil | Some r \<Rightarrow> IOther r),
                foundRecord, mayContinue, None)))"

section \<open>The writer keeps the records in order and counts them\<close>

definition im_stored :: "'x in_memory_stream \<Rightarrow> 'x deferred list" where
  "im_stored s = map (\<lambda>r. \<lparr>dr_Id = im_Id r, dr_CreationDate = im_CreationDate r, dr_Msg = im_Msg r\<rparr>)
     (ims_records s)"

lemma im_stored_length [simp]: "length (im_stored s) = length (ims_records s)"
  by (simp add: im_stored_def)

lemma im_stored_AddRecord: "AddRecord s r = Inr s' \<Longrightarrow> im_stored s' = im_stored s @ [r]"
  by (auto simp: AddRecord_def im_stored_def split: if_splits)

lemma AddRecord_keeps:
  "AddRecord s r = Inr s' \<Longrightarrow> ims_maxRecordsByStream s' = ims_maxRecordsByStream s \<and>
     ims_streamUUID s' = ims_streamUUID s"
  by (auto simp: AddRecord_def split: if_splits)

lemma im_write_records_prefix:
  "im_write_records sz (i, s) rs = ((i', s'), err) \<Longrightarrow>
     \<exists>k \<le> length rs. im_stored s' = im_stored s @ take k rs \<and> (err = None \<longrightarrow> k = length rs)"
proof (induction rs arbitrary: i s)
  case Nil
  then show ?case by simp
next
  case (Cons r rs)
  show ?case
  proof (cases "AddRecord s r")
    case (Inl e)
    with Cons.prems show ?thesis by (intro exI [of _ 0]) auto
  next
    case (Inr s1)
    with Cons.prems
    have "im_write_records sz (count_readable (sz (dr_Msg r)) r i, s1) rs = ((i', s'), err)" by simp
    from Cons.IH [OF this] obtain k where "k \<le> length rs"
      "im_stored s' = im_stored s1 @ take k rs" "err = None \<longrightarrow> k = length rs" by blast
    with im_stored_AddRecord [OF Inr] show ?thesis by (intro exI [of _ "Suc k"]) auto
  qed
qed

lemma im_write_records_frame:
  "im_write_records sz (i, s) rs = ((i', s'), err) \<Longrightarrow>
     si_UUID i' = si_UUID i \<and> IngestedMessages i' = IngestedMessages i \<and> si_Properties i' = si_Properties i"
proof (induction rs arbitrary: i s)
  case Nil
  then show ?case by simp
next
  case (Cons r rs)
  then show ?case by (cases "AddRecord s r") (fastforce dest: Cons.IH)+
qed

lemma im_write_records_counts:
  assumes "im_write_records sz (i, s) rs = ((i', s'), err)"
    and "describes (\<lambda>r. sz (dr_Msg r)) (ReadableMessages i) (im_stored s)"
    and "im_stored s = [] \<Longrightarrow> rs \<noteq> [] \<Longrightarrow> FirstMsgTimestamp (ReadableMessages i) = dr_CreationDate (hd rs)"
  shows "describes (\<lambda>r. sz (dr_Msg r)) (ReadableMessages i') (im_stored s')"
  using assms
proof (induction rs arbitrary: i s)
  case Nil
  then show ?case by simp
next
  case (Cons r rs)
  show ?case
  proof (cases "AddRecord s r")
    case (Inl e)
    with Cons.prems show ?thesis by simp
  next
    case (Inr s1)
    note st = im_stored_AddRecord [OF Inr]
    from Cons.prems(1) Inr
    have w: "im_write_records sz (count_readable (sz (dr_Msg r)) r i, s1) rs = ((i', s'), err)" by simp
    from describes_count [of "\<lambda>r. sz (dr_Msg r)" i "im_stored s" r] Cons.prems(2,3)
    have d: "describes (\<lambda>r. sz (dr_Msg r))
               (ReadableMessages (count_readable (sz (dr_Msg r)) r i)) (im_stored s1)"
      by (simp add: st)
    show ?thesis by (rule Cons.IH [OF w d]) (simp add: st)
  qed
qed

text \<open>
  What the stream holds, and the contract of the writer over it. The size a record adds is the
  length of its printed message.
\<close>

definition im_holds :: "'x in_memory_stream \<Rightarrow> 'x deferred list \<Rightarrow> bool" where
  "im_holds s rs \<longleftrightarrow> im_stored s = rs"

interpretation im_writer: record_writer "InMemory_Write sz" im_holds "\<lambda>r. sz (dr_Msg r)"
  for sz :: "'x iface \<Rightarrow> u64"
proof unfold_locales
  fix s s' :: "'x in_memory_stream" and i i' :: "'x stream_info" and old rs err
  assume h: "im_holds s old" and w: "InMemory_Write sz (i, s) rs = ((i', s'), err)"
  show "\<exists>k\<le>length rs. im_holds s' (old @ take k rs) \<and> (err = None \<longrightarrow> k = length rs) \<and>
      (length (old @ take k rs) < 2 ^ 64 \<longrightarrow>
        describes (\<lambda>r. sz (dr_Msg r)) (ReadableMessages i) old \<longrightarrow>
        describes (\<lambda>r. sz (dr_Msg r)) (ReadableMessages i') (old @ take k rs))"
  proof (cases "rs = []")
    case True
    with w h show ?thesis by (auto simp: InMemory_Write_def)
  next
    case False
    with w have w': "im_write_records sz (first_readable i rs, s) rs = ((i', s'), err)"
      by (simp add: InMemory_Write_def)
    from im_write_records_prefix [OF w'] h obtain k
      where k: "k \<le> length rs" "im_stored s' = old @ take k rs" "err = None \<longrightarrow> k = length rs"
      by (auto simp: im_holds_def)
    have "describes (\<lambda>r. sz (dr_Msg r)) (ReadableMessages i') (old @ take k rs)"
      if small: "length (old @ take k rs) < 2 ^ 64"
        and d: "describes (\<lambda>r. sz (dr_Msg r)) (ReadableMessages i) old"
    proof -
      from small have "length old < 2 ^ 64" by simp
      from describes_first [OF d this, of rs] h
      have d': "describes (\<lambda>r. sz (dr_Msg r)) (ReadableMessages (first_readable i rs)) (im_stored s)"
        by (simp add: im_holds_def)
      have "CptMessages (ReadableMessages i) = 0" if "old = []"
        using d that by (simp add: describes_def)
      with False h have "im_stored s = [] \<Longrightarrow>
          FirstMsgTimestamp (ReadableMessages (first_readable i rs)) = dr_CreationDate (hd rs)"
        by (simp add: first_readable_def im_holds_def)
      from im_write_records_counts [OF w' d' this] k(2) show ?thesis by simp
    qed
    with k show ?thesis by (auto simp: im_holds_def)
  qed
next
  fix s s' :: "'x in_memory_stream" and i i' :: "'x stream_info" and rs err
  assume w: "InMemory_Write sz (i, s) rs = ((i', s'), err)"
  then show "si_UUID i' = si_UUID i \<and> IngestedMessages i' = IngestedMessages i \<and> si_Properties i' = si_Properties i"
    using im_write_records_frame [of sz "first_readable i rs" s rs i' s' err]
    by (auto simp: InMemory_Write_def split: if_splits)
qed

interpretation im_closable: closable_writer "InMemory_Write sz" im_holds "\<lambda>r. sz (dr_Msg r)" InMemory_Close
  for sz :: "'x iface \<Rightarrow> u64"
  by unfold_locales (simp add: InMemory_Close_def)

section \<open>Searches\<close>

text \<open>
  A Go slice has fewer than \<open>2 ^ 63\<close> elements; \<open>slice_ok\<close> says so. Whatever the rows are,
  a search by id that answers gives a record with that id.
\<close>

definition slice_ok :: "'a list \<Rightarrow> bool" where
  "slice_ok xs \<longleftrightarrow> length xs < 2 ^ 63"

lemma slice_ok_unat [simp]: "slice_ok xs \<Longrightarrow> i < length xs \<Longrightarrow> unat (of_nat i :: u64) = i"
  by (simp add: slice_ok_def unat_of_nat_small)

lemma slice_get_Inr: "slice_get xs i = Inr x \<longleftrightarrow> i < length xs \<and> xs ! i = x"
  by (auto simp: slice_get_def)

lemma searchId_sound:
  assumes "searchRecordIndexByRecordId rs x lst = Inr i" and "slice_ok rs"
  shows "unat i < length rs \<and> im_Id (rs ! unat i) = x"
proof -
  from assms(1) have ne: "rs \<noteq> []" by (auto simp: searchRecordIndexByRecordId_def)
  then obtain res where d: "dichotomy (slice_get rs) im_Id x 0 lst 0 = Inr res"
    using assms(1) by (auto simp: searchRecordIndexByRecordId_def split: sum.splits)
  show ?thesis
  proof (cases res)
    case (Hit m r)
    from dichotomy_Hit [OF d [unfolded Hit]] assms(2)
    show ?thesis using assms(1) ne d Hit
      by (auto simp: searchRecordIndexByRecordId_def slice_get_Inr)
  next
    case (Miss low med)
    with assms ne d show ?thesis
      by (auto simp: searchRecordIndexByRecordId_def slice_get_Inr split: sum.splits if_splits)
  qed
qed

lemma searchTime_sound:
  assumes "searchRecordIndexAtOrAfterTimestamp rs x lst = Inr i" and "slice_ok rs"
  shows "unat i < length rs \<and> x \<le> UnixNano (im_CreationDate (rs ! unat i))"
proof -
  let ?key = "\<lambda>r. UnixNano (im_CreationDate r)"
  from assms(1) have ne: "rs \<noteq> []" by (auto simp: searchRecordIndexAtOrAfterTimestamp_def)
  then obtain res where d: "dichotomy (slice_get rs) ?key x 0 lst 0 = Inr res"
    using assms(1) by (auto simp: searchRecordIndexAtOrAfterTimestamp_def split: sum.splits)
  show ?thesis
  proof (cases res)
    case (Hit m r)
    from dichotomy_Hit [OF d [unfolded Hit]] assms(2)
    show ?thesis using assms(1) ne d Hit
      by (auto simp: searchRecordIndexAtOrAfterTimestamp_def slice_get_Inr)
  next
    case (Miss low med)
    with assms ne d show ?thesis
      by (auto simp: searchRecordIndexAtOrAfterTimestamp_def slice_get_Inr split: sum.splits if_splits)
  qed
qed

text \<open>
  The code assumes that ids increase with the rank (its comment says so) and the ingest loop
  guarantees it. On such a table the search is one of \<open>sorted_rows\<close>, the interface of the
  dichotomy; timestamps are sorted as well, without being distinct.
\<close>

definition ids_increase :: "'x in_memory_record list \<Rightarrow> bool" where
  "ids_increase rs \<longleftrightarrow> sorted_wrt (\<lambda>a b. im_Id a < im_Id b) rs"

definition times_increase :: "'x in_memory_record list \<Rightarrow> bool" where
  "times_increase rs \<longleftrightarrow>
     sorted_wrt (\<lambda>a b. UnixNano (im_CreationDate a) \<le> UnixNano (im_CreationDate b)) rs"

interpretation id_rows: sorted_rows "\<lambda>rs. rs" im_Id slice_get ids_increase
  by unfold_locales (auto simp: ids_increase_def sorted_wrt_iff_nth_less intro: less_imp_le)

interpretation time_rows: sorted_rows "\<lambda>rs. rs" "\<lambda>r. UnixNano (im_CreationDate r)" slice_get times_increase
  by unfold_locales (auto simp: times_increase_def sorted_wrt_iff_nth_less)

lemma ids_increase_inj:
  "ids_increase rs \<Longrightarrow> i < length rs \<Longrightarrow> j < length rs \<Longrightarrow> im_Id (rs ! i) = im_Id (rs ! j) \<longleftrightarrow> i = j"
  by (metis ids_increase_def linorder_neqE_nat order_less_irrefl sorted_wrt_iff_nth_less)

text \<open>
  With two records or more, the last comparison of the search repeats one made inside the loop:
  a search answers only by a hit, and a hit is never the last rank.
\<close>

lemma searchId_answers_by_hit:
  assumes "ids_increase rs" and "slice_ok rs" and "2 \<le> length rs"
    and "searchRecordIndexByRecordId rs x (length rs - 1) = Inr i"
  shows "unat i + 1 < length rs"
proof -
  have ne: "rs \<noteq> []" using assms(3) by auto
  show ?thesis
  proof (cases rule: id_rows.whole_cases [OF assms(1) ne, of x])
    case (1 m)
    with assms ne show ?thesis
      by (auto simp: searchRecordIndexByRecordId_def id_rows.whole_def)
  next
    case (2 low med)
    from id_rows.miss_median [OF assms(1) 2(2) assms(3)] 2(1) assms(4) ne
    show ?thesis by (auto simp: searchRecordIndexByRecordId_def id_rows.whole_def)
  qed
qed

lemma searchId_not_last:
  assumes "ids_increase rs" and "2 \<le> length rs"
  shows "searchRecordIndexByRecordId rs (im_Id (last rs)) (length rs - 1) = Inl no_match"
proof -
  have ne: "rs \<noteq> []" using assms(2) by auto
  let ?x = "im_Id (last rs)"
  show ?thesis
  proof (cases rule: id_rows.whole_cases [OF assms(1) ne, of ?x])
    case (1 m)
    with assms ne ids_increase_inj [OF assms(1), of m "length rs - 1"] show ?thesis
      by (simp add: last_conv_nth)
  next
    case (2 low med)
    from id_rows.miss_median [OF assms(1) 2(2) assms(2)] 2(1) ne show ?thesis
      by (auto simp: searchRecordIndexByRecordId_def id_rows.whole_def)
  qed
qed

text \<open>
  The search by timestamp has the same final comparison. With two records or more it never
  answers the last rank, and a search that has no exact hit answers the first rank whose
  timestamp is not before the requested one.
\<close>

lemma searchTime_not_last:
  assumes "times_increase rs" and "slice_ok rs" and "2 \<le> length rs"
    and "searchRecordIndexAtOrAfterTimestamp rs x (length rs - 1) = Inr i"
  shows "unat i + 1 < length rs"
proof -
  have ne: "rs \<noteq> []" using assms(3) by auto
  show ?thesis
  proof (cases rule: time_rows.whole_cases [OF assms(1) ne, of x])
    case (1 m)
    with assms ne show ?thesis
      by (auto simp: searchRecordIndexAtOrAfterTimestamp_def time_rows.whole_def)
  next
    case (2 low med)
    from time_rows.miss_median [OF assms(1) 2(2) assms(3)] 2(1) assms(2,4) ne
    show ?thesis
      by (auto simp: searchRecordIndexAtOrAfterTimestamp_def time_rows.whole_def split: if_splits)
  qed
qed

lemma searchTime_inexact_first:
  assumes "times_increase rs" and "slice_ok rs"
    and "searchRecordIndexAtOrAfterTimestamp rs x (length rs - 1) = Inr i"
    and "UnixNano (im_CreationDate (rs ! unat i)) \<noteq> x"
    and "k < length rs" and "x \<le> UnixNano (im_CreationDate (rs ! k))"
  shows "unat i \<le> k"
proof -
  have ne: "rs \<noteq> []" using assms(5) by auto
  show ?thesis
  proof (cases rule: time_rows.whole_cases [OF assms(1) ne, of x])
    case (1 m)
    with assms(2-4) ne show ?thesis
      by (auto simp: searchRecordIndexAtOrAfterTimestamp_def time_rows.whole_def)
  next
    case (2 low med)
    have med: "med < length rs" "x \<le> UnixNano (im_CreationDate (rs ! med))" "unat i = med"
      using 2 assms(2,3) ne
      by (auto simp: searchRecordIndexAtOrAfterTimestamp_def time_rows.whole_def slice_get_Inr
               split: sum.splits if_splits)
    have "med = low"
    proof (cases "2 \<le> length rs")
      case True
      from time_rows.miss_median [OF assms(1) 2(2) True] med(2) show ?thesis by auto
    next
      case False
      with med(1) 2(2) show ?thesis by (auto simp: id_rows.probing_def time_rows.probing_def)
    qed
    with time_rows.miss_low_first [OF assms(1) 2(2) assms(5,6)] med(3) show ?thesis by simp
  qed
qed

section \<open>The handler delivers the records from its rank on\<close>

definition im_pending ::
    "'x in_memory_stream \<times> im_handler \<Rightarrow> (u64 \<times> (go_error + 'x in_memory_record iface)) list" where
  "im_pending sh = (case sh of (s, h) \<Rightarrow>
     map (\<lambda>k. (of_nat k, Inr (IOther (ims_records s ! k))))
       [unat (imh_nextReadRecordIndex h)..<length (ims_records s)])"

text \<open>
  A rank comes from a search or from the record count, so it stays far below \<open>2 ^ 64\<close>.
\<close>

definition im_handler_ok :: "'x in_memory_stream \<times> im_handler \<Rightarrow> bool" where
  "im_handler_ok sh = (case sh of (s, h) \<Rightarrow>
     slice_ok (ims_records s) \<and> unat (imh_nextReadRecordIndex h) \<le> 2 ^ 63)"

lemma GetRecordAtIndex_cases:
  assumes "slice_ok (ims_records s)" and "unat i \<le> 2 ^ 63"
  shows "GetRecordAtIndex s i =
     (if unat i < length (ims_records s)
      then Inr (Some (ims_records s ! unat i), True, unat i + 1 < length (ims_records s))
      else Inr (None, False, False))"
proof -
  let ?n = "length (ims_records s)"
  have n: "?n < 2 ^ 63" using assms(1) by (simp add: slice_ok_def)
  have un: "unat (of_nat ?n :: u64) = ?n" using n by (simp add: unat_of_nat_small)
  have "unat (i + 1) = unat i + 1" using assms(2) by (intro unat_Suc_small) simp
  then have "i + 1 = of_nat ?n \<longleftrightarrow> unat i + 1 = ?n" by (metis un word_unat_eq_iff)
  moreover have "i < of_nat ?n \<longleftrightarrow> unat i < ?n" by (simp add: word_less_nat_alt un)
  ultimately show ?thesis by (auto simp: GetRecordAtIndex_def Let_def)
qed

interpretation im_source: record_source im_GetNextRecord im_pending im_handler_ok
proof unfold_locales
  fix sh :: "'x in_memory_stream \<times> im_handler"
  assume ok: "im_handler_ok sh" and p: "im_pending sh = []"
  obtain s h where sh: "sh = (s, h)" by (cases sh)
  with p ok GetRecordAtIndex_cases [of s "imh_nextReadRecordIndex h"]
  have "im_GetNextRecord sh = Inr (sh, imh_nextReadRecordIndex h, INil, False, False, None)"
    by (auto simp: im_GetNextRecord_def im_pending_def im_handler_ok_def Let_def)
  with ok p show "\<exists>h' i v c err. im_GetNextRecord sh = Inr (h', i, v, False, c, err) \<and>
      im_handler_ok h' \<and> im_pending h' = []" by blast
next
  fix sh :: "'x in_memory_stream \<times> im_handler" and i r ps
  assume ok: "im_handler_ok sh" and p: "im_pending sh = (i, Inr r) # ps"
  obtain s h where sh: "sh = (s, h)" by (cases sh)
  let ?k = "imh_nextReadRecordIndex h"
  from p sh have k: "unat ?k < length (ims_records s)" and i: "i = ?k"
    and r: "r = IOther (ims_records s ! unat ?k)"
    and ps: "ps = map (\<lambda>k. (of_nat k, Inr (IOther (ims_records s ! k)))) [Suc (unat ?k)..<length (ims_records s)]"
    by (auto simp: im_pending_def upt_eq_Cons_conv map_eq_Cons_conv)
  have ok': "slice_ok (ims_records s)" "unat ?k \<le> 2 ^ 63" using ok sh by (auto simp: im_handler_ok_def)
  from ok' k have k63: "unat ?k + 1 \<le> 2 ^ 63" by (simp add: slice_ok_def)
  then have uk: "unat (?k + 1) = Suc (unat ?k)" using unat_Suc_small [of ?k] by simp
  let ?h' = "h\<lparr>imh_nextReadRecordIndex := ?k + 1\<rparr>"
  have "im_GetNextRecord sh = Inr ((s, ?h'), i, r, True, unat ?k + 1 < length (ims_records s), None)"
    using GetRecordAtIndex_cases [OF ok'] k i r sh by (simp add: im_GetNextRecord_def Let_def)
  moreover have "im_handler_ok (s, ?h')" using ok' k63 uk by (simp add: im_handler_ok_def)
  moreover have "im_pending (s, ?h') = ps" using ps uk by (simp add: im_pending_def)
  ultimately show "\<exists>h' c. im_GetNextRecord sh = Inr (h', i, r, True, c, None) \<and>
      im_handler_ok h' \<and> im_pending h' = ps" by blast
next
  fix sh :: "'x in_memory_stream \<times> im_handler" and i e ps
  assume "im_pending sh = (i, Inl e) # ps"
  then have False by (cases sh) (auto simp: im_pending_def map_eq_Cons_conv)
  then show "\<exists>h' v. im_GetNextRecord sh = Inr (h', i, v, True, True, Some e) \<and>
      im_handler_ok h' \<and> im_pending h' = ps" ..
qed

section \<open>Properties\<close>

lemma searchId_exact:
  assumes "ids_increase rs" and "slice_ok rs" and "k < length rs" and "\<not> (2 \<le> length rs \<and> k + 1 = length rs)"
  shows "searchRecordIndexByRecordId rs (im_Id (rs ! k)) (length rs - 1) = Inr (of_nat k)"
proof -
  have ne: "rs \<noteq> []" using assms(3) by auto
  let ?x = "im_Id (rs ! k)"
  show ?thesis
  proof (cases rule: id_rows.whole_cases [OF assms(1) ne, of ?x])
    case (1 m)
    with ids_increase_inj [OF assms(1), of m k] assms(3) ne show ?thesis
      by (simp add: searchRecordIndexByRecordId_def id_rows.whole_def)
  next
    case (2 low med)
    have low: "low < length rs" using 2(2) by (auto simp: id_rows.probing_def)
    have "im_Id (rs ! low) = ?x"
      using id_rows.miss_low_complete [OF assms(1) 2(2) assms(3) refl] .
    with ids_increase_inj [OF assms(1) low assms(3)] have "low = k" by simp
    with 2(2) assms(3,4) have last: "k + 1 = length rs" "\<not> 2 \<le> length rs" "k = 0 \<longrightarrow> med = 0"
      by (auto simp: id_rows.probing_def)
    then have "k = 0" "med = 0" by linarith+
    with 2(1) ne last(1) show ?thesis
      by (simp add: searchRecordIndexByRecordId_def id_rows.whole_def)
  qed
qed

text \<open>
  C34: the lookup of a message id in memory. When ids increase with the rank, looking up the id
  of the record of rank \<open>k\<close> gives \<open>k\<close>, except for the last record of a stream with two
  records or more: that one is reported as not found, because the final comparison of the
  dichotomy looks at the last median instead of the remaining candidate.
\<close>

theorem GetIndexAtMessageId_exact:
  assumes "ids_increase (ims_records s)" and "slice_ok (ims_records s)" and "k < length (ims_records s)"
  shows "GetIndexAtMessageId s (im_Id (ims_records s ! k)) =
     (if 2 \<le> length (ims_records s) \<and> k + 1 = length (ims_records s) then Inl no_match
      else Inr (of_nat k))"
proof (cases "2 \<le> length (ims_records s) \<and> k + 1 = length (ims_records s)")
  case True
  then have "ims_records s ! k = last (ims_records s)" by (metis add_diff_cancel_right' last_conv_nth list.size(3) not_numeral_le_zero)
  with True searchId_not_last [OF assms(1)] assms(3) show ?thesis
    by (auto simp: GetIndexAtMessageId_def Let_def)
next
  case False
  with searchId_exact [OF assms False] assms(3) show ?thesis
    by (auto simp: GetIndexAtMessageId_def Let_def)
qed

definition sample_record :: "u64 \<Rightarrow> time \<Rightarrow> unit in_memory_record" where
  "sample_record i t = \<lparr>im_Id = i, im_CreationDate = t, im_Msg = IStr ''m''\<rparr>"

definition sample_stream :: "unit in_memory_stream" where
  "sample_stream = \<lparr>ims_streamUUID = 7,
     ims_records = [sample_record 1 10, sample_record 2 20, sample_record 3 20],
     ims_maxRecordsByStream = 4, ims_maxSizeInBytes = 0\<rparr>"

lemmas sample_defs = sample_stream_def sample_record_def

lemma sample_ids: "ids_increase (ims_records sample_stream)" "slice_ok (ims_records sample_stream)"
  by (simp_all add: ids_increase_def slice_ok_def sample_defs)

lemma sample_times: "times_increase (ims_records sample_stream)"
  by (simp add: times_increase_def sample_defs UnixNano_small)

lemma GetIndexAtMessageId_exact_witness:
  "GetIndexAtMessageId sample_stream 2 = Inr 1 \<and> GetIndexAtMessageId sample_stream 3 = Inl no_match"
  using GetIndexAtMessageId_exact [OF sample_ids, of 1] GetIndexAtMessageId_exact [OF sample_ids, of 2]
  by (simp add: sample_defs)

text \<open>
  The lookup of a timestamp in memory. A rank it answers is in range and its record is not
  before the requested instant; it is the first such record unless its timestamp is exactly the
  requested one; and with two records or more it is never the last rank.
\<close>

theorem GetIndexAtTimestamp_sound:
  assumes "times_increase (ims_records s)" and "slice_ok (ims_records s)"
    and "GetIndexAtTimestamp s t = Inr i"
  shows "unat i < length (ims_records s) \<and>
     UnixNano t \<le> UnixNano (im_CreationDate (ims_records s ! unat i)) \<and>
     (2 \<le> length (ims_records s) \<longrightarrow> unat i + 1 < length (ims_records s)) \<and>
     (\<forall>k < unat i. UnixNano (im_CreationDate (ims_records s ! k)) < UnixNano t \<or>
                   UnixNano (im_CreationDate (ims_records s ! unat i)) = UnixNano t)"
proof -
  let ?rs = "ims_records s"
  have a: "searchRecordIndexAtOrAfterTimestamp ?rs (UnixNano t) (length ?rs - 1) = Inr i"
    using assms(3) by (auto simp: GetIndexAtTimestamp_def Let_def split: if_splits)
  note in_range = searchTime_sound [OF a assms(2)]
  have first: "UnixNano (im_CreationDate (?rs ! k)) < UnixNano t \<or>
      UnixNano (im_CreationDate (?rs ! unat i)) = UnixNano t" if k: "k < unat i" for k
  proof (rule ccontr)
    assume "\<not> ?thesis"
    then have "unat i \<le> k"
      using in_range k by (intro searchTime_inexact_first [OF assms(1,2) a]) auto
    with k show False by simp
  qed
  from in_range searchTime_not_last [OF assms(1,2) _ a] first show ?thesis by blast
qed

lemmas lookup_eval = GetIndexAtTimestamp_def searchRecordIndexAtOrAfterTimestamp_def
  GetIndexAtMessageId_def searchRecordIndexByRecordId_def dichotomy_eval Let_def UnixNano_small

lemma sample_time_lookup: "GetIndexAtTimestamp sample_stream 5 = Inr 0"
  by (simp add: lookup_eval sample_defs)

text \<open>
  A timestamp between two stored ones can be reported as not found. With records at 10, 20
  and 20, nothing is found at or after 15: the last comparison looks at the record before.
\<close>

theorem GetIndexAtTimestamp_misses:
  "GetIndexAtTimestamp sample_stream 15 = Inl no_match \<and>
   15 \<le> UnixNano (im_CreationDate (ims_records sample_stream ! 1))"
  by (simp add: lookup_eval sample_defs)

lemma GetIndexAtTimestamp_sound_witness:
  "5 \<le> UnixNano (im_CreationDate (ims_records sample_stream ! 0))"
  using GetIndexAtTimestamp_sound [OF sample_times sample_ids(2) sample_time_lookup]
  by (simp add: UnixNano_small)

text \<open>What remains from a rank on.\<close>

definition im_from ::
    "'x in_memory_stream \<Rightarrow> nat \<Rightarrow> (u64 \<times> (go_error + 'x in_memory_record iface)) list" where
  "im_from s k = map (\<lambda>j. (of_nat j, Inr (IOther (ims_records s ! j)))) [k..<length (ims_records s)]"

lemma im_pending_from: "im_pending (s, h) = im_from s (unat (imh_nextReadRecordIndex h))"
  by (simp add: im_pending_def im_from_def)

lemma im_Seek_target:
  "\<not> imh_initialized h \<Longrightarrow> im_target s rq = (idx, None) \<Longrightarrow>
     im_Seek s (Some rq) h = (h\<lparr>imh_nextReadRecordIndex := idx, imh_initialized := True\<rparr>, None)"
  by (simp add: im_Seek_def)

text \<open>
  C36: where a seek in memory puts the iterator, and what it will read from there. The first
  message and the lookups by id leave exactly the records from that one on (the id of every
  record but the last is found). The last-message position lies behind the last record, and the
  after-last position one further, so that the next record to arrive is skipped.
\<close>

theorem im_Seek_positions:
  assumes "ids_increase (ims_records s)" and "slice_ok (ims_records s)" and "\<not> imh_initialized h"
    and "k + 1 < length (ims_records s)"
    and "im_Seek s (Some rq) h = (h', err)"
  shows "(rq_IteratorType rq = ''FIRST_MESSAGE'' \<longrightarrow> err = None \<and> im_pending (s, h') = im_from s 0) \<and>
     (rq_IteratorType rq = ''AT_MESSAGE_ID'' \<longrightarrow> rq_MessageId rq = im_Id (ims_records s ! k) \<longrightarrow>
        err = None \<and> im_pending (s, h') = im_from s k) \<and>
     (rq_IteratorType rq = ''AFTER_MESSAGE_ID'' \<longrightarrow> rq_MessageId rq = im_Id (ims_records s ! k) \<longrightarrow>
        err = None \<and> im_pending (s, h') = im_from s (k + 1)) \<and>
     (rq_IteratorType rq = ''LAST_MESSAGE'' \<longrightarrow> err = None \<and> im_pending (s, h') = []) \<and>
     (rq_IteratorType rq = ''AFTER_LAST_MESSAGE'' \<longrightarrow> err = None \<and>
        (\<forall>r s'. AddRecord s r = Inr s' \<longrightarrow> im_pending (s', h') = []))"
proof -
  have k: "k < length (ims_records s)" using assms(4) by simp
  have n: "length (ims_records s) < 2 ^ 63" using assms(2) by (simp add: slice_ok_def)
  have at: "GetIndexAtMessageId s (im_Id (ims_records s ! k)) = Inr (of_nat k)"
    using GetIndexAtMessageId_exact [OF assms(1,2) k] assms(4) by simp
  then have aft: "GetIndexAfterMessageId s (im_Id (ims_records s ! k)) = Inr (of_nat k + 1)"
    using k by (auto simp: GetIndexAtMessageId_def GetIndexAfterMessageId_def Let_def split: if_splits)
  have u: "unat (of_nat j :: u64) = j" if "j \<le> length (ims_records s) + 1" for j
    using that n by (intro unat_of_nat_small) simp
  have add: "length (ims_records s') = length (ims_records s) + 1" if "AddRecord s r = Inr s'" for s' r
    using that by (auto simp: AddRecord_def split: if_splits)
  have end_rank: "im_from s' j = []" if "length (ims_records s') \<le> j" for s' :: "'a in_memory_stream" and j
    using that by (simp add: im_from_def)
  have goto: "err = None \<and> imh_nextReadRecordIndex h' = idx" if "im_target s rq = (idx, None)" for idx
    using im_Seek_target [OF assms(3) that] assms(5) by auto
  show ?thesis
  proof (intro conjI impI allI)
    assume "rq_IteratorType rq = ''FIRST_MESSAGE''"
    with goto [of 0] show "err = None" "im_pending (s, h') = im_from s 0"
      by (simp_all add: im_target_def im_pending_from)
  next
    assume "rq_IteratorType rq = ''AT_MESSAGE_ID''" "rq_MessageId rq = im_Id (ims_records s ! k)"
    with goto [of "of_nat k"] at u [of k] k show "err = None" "im_pending (s, h') = im_from s k"
      by (simp_all add: im_target_def im_pending_from)
  next
    assume "rq_IteratorType rq = ''AFTER_MESSAGE_ID''" "rq_MessageId rq = im_Id (ims_records s ! k)"
    with goto [of "of_nat k + 1"] aft u [of "k + 1"] k
    show "err = None" "im_pending (s, h') = im_from s (k + 1)"
      by (simp_all add: im_target_def im_pending_from add.commute)
  next
    assume "rq_IteratorType rq = ''LAST_MESSAGE''"
    with goto [of "of_nat (length (ims_records s))"] u [of "length (ims_records s)"]
    show "err = None" "im_pending (s, h') = []"
      by (simp_all add: im_target_def im_pending_from GetRecordsCount_def end_rank)
  next
    assume "rq_IteratorType rq = ''AFTER_LAST_MESSAGE''"
    with goto [of "of_nat (length (ims_records s)) + 1"]
    have g: "err = None" "imh_nextReadRecordIndex h' = of_nat (length (ims_records s) + 1)"
      by (simp_all add: im_target_def GetRecordsCount_def add.commute)
    show "err = None" by (rule g(1))
    show "im_pending (s', h') = []" if "AddRecord s r = Inr s'" for r s'
      using u [of "length (ims_records s) + 1"] add [OF that] g(2)
      by (simp add: im_pending_from end_rank del: of_nat_add)
  qed
qed

definition sample_request :: "string \<Rightarrow> u64 \<Rightarrow> iterator_request" where
  "sample_request ty mid = \<lparr>rq_IteratorType = ty, rq_MessageId = mid, rq_Timestamp = 0,
     rq_JqFilter = [], rq_MaxWaitTimeSeconds = 0, rq_Name = []\<rparr>"

lemma im_Seek_positions_witness:
  "\<exists>h'. im_Seek sample_stream (Some (sample_request ''AT_MESSAGE_ID'' 2))
          (NewStreamIteratorHandlerInMemory 7 8) = (h', None) \<and>
        im_pending (sample_stream, h') = im_from sample_stream 1"
proof -
  let ?h = "NewStreamIteratorHandlerInMemory 7 8"
  obtain h' err where e: "im_Seek sample_stream (Some (sample_request ''AT_MESSAGE_ID'' 2)) ?h = (h', err)"
    by fastforce
  have "\<not> imh_initialized ?h" "1 + 1 < length (ims_records sample_stream)"
    by (simp_all add: NewStreamIteratorHandlerInMemory_def sample_defs)
  from im_Seek_positions [OF sample_ids this e] e show ?thesis
    by (simp add: sample_request_def sample_defs)
qed

text \<open>
  The record limit of an in-memory stream. A write never takes the stream above its limit,
  and a write that reports no error stored every record, in order, behind the old ones.
\<close>

theorem InMemory_Write_bounded:
  assumes "0 < ims_maxRecordsByStream s"
    and "length (ims_records s) \<le> unat (ims_maxRecordsByStream s)"
    and "InMemory_Write sz (i, s) rs = ((i', s'), err)"
  shows "length (ims_records s') \<le> unat (ims_maxRecordsByStream s) \<and>
     (err = None \<longrightarrow> im_stored s' = im_stored s @ rs) \<and>
     (length (ims_records s) + length rs \<le> unat (ims_maxRecordsByStream s) \<longrightarrow> err = None)"
proof -
  have step: "length (ims_records s') \<le> unat (ims_maxRecordsByStream s) \<and>
      (length (ims_records s) + length rs \<le> unat (ims_maxRecordsByStream s) \<longrightarrow> err = None)"
    if "0 < ims_maxRecordsByStream s" and "length (ims_records s) \<le> unat (ims_maxRecordsByStream s)"
      and "im_write_records sz (i, s) rs = ((i', s'), err)" for i s
    using that
  proof (induction rs arbitrary: i s)
    case Nil
    then show ?case by simp
  next
    case (Cons r rs)
    let ?n = "length (ims_records s)"
    have "unat (ims_maxRecordsByStream s) < 2 ^ 64" using unsigned_less [of "ims_maxRecordsByStream s"] by simp
    with Cons.prems(2) have "?n < 2 ^ 64" by simp
    then have full: "of_nat ?n \<ge> ims_maxRecordsByStream s \<longleftrightarrow> ?n \<ge> unat (ims_maxRecordsByStream s)"
      by (simp add: word_le_nat_alt unat_of_nat_small)
    show ?case
    proof (cases "AddRecord s r")
      case (Inl e)
      with Cons.prems full show ?thesis by (auto simp: AddRecord_def split: if_splits)
    next
      case (Inr s1)
      with full Cons.prems(1)
      have s1: "length (ims_records s1) = ?n + 1" "ims_maxRecordsByStream s1 = ims_maxRecordsByStream s"
        and room: "?n + 1 \<le> unat (ims_maxRecordsByStream s)"
        by (auto simp: AddRecord_def split: if_splits)
      from Inr Cons.prems(3)
      have "im_write_records sz (count_readable (sz (dr_Msg r)) r i, s1) rs = ((i', s'), err)" by simp
      from Cons.IH [OF _ _ this] s1 room Cons.prems(1) show ?thesis by simp
    qed
  qed
  have "err = None \<longrightarrow> im_stored s' = im_stored s @ rs"
    using im_writer.store_ok [of s "im_stored s" sz i rs i' s'] assms(3) by (auto simp: im_holds_def)
  moreover have "length (ims_records s') \<le> unat (ims_maxRecordsByStream s) \<and>
      (length (ims_records s) + length rs \<le> unat (ims_maxRecordsByStream s) \<longrightarrow> err = None)"
    using assms step [of s "first_readable i rs"] by (auto simp: InMemory_Write_def split: if_splits)
  ultimately show ?thesis by simp
qed

lemma InMemory_Write_bounded_witness:
  "length (ims_records (snd (fst (InMemory_Write (\<lambda>_. 1) (NewStreamInfo 0 7, sample_stream)
     (replicate 3 \<lparr>dr_Id = 4, dr_CreationDate = 30, dr_Msg = INil\<rparr>))))) \<le> 4"
proof -
  let ?res = "InMemory_Write (\<lambda>_. 1) (NewStreamInfo 0 7, sample_stream)
     (replicate 3 \<lparr>dr_Id = 4, dr_CreationDate = 30, dr_Msg = INil\<rparr>)"
  obtain i' s' err where "?res = ((i', s'), err)" by (metis surj_pair)
  then show ?thesis
    using InMemory_Write_bounded [of sample_stream "\<lambda>_. 1"] by (simp add: sample_defs)
qed

end
