(* ===== verification/StreamIter.thy ===== *)
theory StreamIter
  imports InMemory
begin

text \<open>
  Record iterators (stream/streamiterator.go, stream/responses.go): what a consumer reads.
  \<^verbatim>\<open>GetRecords\<close> drives a handler of any storage provider, applies the iterator's jq filter and
  waits for new records when the request asks for it (long polling).
\<close>

section \<open>Handlers, iterators and responses\<close>

text \<open>
  The Go interface \<^verbatim>\<open>IStreamIteratorHandler\<close>: its five methods over a handler state \<open>'h\<close>. A
  handler of the repository never panics in \<^verbatim>\<open>Open\<close>, \<^verbatim>\<open>Close\<close> or \<^verbatim>\<open>SaveSeek\<close>.
\<close>

record ('h, 'r) handler_ops =
  ho_Open :: "'h \<Rightarrow> 'h \<times> go_error option"
  ho_Close :: "'h \<Rightarrow> 'h \<times> go_error option"
  ho_Seek :: "iterator_request option \<Rightarrow> 'h \<Rightarrow> 'h \<times> go_error option"
  ho_SaveSeek :: "'h \<Rightarrow> 'h \<times> go_error option"
  ho_GetNextRecord :: "'h \<Rightarrow> go_error + 'h \<times> 'r next_result"

text \<open>The Go counters are \<^verbatim>\<open>int64\<close>; \<open>BytesRead\<close> is never updated.\<close>

record iterator_stats =
  BytesRead :: "64 word"
  RecordsRead :: "64 word"
  RecordsErrors :: "64 word"
  RecordsSkipped :: "64 word"
  RecordsSent :: "64 word"
  LastTimeRead :: time

record ('h, 'q) stream_iterator =
  it_streamUUID :: uuid
  it_itUUID :: uuid
  it_request :: "iterator_request option"   \<comment> \<open>nil once closed\<close>
  it_jqFilter :: "'q option"
  it_LastRecordIdRead :: u64
  it_Stats :: iterator_stats
  it_handler :: 'h
  it_busy :: bool                           \<comment> \<open>\<open>getRecordsBusyFlag\<close>\<close>

record 'r records_response =
  gr_Status :: string
  gr_Duration :: int
  gr_Count :: "64 word"
  gr_CountErrors :: "64 word"
  gr_CountSkipped :: "64 word"
  gr_Remain :: bool
  gr_LastRecordIdRead :: u64
  gr_StreamUUID :: uuid
  gr_StreamIteratorUUID :: uuid
  gr_Records :: "'r iface list"

definition no_stats_yet :: iterator_stats where
  "no_stats_yet = \<lparr>BytesRead = 0, RecordsRead = 0, RecordsErrors = 0, RecordsSkipped = 0,
     RecordsSent = 0, LastTimeRead = zero_time\<rparr>"

text \<open>\<open>parse\<close> is \<^verbatim>\<open>gojq.Parse\<close>.\<close>

definition NewStreamIterator ::
    "(string \<Rightarrow> go_error + 'q) \<Rightarrow> uuid \<Rightarrow> uuid \<Rightarrow> iterator_request \<Rightarrow> 'h \<Rightarrow>
       go_error + ('h, 'q) stream_iterator" where
  "NewStreamIterator parse streamUUID iteratorUUID r handler =
     (let it = \<lambda>jq. \<lparr>it_streamUUID = streamUUID, it_itUUID = iteratorUUID, it_request = Some r,
        it_jqFilter = jq, it_LastRecordIdRead = 0, it_Stats = no_stats_yet,
        it_handler = handler, it_busy = False\<rparr> in
      if rq_JqFilter r \<noteq> [] then
        (case parse (rq_JqFilter r) of Inl e \<Rightarrow> Inl e | Inr q \<Rightarrow> Inr (it (Some q)))
      else Inr (it None))"

definition it_GetName :: "('h, 'q) stream_iterator \<Rightarrow> string" where
  "it_GetName it = (case it_request it of Some r \<Rightarrow> rq_Name r | None \<Rightarrow> [])"

definition it_Open ::
    "('h, 'r) handler_ops \<Rightarrow> ('h, 'q) stream_iterator \<Rightarrow> ('h, 'q) stream_iterator \<times> go_error option" where
  "it_Open ops it = (case ho_Open ops (it_handler it) of (h, err) \<Rightarrow> (it\<lparr>it_handler := h\<rparr>, err))"

definition it_Close ::
    "('h, 'r) handler_ops \<Rightarrow> ('h, 'q) stream_iterator \<Rightarrow> ('h, 'q) stream_iterator \<times> go_error option" where
  "it_Close ops it = (case ho_Close ops (it_handler it) of
     (h, err) \<Rightarrow> (it\<lparr>it_request := None, it_jqFilter := None, it_handler := h\<rparr>, err))"

definition it_Seek ::
    "('h, 'r) handler_ops \<Rightarrow> ('h, 'q) stream_iterator \<Rightarrow> ('h, 'q) stream_iterator \<times> go_error option" where
  "it_Seek ops it = (case ho_Seek ops (it_request it) (it_handler it) of
     (h, err) \<Rightarrow> (it\<lparr>it_handler := h\<rparr>, err))"

definition it_SaveSeek ::
    "('h, 'r) handler_ops \<Rightarrow> ('h, 'q) stream_iterator \<Rightarrow> ('h, 'q) stream_iterator \<times> go_error option" where
  "it_SaveSeek ops it = (case ho_SaveSeek ops (it_handler it) of (h, err) \<Rightarrow> (it\<lparr>it_handler := h\<rparr>, err))"

section \<open>The loop of GetRecords\<close>

text \<open>The variables of the loop: the handler, the response, the last id processed and the
  counter \<open>RecordsRead\<close>.\<close>

record ('h, 'r) scan =
  sc_handler :: 'h
  sc_response :: "'r records_response"
  sc_last :: u64
  sc_read :: "64 word"

text \<open>
  \<open>run q r\<close> lists the values that the jq iterator yields for the record \<open>r\<close>; as gojq documents,
  an error is one of these values. Only the first value is asked for. The branch for an error
  beside \<^verbatim>\<open>ok == false\<close> cannot be taken, because the value is nil then.
\<close>

definition filtered :: "('q \<Rightarrow> 'r iface \<Rightarrow> 'r iface list) \<Rightarrow> 'q option \<Rightarrow> 'r iface \<Rightarrow> 'r iface option" where
  "filtered run jq r =
     (case jq of None \<Rightarrow> Some r
      | Some q \<Rightarrow> (case run q r of [] \<Rightarrow> None | v # _ \<Rightarrow> Some v))"

definition take_record ::
    "('r iface \<Rightarrow> 'r iface option) \<Rightarrow> 'r iface \<Rightarrow> ('h, 'r) scan \<Rightarrow> ('h, 'r) scan" where
  "take_record keep r sc =
     (let p = sc_response sc in
      sc\<lparr>sc_read := sc_read sc + 1,
         sc_response :=
           (case keep r of
              Some v \<Rightarrow> p\<lparr>gr_Count := gr_Count p + 1, gr_Records := gr_Records p @ [v]\<rparr>
            | None \<Rightarrow> p\<lparr>gr_CountSkipped := gr_CountSkipped p + 1\<rparr>)\<rparr>)"

definition count_error :: "('h, 'r) scan \<Rightarrow> ('h, 'r) scan" where
  "count_error sc = sc\<lparr>sc_response := (sc_response sc)
     \<lparr>gr_CountErrors := gr_CountErrors (sc_response sc) + 1\<rparr>\<rparr>"

text \<open>
  The loop, bounded by fuel (\<open>None\<close>: still running). \<open>env k h\<close> is what the other goroutines
  did to the storage behind the handler before iteration \<open>k\<close>; \<open>elapsed k\<close> is the number of
  whole seconds since the call when iteration \<open>k\<close> looks at the clock; \<open>wait\<close> is
  \<^verbatim>\<open>it.request.MaxWaitTimeSeconds\<close>, or \<open>None\<close> when the request is nil.
\<close>

fun get_loop ::
    "('h, 'r) handler_ops \<Rightarrow> ('r iface \<Rightarrow> 'r iface option) \<Rightarrow> int option \<Rightarrow> nat \<Rightarrow>
       (nat \<Rightarrow> int) \<Rightarrow> (nat \<Rightarrow> 'h \<Rightarrow> 'h) \<Rightarrow> nat \<Rightarrow> nat \<Rightarrow> ('h, 'r) scan \<Rightarrow>
       (go_error + ('h, 'r) scan \<times> go_error option) option" where
  "get_loop ops keep wait maxRecords elapsed env 0 k sc = None"
| "get_loop ops keep wait maxRecords elapsed env (Suc fuel) k sc =
     (case ho_GetNextRecord ops (env k (sc_handler sc)) of
        Inl e \<Rightarrow> Some (Inl e)
      | Inr (h, recordId, record, foundRecord, canContinue, err) \<Rightarrow>
          (let sc1 = sc\<lparr>sc_handler := h\<rparr> in
           if \<not> foundRecord then
             (if gr_Count (sc_response sc1) = 0 then
                (case wait of
                   None \<Rightarrow> Some (Inl (Panic ''nil pointer dereference''))
                 | Some w \<Rightarrow>
                     if w > 0 \<and> elapsed k < w
                     then get_loop ops keep wait maxRecords elapsed env fuel (Suc k) sc1
                     else Some (Inr (sc1, None)))
              else Some (Inr (sc1, None)))
           else
             (let sc2 = sc1\<lparr>sc_last := recordId\<rparr> in
              case err of
                Some e \<Rightarrow>
                  if canContinue
                  then get_loop ops keep wait maxRecords elapsed env fuel (Suc k) (count_error sc2)
                  else Some (Inr (count_error sc2, Some e))
              | None \<Rightarrow>
                  (let sc3 = take_record keep record sc2 in
                   if length (gr_Records (sc_response sc3)) \<ge> maxRecords
                   then Some (Inr (sc3\<lparr>sc_response := (sc_response sc3)\<lparr>gr_Remain := True\<rparr>\<rparr>, None))
                   else get_loop ops keep wait maxRecords elapsed env fuel (Suc k) sc3))))"

section \<open>GetRecords\<close>

definition new_response :: "('h, 'q) stream_iterator \<Rightarrow> 'r records_response" where
  "new_response it = \<lparr>gr_Status = [], gr_Duration = 0, gr_Count = 0, gr_CountErrors = 0,
     gr_CountSkipped = 0, gr_Remain = False, gr_LastRecordIdRead = 0,
     gr_StreamUUID = it_streamUUID it, gr_StreamIteratorUUID = it_itUUID it, gr_Records = []\<rparr>"

definition iterator_busy :: go_error where
  "iterator_busy = Error ''iterator is busy, retry later''"

text \<open>
  One call. \<open>now\<close> is the time stored in the statistics, \<open>duration\<close> the milliseconds the call took
  (the deferred function). The busy flag is set on entry and cleared by a deferred call; a caller
  that finds it set is sent away. A response is returned beside an error.
\<close>

definition it_GetRecords ::
    "('h, 'r) handler_ops \<Rightarrow> ('q \<Rightarrow> 'r iface \<Rightarrow> 'r iface list) \<Rightarrow> time \<Rightarrow> int \<Rightarrow>
       (nat \<Rightarrow> int) \<Rightarrow> (nat \<Rightarrow> 'h \<Rightarrow> 'h) \<Rightarrow> nat \<Rightarrow> nat \<Rightarrow> ('h, 'q) stream_iterator \<Rightarrow>
       (go_error + ('h, 'q) stream_iterator \<times> 'r records_response \<times> go_error option) option" where
  "it_GetRecords ops run now duration elapsed env fuel maxRecords it =
     (let response = (new_response it)\<lparr>gr_Duration := duration\<rparr> in
      if it_busy it then
        Some (Inr (it, response\<lparr>gr_Status := ''error''\<rparr>, Some iterator_busy))
      else case it_Seek ops it of
        (it1, Some e) \<Rightarrow>
          if is_panic e then Some (Inl e)
          else Some (Inr (it1, response\<lparr>gr_Status := ''error''\<rparr>, Some e))
      | (it1, None) \<Rightarrow>
          (let it2 = it1\<lparr>it_Stats := (it_Stats it1)\<lparr>LastTimeRead := now\<rparr>\<rparr> in
           case get_loop ops (filtered run (it_jqFilter it2))
                  (map_option rq_MaxWaitTimeSeconds (it_request it2)) maxRecords elapsed env fuel 0
                  \<lparr>sc_handler = it_handler it2, sc_response = response, sc_last = 0,
                   sc_read = RecordsRead (it_Stats it2)\<rparr> of
             None \<Rightarrow> None
           | Some (Inl e) \<Rightarrow> Some (Inl e)
           | Some (Inr (sc, err)) \<Rightarrow>
               (let it3 = it2\<lparr>it_handler := sc_handler sc,
                      it_Stats := (it_Stats it2)\<lparr>RecordsRead := sc_read sc\<rparr>\<rparr>;
                    p = sc_response sc in
                case err of
                  Some e \<Rightarrow> Some (Inr (it3, p\<lparr>gr_Status := ''error''\<rparr>, Some e))
                | None \<Rightarrow>
                    (let st = it_Stats it3;
                         it4 = it3\<lparr>it_LastRecordIdRead := sc_last sc,
                           it_Stats := st\<lparr>RecordsErrors := RecordsErrors st + gr_CountErrors p,
                             RecordsSkipped := RecordsSkipped st + gr_CountSkipped p,
                             RecordsSent := RecordsSent st + gr_Count p\<rparr>\<rparr>;
                         p1 = p\<lparr>gr_LastRecordIdRead := sc_last sc\<rparr> in
                     case it_SaveSeek ops it4 of
                       (it5, Some e) \<Rightarrow> Some (Inr (it5, p1\<lparr>gr_Status := ''error''\<rparr>, Some e))
                     | (it5, None) \<Rightarrow> Some (Inr (it5, p1\<lparr>gr_Status := ''success''\<rparr>, None))))))"

section \<open>What the loop reads\<close>

text \<open>The records among what a handler delivers, the undecodable ones left out.\<close>

definition good :: "(u64 \<times> (go_error + 'r iface)) list \<Rightarrow> 'r iface list" where
  "good ps = concat (map (\<lambda>(i, x). case x of Inl e \<Rightarrow> [] | Inr r \<Rightarrow> [r]) ps)"

lemma good_simps [simp]:
  "good [] = []" "good ((i, Inr r) # ps) = r # good ps" "good ((i, Inl e) # ps) = good ps"
  "good (ps @ qs) = good ps @ good qs"
  by (simp_all add: good_def)

definition last_id :: "u64 \<Rightarrow> (u64 \<times> 'a) list \<Rightarrow> u64" where
  "last_id d ps = (if ps = [] then d else fst (last ps))"

lemma last_id_simps [simp]:
  "last_id d [] = d" "last_id d ((i, x) # ps) = last_id i ps"
  by (simp_all add: last_id_def)

text \<open>
  What one run of the loop did between the scans \<open>sc\<close> and \<open>sc'\<close> by taking \<open>taken\<close> from the
  handler.
\<close>

definition scanned ::
    "('r iface \<Rightarrow> 'r iface option) \<Rightarrow> (u64 \<times> (go_error + 'r iface)) list \<Rightarrow>
       ('h, 'r) scan \<Rightarrow> ('h, 'r) scan \<Rightarrow> bool" where
  "scanned keep taken sc sc' \<longleftrightarrow>
     (let p = sc_response sc; p' = sc_response sc' in
      gr_Records p' = gr_Records p @ List.map_filter keep (good taken) \<and>
      gr_Count p' = gr_Count p + of_nat (length (List.map_filter keep (good taken))) \<and>
      gr_CountSkipped p' = gr_CountSkipped p +
        of_nat (length (good taken) - length (List.map_filter keep (good taken))) \<and>
      gr_CountErrors p' = gr_CountErrors p + of_nat (length taken - length (good taken)) \<and>
      sc_read sc' = sc_read sc + of_nat (length (good taken)) \<and>
      sc_last sc' = last_id (sc_last sc) taken)"

lemma length_good: "length (good ps) \<le> length ps"
proof (induction ps)
  case (Cons p ps)
  then show ?case by (cases p; cases "snd p") auto
qed simp

lemma length_map_filter: "length (List.map_filter f xs) \<le> length xs"
  by (induction xs) (auto simp: List.map_filter_simps split: option.splits)

lemma scanned_Nil: "sc_response sc' = sc_response sc \<Longrightarrow> sc_read sc' = sc_read sc \<Longrightarrow>
    sc_last sc' = sc_last sc \<Longrightarrow> scanned keep [] sc sc'"
  by (simp add: scanned_def List.map_filter_simps Let_def)

lemma scanned_bad:
  assumes "scanned keep ps (count_error (sc\<lparr>sc_handler := h, sc_last := i\<rparr>)) sc'"
  shows "scanned keep ((i, Inl e) # ps) sc sc'"
  using assms length_good [of ps] by (auto simp: scanned_def count_error_def Let_def Suc_diff_le)

lemma scanned_record:
  assumes "scanned keep ps (take_record keep r (sc\<lparr>sc_handler := h, sc_last := i\<rparr>)) sc'"
  shows "scanned keep ((i, Inr r) # ps) sc sc'"
  using assms length_map_filter [of keep "good ps"]
  by (auto simp: scanned_def take_record_def Let_def List.map_filter_simps Suc_diff_le split: option.splits)

text \<open>Nothing else happens during the call.\<close>

definition quiet :: "(nat \<Rightarrow> 'h \<Rightarrow> 'h) \<Rightarrow> bool" where
  "quiet env \<longleftrightarrow> (\<forall>k h. env k h = h)"

text \<open>The other goroutines only add records behind those a handler has still to deliver.\<close>

context record_source
begin

definition appends :: "(nat \<Rightarrow> 'h \<Rightarrow> 'h) \<Rightarrow> bool" where
  "appends env \<longleftrightarrow>
     (\<forall>k h. hinv h \<longrightarrow> hinv (env k h) \<and> (\<exists>more. pending (env k h) = pending h @ more))"

text \<open>
  A log of everything the storage behind a handler ever held: reading leaves it alone, and it grows by
  what becomes pending. \<open>tracks\<close> says of the records \<open>more\<close> added during a run of the loop that every
  such log grew by them.
\<close>

definition logs :: "('h \<Rightarrow> (u64 \<times> (go_error + 'r iface)) list) \<Rightarrow> (nat \<Rightarrow> 'h \<Rightarrow> 'h) \<Rightarrow> bool" where
  "logs log env \<longleftrightarrow>
     (\<forall>h h' x. hinv h \<longrightarrow> get_next h = Inr (h', x) \<longrightarrow> log h' = log h) \<and>
     (\<forall>k h more. hinv h \<longrightarrow> pending (env k h) = pending h @ more \<longrightarrow> log (env k h) = log h @ more)"

definition tracks :: "(nat \<Rightarrow> 'h \<Rightarrow> 'h) \<Rightarrow> 'h \<Rightarrow> 'h \<Rightarrow> (u64 \<times> (go_error + 'r iface)) list \<Rightarrow> bool" where
  "tracks env h h' extra \<longleftrightarrow> (quiet env \<longrightarrow> extra = []) \<and> (\<forall>log. logs log env \<longrightarrow> log h' = log h @ extra)"

lemma tracks_next:
  assumes "hinv h" and "hinv (env k h)" and "pending (env k h) = pending h @ added"
    and "get_next (env k h) = Inr (h', x)" and "tracks env h' h'' extra"
  shows "tracks env h h'' (added @ extra)"
proof -
  have "log h'' = log h @ added @ extra" if "logs log env" for log
  proof -
    have "log (env k h) = log h @ added" "log h' = log (env k h)"
      using that assms(1-4) unfolding logs_def by blast+
    moreover have "log h'' = log h' @ extra" using assms(5) that unfolding tracks_def by blast
    ultimately show ?thesis by simp
  qed
  with assms(3,5) show ?thesis by (auto simp: tracks_def quiet_def)
qed

lemma tracks_end: "tracks env h h []"
  by (simp add: tracks_def)

text \<open>
  The loop never fails and never panics on a sound handler. What it took and what is left are
  together what there was and what was added meanwhile, in order: nothing is lost, repeated or
  reordered. It stopped because the response is full or because nothing was left.
\<close>

lemma get_loop_scans:
  assumes "ho_GetNextRecord ops = get_next" and "appends env" and "wait \<noteq> None"
  shows "hinv (sc_handler sc) \<Longrightarrow>
    get_loop ops keep wait maxRecords elapsed env fuel k sc = Some res \<Longrightarrow>
    length (gr_Records (sc_response sc)) < maxRecords \<or> gr_Records (sc_response sc) = [] \<Longrightarrow>
    \<exists>sc' taken more. res = Inr (sc', None) \<and> hinv (sc_handler sc') \<and>
      tracks env (sc_handler sc) (sc_handler sc') more \<and>
      pending (sc_handler sc) @ more = taken @ pending (sc_handler sc') \<and>
      scanned keep taken sc sc' \<and>
      length (gr_Records (sc_response sc')) \<le> max maxRecords 1 \<and>
      (gr_Remain (sc_response sc') = gr_Remain (sc_response sc) \<and> pending (sc_handler sc') = [] \<or>
       gr_Remain (sc_response sc') \<and> maxRecords \<le> length (gr_Records (sc_response sc')))"
proof (induction fuel arbitrary: k sc)
  case 0
  then show ?case by simp
next
  case (Suc fuel)
  let ?h = "env k (sc_handler sc)"
  obtain added where h: "hinv ?h" and pend: "pending ?h = pending (sc_handler sc) @ added"
    using assms(2) Suc.prems(1) by (auto simp: appends_def)
  note tr = tracks_next [where env = env and k = k, OF Suc.prems(1) h pend]
  obtain w where w: "wait = Some w" using assms(3) by auto
  show ?case
  proof (cases "pending ?h")
    case Nil
    from next_end [OF h Nil] obtain h' i v c err where
      n: "get_next ?h = Inr (h', i, v, False, c, err)" and h': "hinv h'" "pending h' = []" by blast
    let ?sc1 = "sc\<lparr>sc_handler := h'\<rparr>"
    show ?thesis
    proof (cases "gr_Count (sc_response sc) = 0 \<and> w > 0 \<and> elapsed k < w")
      case True
      with Suc.prems(2) n w have
        "get_loop ops keep wait maxRecords elapsed env fuel (Suc k) ?sc1 = Some res"
        by (simp add: assms(1) Let_def)
      from Suc.IH [OF _ this] h' Suc.prems(3) obtain sc' taken more where
        q0: "tracks env h' (sc_handler sc') more" and r: "res = Inr (sc', None)" "hinv (sc_handler sc')" "more = taken @ pending (sc_handler sc')"
        "scanned keep taken ?sc1 sc'" "length (gr_Records (sc_response sc')) \<le> max maxRecords 1"
        "gr_Remain (sc_response sc') = gr_Remain (sc_response sc) \<and> pending (sc_handler sc') = [] \<or>
         gr_Remain (sc_response sc') \<and> maxRecords \<le> length (gr_Records (sc_response sc'))"
        by auto
      from r(4) have "scanned keep taken sc sc'" by (simp add: scanned_def)
      moreover from tr [OF n q0] Nil pend have "tracks env (sc_handler sc) (sc_handler sc') more" by simp
      ultimately show ?thesis using r Nil pend
        by (intro exI [of _ sc'] exI [of _ taken] exI [of _ more]) auto
    next
      case False
      with Suc.prems(2) n w have "res = Inr (?sc1, None)"
        by (auto simp: assms(1) Let_def split: if_splits)
      moreover have "scanned keep [] sc ?sc1" by (rule scanned_Nil) simp_all
      moreover from tr [OF n tracks_end] Nil pend have "tracks env (sc_handler sc) h' []" by simp
      ultimately show ?thesis using Nil pend h' Suc.prems(3)
        by (intro exI [of _ ?sc1] exI [of _ "[]"]) auto
    qed
  next
    case (Cons p ps)
    obtain i x where p: "p = (i, x)" by (cases p)
    show ?thesis
    proof (cases x)
      case (Inl e)
      from next_bad [OF h] Cons p Inl obtain h' v where
        n: "get_next ?h = Inr (h', i, v, True, True, Some e)" and h': "hinv h'" "pending h' = ps" by blast
      let ?sc2 = "count_error (sc\<lparr>sc_handler := h', sc_last := i\<rparr>)"
      from Suc.prems(2) n have
        "get_loop ops keep wait maxRecords elapsed env fuel (Suc k) ?sc2 = Some res"
        by (simp add: assms(1) Let_def)
      from Suc.IH [OF _ this] h' Suc.prems(3) obtain sc' taken more where
        q0: "tracks env h' (sc_handler sc') more" and r: "res = Inr (sc', None)" "hinv (sc_handler sc')" "ps @ more = taken @ pending (sc_handler sc')"
        "scanned keep taken ?sc2 sc'" "length (gr_Records (sc_response sc')) \<le> max maxRecords 1"
        "gr_Remain (sc_response sc') = gr_Remain (sc_response sc) \<and> pending (sc_handler sc') = [] \<or>
         gr_Remain (sc_response sc') \<and> maxRecords \<le> length (gr_Records (sc_response sc'))"
        by (auto simp: count_error_def)
      from scanned_bad [OF r(4)] have "scanned keep (p # taken) sc sc'" by (simp add: p Inl)
      moreover have "pending (sc_handler sc) @ (added @ more) = (p # taken) @ pending (sc_handler sc')"
        using r(3) Cons pend by (metis append.assoc append_Cons)
      ultimately show ?thesis using r(1,2,5,6) tr [OF n q0]
        by (intro exI [of _ sc'] exI [of _ "p # taken"] exI [of _ "added @ more"]) (simp add: count_error_def)
    next
      case (Inr r)
      from next_record [OF h] Cons p Inr obtain h' c where
        n: "get_next ?h = Inr (h', i, r, True, c, None)" and h': "hinv h'" "pending h' = ps" by blast
      let ?sc3 = "take_record keep r (sc\<lparr>sc_handler := h', sc_last := i\<rparr>)"
      have len: "length (gr_Records (sc_response ?sc3)) \<le> Suc (length (gr_Records (sc_response sc)))"
        by (auto simp: take_record_def Let_def split: option.splits)
      have h3: "sc_handler ?sc3 = h'" "gr_Remain (sc_response ?sc3) = gr_Remain (sc_response sc)"
        by (auto simp: take_record_def Let_def split: option.splits)
      show ?thesis
      proof (cases "maxRecords \<le> length (gr_Records (sc_response ?sc3))")
        case True
        let ?sc4 = "?sc3\<lparr>sc_response := (sc_response ?sc3)\<lparr>gr_Remain := True\<rparr>\<rparr>"
        from True Suc.prems(2) n have "res = Inr (?sc4, None)" by (simp add: assms(1) Let_def)
        moreover have "scanned keep [p] sc ?sc4"
          unfolding p Inr
          by (rule scanned_record [of _ _ _ _ h'])
             (simp add: scanned_def Let_def List.map_filter_simps)
        moreover from tr [OF n tracks_end] have "tracks env (sc_handler sc) h' added" by simp
        ultimately show ?thesis using h' h3 Cons pend True len Suc.prems(3)
          by (intro exI [of _ ?sc4] exI [of _ "[p]"] exI [of _ added]) auto
      next
        case False
        with Suc.prems(2) n have lp:
          "get_loop ops keep wait maxRecords elapsed env fuel (Suc k) ?sc3 = Some res"
          by (simp add: assms(1) Let_def)
        have "hinv (sc_handler ?sc3)"
          "length (gr_Records (sc_response ?sc3)) < maxRecords \<or> gr_Records (sc_response ?sc3) = []"
          using h' h3 False by auto
        from Suc.IH [OF this(1) lp this(2), unfolded h3 h'(2)] obtain sc' taken more where
          q: "res = Inr (sc', None)" "hinv (sc_handler sc')" "tracks env h' (sc_handler sc') more"
          "ps @ more = taken @ pending (sc_handler sc')"
          "scanned keep taken ?sc3 sc'" "length (gr_Records (sc_response sc')) \<le> max maxRecords 1"
          "gr_Remain (sc_response sc') = gr_Remain (sc_response sc) \<and> pending (sc_handler sc') = [] \<or>
           gr_Remain (sc_response sc') \<and> maxRecords \<le> length (gr_Records (sc_response sc'))"
          by (elim exE conjE) (rule that)
        from scanned_record [OF q(5)] have "scanned keep (p # taken) sc sc'" by (simp add: p Inr)
        moreover have "pending (sc_handler sc) @ (added @ more) = (p # taken) @ pending (sc_handler sc')"
          using q(4) Cons pend by (metis append.assoc append_Cons)
        ultimately show ?thesis using q(1,2,6,7) tr [OF n q(3)]
          by (intro exI [of _ sc'] exI [of _ "p # taken"] exI [of _ "added @ more"]) simp
      qed
    qed
  qed
qed

text \<open>
  The loop ends: when nothing is appended, it makes one pass per record that is pending, and
  polls only until the clock has passed the time the request may wait (from pass \<open>K\<close> on).
\<close>

lemma get_loop_ends:
  assumes "ho_GetNextRecord ops = get_next" and "\<forall>j \<ge> K. w \<le> elapsed j"
  shows "hinv (sc_handler sc) \<Longrightarrow> length (pending (sc_handler sc)) + (K - k) < fuel \<Longrightarrow>
    \<exists>res. get_loop ops keep (Some w) maxRecords elapsed (\<lambda>k h. h) fuel k sc = Some res"
proof (induction fuel arbitrary: k sc)
  case 0
  then show ?case by simp
next
  case (Suc fuel)
  show ?case
  proof (cases "pending (sc_handler sc)")
    case Nil
    from next_end [OF Suc.prems(1) Nil] obtain h' i v c err where
      n: "get_next (sc_handler sc) = Inr (h', i, v, False, c, err)" and h': "hinv h'" "pending h' = []" by blast
    have "k < K" if "elapsed k < w" using assms(2) that by (meson not_le)
    with Suc.IH [of "sc\<lparr>sc_handler := h'\<rparr>" "Suc k"] Suc.prems(2) n h' show ?thesis
      by (auto simp: assms(1) Let_def Nil)
  next
    case (Cons p ps)
    obtain i x where p: "p = (i, x)" by (cases p)
    show ?thesis
    proof (cases x)
      case (Inl e)
      from next_bad [OF Suc.prems(1)] Cons p Inl obtain h' v where
        n: "get_next (sc_handler sc) = Inr (h', i, v, True, True, Some e)" "hinv h'" "pending h' = ps" by blast
      with Suc.IH [of "count_error (sc\<lparr>sc_handler := h', sc_last := i\<rparr>)" "Suc k"] Suc.prems(2) Cons
      show ?thesis by (simp add: assms(1) count_error_def Let_def)
    next
      case (Inr r)
      from next_record [OF Suc.prems(1)] Cons p Inr obtain h' c where
        n: "get_next (sc_handler sc) = Inr (h', i, r, True, c, None)" "hinv h'" "pending h' = ps" by blast
      let ?sc = "take_record keep r (sc\<lparr>sc_handler := h', sc_last := i\<rparr>)"
      have "sc_handler ?sc = h'" by (simp add: take_record_def Let_def)
      with n Suc.IH [of ?sc "Suc k"] Suc.prems(2) Cons show ?thesis by (simp add: assms(1) Let_def)
    qed
  qed
qed

end

section \<open>Calls on a positioned handler\<close>

text \<open>
  Between two calls a handler is \<open>parked\<close>: seeking brings it back to where it was, and saving the
  position after the loop parks it again. This is what \<^verbatim>\<open>Seek\<close> and \<^verbatim>\<open>SaveSeek\<close> of a provider
  have to promise beside the laws of a record source.
\<close>

locale positioned_source = record_source get_next pending hinv
  for get_next :: "'h \<Rightarrow> go_error + 'h \<times> 'r next_result" and pending and hinv +
  fixes ops :: "('h, 'r) handler_ops"
    and parked :: "'h \<Rightarrow> bool"
  assumes ops_next: "ho_GetNextRecord ops = get_next"
    and seek_parked:
      "parked h \<Longrightarrow> \<exists>h'. ho_Seek ops rq h = (h', None) \<and> hinv h' \<and> pending h' = pending h"
    and save_parks:
      "hinv h \<Longrightarrow> \<exists>h'. ho_SaveSeek ops h = (h', None) \<and> parked h' \<and> pending h' = pending h"

text \<open>An iterator that is open, not busy, and parked.\<close>

definition idle :: "('h \<Rightarrow> bool) \<Rightarrow> ('h, 'q) stream_iterator \<Rightarrow> bool" where
  "idle parked it \<longleftrightarrow> parked (it_handler it) \<and> \<not> it_busy it \<and> it_request it \<noteq> None"

text \<open>No pending record is undecodable.\<close>

definition all_good :: "(u64 \<times> (go_error + 'r iface)) list \<Rightarrow> bool" where
  "all_good ps \<longleftrightarrow> (\<forall>p \<in> set ps. \<exists>r. snd p = Inr r)"

lemma all_good_length: "all_good ps \<Longrightarrow> length (good ps) = length ps"
  by (induction ps) (auto simp: all_good_def)

lemma all_good_append [simp]: "all_good (ps @ qs) \<longleftrightarrow> all_good ps \<and> all_good qs"
  by (auto simp: all_good_def)

lemma keep_all: "List.map_filter (filtered run None) xs = xs"
  by (induction xs) (simp_all add: List.map_filter_simps filtered_def)

lemma take_prefix: "xs = ys @ zs \<Longrightarrow> length ys \<le> m \<Longrightarrow> zs = [] \<or> m \<le> length ys \<Longrightarrow>
    ys = take m xs \<and> zs = drop m xs"
  by auto

lemma take_chunk:
  "length xs = min (length (xs @ ys)) m \<Longrightarrow> take (m + k) (xs @ ys) = take m (xs @ ys) @ take k ys"
  by (cases "m \<le> length xs") (auto simp: min_def split: if_splits)

text \<open>A consumer that calls \<open>n\<close> times and keeps what it gets.\<close>

fun read_calls ::
    "(('h, 'q) stream_iterator \<Rightarrow> (go_error + ('h, 'q) stream_iterator \<times> 'r records_response \<times> go_error option) option) \<Rightarrow>
       nat \<Rightarrow> ('h, 'q) stream_iterator \<Rightarrow> ('h, 'q) stream_iterator \<times> 'r iface list" where
  "read_calls get 0 it = (it, [])"
| "read_calls get (Suc n) it =
     (case get it of
        Some (Inr (it', p, None)) \<Rightarrow>
          (case read_calls get n it' of (it'', rs) \<Rightarrow> (it'', gr_Records p @ rs))
      | _ \<Rightarrow> (it, []))"

context positioned_source
begin

definition seeks_log :: "('h \<Rightarrow> (u64 \<times> (go_error + 'r iface)) list) \<Rightarrow> bool" where
  "seeks_log log \<longleftrightarrow> (\<forall>rq h. log (fst (ho_Seek ops rq h)) = log h \<and> log (fst (ho_SaveSeek ops h)) = log h)"

lemma GetRecords_scans_log:
  assumes "idle parked it" and "appends env"
    and "it_GetRecords ops run now d elapsed env fuel maxRecords it = Some res"
  shows "\<exists>it' p taken more. res = Inr (it', p, None) \<and> idle parked it' \<and>
     it_jqFilter it' = it_jqFilter it \<and> it_request it' = it_request it \<and> gr_Status p = ''success'' \<and>
     pending (it_handler it) @ more = taken @ pending (it_handler it') \<and>
     (\<forall>log. logs log env \<and> seeks_log log \<longrightarrow> log (it_handler it') = log (it_handler it) @ more) \<and>
     (quiet env \<longrightarrow> more = []) \<and>
     gr_Records p = List.map_filter (filtered run (it_jqFilter it)) (good taken) \<and>
     gr_LastRecordIdRead p = last_id 0 taken \<and> it_LastRecordIdRead it' = last_id 0 taken \<and>
     length (gr_Records p) \<le> max maxRecords 1 \<and>
     (\<not> gr_Remain p \<and> pending (it_handler it') = [] \<or> gr_Remain p \<and> maxRecords \<le> length (gr_Records p))"
proof -
  obtain h0 where h0: "ho_Seek ops (it_request it) (it_handler it) = (h0, None)" "hinv h0"
      "pending h0 = pending (it_handler it)"
    using seek_parked assms(1) by (auto simp: idle_def)
  let ?sc = "\<lparr>sc_handler = h0, sc_response = (new_response it :: 'r records_response)\<lparr>gr_Duration := d\<rparr>,
     sc_last = 0, sc_read = RecordsRead (it_Stats it)\<rparr>"
  let ?loop = "get_loop ops (filtered run (it_jqFilter it)) (map_option rq_MaxWaitTimeSeconds (it_request it))
     maxRecords elapsed env fuel 0 ?sc"
  have b: "\<not> it_busy it" "hinv (sc_handler ?sc)" "map_option rq_MaxWaitTimeSeconds (it_request it) \<noteq> None"
    using assms(1) h0 by (auto simp: idle_def)
  have r0: "new_response (it\<lparr>it_handler := h0\<rparr>) = new_response it" by (simp add: new_response_def)
  from assms(3) obtain l where l: "?loop = Some l"
    by (auto simp: it_GetRecords_def Let_def it_Seek_def h0 b(1) split: option.splits)
  have "length (gr_Records (sc_response ?sc)) < maxRecords \<or> gr_Records (sc_response ?sc) = []"
    by (simp add: new_response_def)
  from get_loop_scans [OF ops_next assms(2) b(3,2) l this]
  obtain sc' taken more where
    r: "l = Inr (sc', None)" "hinv (sc_handler sc')" "tracks env h0 (sc_handler sc') more"
    "pending h0 @ more = taken @ pending (sc_handler sc')"
    "scanned (filtered run (it_jqFilter it)) taken ?sc sc'"
    "length (gr_Records (sc_response sc')) \<le> max maxRecords 1"
    "gr_Remain (sc_response sc') = gr_Remain (sc_response ?sc) \<and> pending (sc_handler sc') = [] \<or>
     gr_Remain (sc_response sc') \<and> maxRecords \<le> length (gr_Records (sc_response sc'))"
    by (elim exE conjE) (rule that, simp_all only: scan.select_convs)
  obtain h1 where h1: "ho_SaveSeek ops (sc_handler sc') = (h1, None)" "parked h1"
      "pending h1 = pending (sc_handler sc')"
    using save_parks [OF r(2)] by blast
  obtain it' where
    "res = Inr (it', (sc_response sc')\<lparr>gr_LastRecordIdRead := sc_last sc', gr_Status := ''success''\<rparr>, None)"
    "it_handler it' = h1" "it_LastRecordIdRead it' = sc_last sc'" "it_busy it' = it_busy it"
    "it_jqFilter it' = it_jqFilter it" "it_request it' = it_request it"
    using assms(3) l r(1) b(1) h0 h1
    by (auto simp: it_GetRecords_def Let_def it_Seek_def it_SaveSeek_def)
  moreover have "sc_last sc' = last_id 0 taken"
    "gr_Records (sc_response sc') = List.map_filter (filtered run (it_jqFilter it)) (good taken)"
    "gr_Remain (sc_response ?sc) = False"
    using r(5) by (simp_all add: scanned_def new_response_def Let_def)
  moreover have "log h1 = log (it_handler it) @ more" if "logs log env" "seeks_log log" for log
  proof -
    from that(2) have "log h1 = log (sc_handler sc')" "log h0 = log (it_handler it)"
      unfolding seeks_log_def using h0(1) h1(1) by (metis fst_conv)+
    moreover have "log (sc_handler sc') = log h0 @ more" using r(3) that(1) unfolding tracks_def by blast
    ultimately show ?thesis by simp
  qed
  moreover have "quiet env \<longrightarrow> more = []" using r(3) by (simp add: tracks_def)
  ultimately show ?thesis
    using assms(1) b(1) r(4,6,7) h0(3) h1(2,3)
    by (intro exI [of _ it']
          exI [of _ "(sc_response sc')\<lparr>gr_LastRecordIdRead := sc_last sc', gr_Status := ''success''\<rparr>"]
          exI [of _ taken] exI [of _ more])
       (simp add: idle_def)
qed

lemma GetRecords_scans:
  assumes "idle parked it" and "appends env"
    and "it_GetRecords ops run now d elapsed env fuel maxRecords it = Some res"
  shows "\<exists>it' p taken more. res = Inr (it', p, None) \<and> idle parked it' \<and>
     it_jqFilter it' = it_jqFilter it \<and> it_request it' = it_request it \<and> gr_Status p = ''success'' \<and>
     pending (it_handler it) @ more = taken @ pending (it_handler it') \<and>
     (quiet env \<longrightarrow> more = []) \<and>
     gr_Records p = List.map_filter (filtered run (it_jqFilter it)) (good taken) \<and>
     gr_LastRecordIdRead p = last_id 0 taken \<and> it_LastRecordIdRead it' = last_id 0 taken \<and>
     length (gr_Records p) \<le> max maxRecords 1 \<and>
     (\<not> gr_Remain p \<and> pending (it_handler it') = [] \<or> gr_Remain p \<and> maxRecords \<le> length (gr_Records p))"
  using GetRecords_scans_log [OF assms] by blast

text \<open>A call ends when nothing is appended and the clock passes the time it may wait.\<close>

lemma call_ends:
  assumes "idle parked it"
    and "\<forall>j \<ge> K. rq_MaxWaitTimeSeconds (the (it_request it)) \<le> elapsed j"
    and "length (pending (it_handler it)) + K < fuel"
  shows "\<exists>res. it_GetRecords ops run now d elapsed (\<lambda>k h. h) fuel m it = Some res"
proof -
  obtain rq where rq: "it_request it = Some rq" "\<not> it_busy it" using assms(1) by (auto simp: idle_def)
  obtain h0 where h0: "ho_Seek ops (it_request it) (it_handler it) = (h0, None)" "hinv h0"
      "pending h0 = pending (it_handler it)"
    using seek_parked assms(1) by (auto simp: idle_def)
  let ?sc = "\<lparr>sc_handler = h0, sc_response = (new_response it :: 'r records_response)\<lparr>gr_Duration := d\<rparr>,
     sc_last = 0, sc_read = RecordsRead (it_Stats it)\<rparr>"
  have i: "hinv (sc_handler ?sc)" "length (pending (sc_handler ?sc)) + (K - 0) < fuel"
    using h0 assms(3) by simp_all
  have "\<exists>l. get_loop ops (filtered run (it_jqFilter it)) (Some (rq_MaxWaitTimeSeconds rq)) m
      elapsed (\<lambda>k h. h) fuel 0 ?sc = Some l"
    by (rule get_loop_ends [OF ops_next _ i]) (use assms(2) rq in simp)
  then obtain l where l: "get_loop ops (filtered run (it_jqFilter it)) (Some (rq_MaxWaitTimeSeconds rq)) m
      elapsed (\<lambda>k h. h) fuel 0 ?sc = Some l" ..
  have "new_response (it\<lparr>it_handler := h0\<rparr>) = new_response it" by (simp add: new_response_def)
  with l rq h0 show ?thesis
    by (cases l)
       (auto simp: it_GetRecords_def Let_def it_Seek_def it_SaveSeek_def split: option.splits prod.splits)
qed

text \<open>A call that nothing disturbs reads exactly the next records.\<close>

lemma quiet_call:
  assumes "idle parked it" and "it_jqFilter it = None" and "0 < m"
    and "\<forall>j \<ge> K. rq_MaxWaitTimeSeconds (the (it_request it)) \<le> elapsed j"
    and "length (pending (it_handler it)) + K < fuel" and "all_good (pending (it_handler it))"
  shows "\<exists>it' p. it_GetRecords ops run now d elapsed (\<lambda>k h. h) fuel m it = Some (Inr (it', p, None)) \<and>
     idle parked it' \<and> it_jqFilter it' = None \<and> it_request it' = it_request it \<and>
     gr_Records p = take m (good (pending (it_handler it))) \<and>
     pending (it_handler it') = drop m (pending (it_handler it))"
proof -
  let ?env = "\<lambda>(k::nat) (h :: 'h). h"
  have env: "appends ?env" by (auto simp: appends_def intro: exI [of _ "[]"])
  have q: "quiet ?env" by (simp add: quiet_def)
  from call_ends [OF assms(1,4,5)] obtain res
    where res: "it_GetRecords ops run now d elapsed ?env fuel m it = Some res" by blast
  from GetRecords_scans [OF assms(1) env this] q obtain it' p taken where
    r: "res = Inr (it', p, None)" "idle parked it'" "it_jqFilter it' = it_jqFilter it" "it_request it' = it_request it"
    "pending (it_handler it) = taken @ pending (it_handler it')"
    "gr_Records p = List.map_filter (filtered run (it_jqFilter it)) (good taken)"
    "length (gr_Records p) \<le> max m 1"
    "pending (it_handler it') = [] \<or> m \<le> length (gr_Records p)"
    by auto
  have g: "length (good taken) = length taken"
    using assms(6) unfolding r(5) by (intro all_good_length) simp
  have len: "length taken \<le> m" "pending (it_handler it') = [] \<or> m \<le> length taken"
    using r(6-8) g assms(2,3) by (auto simp: keep_all)
  note t = take_prefix [OF r(5) len]
  have "good taken = take m (good taken @ good (pending (it_handler it')))"
    using len g by (cases "pending (it_handler it') = []") simp_all
  also have "good taken @ good (pending (it_handler it')) = good (pending (it_handler it))"
    unfolding r(5) by simp
  finally have "gr_Records p = take m (good (pending (it_handler it)))"
    unfolding r(6) assms(2) keep_all .
  with t r(1-4) res assms(2) show ?thesis
    by (intro exI [of _ it'] exI [of _ p]) simp
qed

text \<open>Repeated calls read the source once, in order.\<close>

lemma calls_deliver:
  assumes "idle parked it" and "it_jqFilter it = None" and "0 < m"
    and "\<forall>j \<ge> K. rq_MaxWaitTimeSeconds (the (it_request it)) \<le> elapsed j"
    and "length (pending (it_handler it)) + K < fuel" and "all_good (pending (it_handler it))"
  shows "snd (read_calls (it_GetRecords ops run now d elapsed (\<lambda>k h. h) fuel m) n it) =
     take (n * m) (good (pending (it_handler it)))"
  using assms
proof (induction n arbitrary: it)
  case 0
  then show ?case by simp
next
  case (Suc n)
  from quiet_call [OF Suc.prems, of run now d] obtain it' p where
    c: "it_GetRecords ops run now d elapsed (\<lambda>k h. h) fuel m it = Some (Inr (it', p, None))"
    "idle parked it'" "it_jqFilter it' = None" "it_request it' = it_request it"
    "gr_Records p = take m (good (pending (it_handler it)))"
    "pending (it_handler it') = drop m (pending (it_handler it))" by blast
  let ?P = "pending (it_handler it)"
  have P: "?P = take m ?P @ drop m ?P" by simp
  have ag: "all_good (take m ?P)" "all_good (drop m ?P)"
    using Suc.prems(6) by (metis P all_good_append)+
  have "length (pending (it_handler it')) + K < fuel" using Suc.prems(5) c(6) by simp
  with Suc.IH [of it'] c Suc.prems(3,4) ag
  have ih: "snd (read_calls (it_GetRecords ops run now d elapsed (\<lambda>k h. h) fuel m) n it') =
      take (n * m) (good (drop m ?P))" by simp
  have g: "good (take m ?P) @ good (drop m ?P) = good ?P"
    by (simp flip: good_simps(4))
  have "length (good (take m ?P)) = min (length (good (take m ?P) @ good (drop m ?P))) m"
    unfolding g all_good_length [OF ag(1)] all_good_length [OF Suc.prems(6)] by simp
  from take_chunk [OF this, of "n * m"]
  have "take (m + n * m) (good ?P) = take m (good ?P) @ take (n * m) (good (drop m ?P))"
    unfolding g .
  with ih c(1,5) show ?case
    by (cases "read_calls (it_GetRecords ops run now d elapsed (\<lambda>k h. h) fuel m) n it'") simp
qed

end

section \<open>Iterators over a stream in memory\<close>

definition im_ops :: "('x in_memory_stream \<times> im_handler, 'x in_memory_record) handler_ops" where
  "im_ops = \<lparr>ho_Open = \<lambda>(s, h). map_prod (Pair s) id (im_Open h),
     ho_Close = \<lambda>(s, h). map_prod (Pair s) id (im_Close h),
     ho_Seek = \<lambda>rq (s, h). map_prod (Pair s) id (im_Seek s rq h),
     ho_SaveSeek = \<lambda>(s, h). map_prod (Pair s) id (im_SaveSeek h),
     ho_GetNextRecord = im_GetNextRecord\<rparr>"

text \<open>The writer only appends records, and memory never holds \<open>2 ^ 63\<close> of them.\<close>

definition im_appends ::
    "(nat \<Rightarrow> 'x in_memory_stream \<times> im_handler \<Rightarrow> 'x in_memory_stream \<times> im_handler) \<Rightarrow> bool" where
  "im_appends env \<longleftrightarrow>
     (\<forall>k s h. \<exists>rs. env k (s, h) = (s\<lparr>ims_records := ims_records s @ rs\<rparr>, h) \<and>
        (slice_ok (ims_records s) \<longrightarrow> slice_ok (ims_records s @ rs)))"

lemma im_pending_append:
  assumes "unat (imh_nextReadRecordIndex h) \<le> length (ims_records s)"
  shows "\<exists>more. im_pending (s\<lparr>ims_records := ims_records s @ rs\<rparr>, h) = im_pending (s, h) @ more"
proof -
  let ?j = "unat (imh_nextReadRecordIndex h)" and ?n = "length (ims_records s)"
  have "[?j..<?n + length rs] = [?j..<?n] @ [?n..<?n + length rs]"
    using assms by (rule upt_add_eq_append)
  then show ?thesis by (auto simp: im_pending_def nth_append)
qed

text \<open>
  A handler that has found its first position and whose rank lies inside the stream, as it does
  after every position but ``after last''.
\<close>

definition im_parked :: "'x in_memory_stream \<times> im_handler \<Rightarrow> bool" where
  "im_parked sh \<longleftrightarrow> (case sh of (s, h) \<Rightarrow> slice_ok (ims_records s) \<and> imh_initialized h \<and>
     unat (imh_nextReadRecordIndex h) \<le> length (ims_records s))"

lemma im_parked_ok: "im_parked sh \<Longrightarrow> im_handler_ok sh"
  by (auto simp: im_parked_def im_handler_ok_def slice_ok_def split: prod.splits)

lemma im_parked_next:
  assumes "im_parked sh" and "im_GetNextRecord sh = Inr (sh', x)"
  shows "im_parked sh'"
proof -
  obtain s h where sh: "sh = (s, h)" by (cases sh)
  let ?k = "imh_nextReadRecordIndex h"
  have n: "unat ?k \<le> length (ims_records s)" "length (ims_records s) < 2 ^ 63" "slice_ok (ims_records s)"
    "imh_initialized h"
    using assms(1) sh by (auto simp: im_parked_def slice_ok_def)
  then have "unat (?k + 1) = unat ?k + 1" by (intro unat_Suc_small) simp
  with n assms(2) GetRecordAtIndex_cases [OF n(3), of ?k] show ?thesis
    by (auto simp: sh im_GetNextRecord_def im_parked_def Let_def split: if_splits)
qed

interpretation im_reader: positioned_source im_GetNextRecord im_pending im_parked im_ops im_parked
proof unfold_locales
  fix sh :: "'x in_memory_stream \<times> im_handler"
  assume i: "im_parked sh"
  note ok = im_parked_ok [OF i]
  show "im_pending sh = [] \<Longrightarrow> \<exists>h' i v c err. im_GetNextRecord sh = Inr (h', i, v, False, c, err) \<and>
      im_parked h' \<and> im_pending h' = []"
    using im_source.next_end [OF ok] im_parked_next [OF i] by blast
  show "\<exists>h' c. im_GetNextRecord sh = Inr (h', j, r, True, c, None) \<and> im_parked h' \<and> im_pending h' = ps"
    if "im_pending sh = (j, Inr r) # ps" for j r ps
    using im_source.next_record [OF ok that] im_parked_next [OF i] by blast
  show "\<exists>h' v. im_GetNextRecord sh = Inr (h', j, v, True, True, Some e) \<and> im_parked h' \<and> im_pending h' = ps"
    if "im_pending sh = (j, Inl e) # ps" for j e ps
    using im_source.next_bad [OF ok that] im_parked_next [OF i] by blast
  show "\<exists>h'. ho_Seek im_ops rq sh = (h', None) \<and> im_parked h' \<and> im_pending h' = im_pending sh" for rq
    using i by (cases sh) (auto simp: im_ops_def im_Seek_def im_parked_def)
  show "\<exists>h'. ho_SaveSeek im_ops sh = (h', None) \<and> im_parked h' \<and> im_pending h' = im_pending sh"
    using i by (cases sh) (auto simp: im_ops_def im_SaveSeek_def)
qed (simp add: im_ops_def)

lemma im_appends_source: "im_appends env \<Longrightarrow> im_reader.appends env"
proof -
  assume a: "im_appends env"
  show ?thesis
    unfolding im_reader.appends_def
  proof (intro allI impI)
    fix k and sh :: "'a in_memory_stream \<times> im_handler"
    assume i: "im_parked sh"
    obtain s h where sh: "sh = (s, h)" by (cases sh)
    with a obtain rs where "env k sh = (s\<lparr>ims_records := ims_records s @ rs\<rparr>, h)"
      "slice_ok (ims_records s) \<longrightarrow> slice_ok (ims_records s @ rs)"
      unfolding im_appends_def by blast
    with i sh im_pending_append [of h s rs] show "im_parked (env k sh) \<and> (\<exists>more. im_pending (env k sh) = im_pending sh @ more)"
      by (auto simp: im_parked_def)
  qed
qed

lemma im_all_good: "all_good (im_pending sh)"
  by (cases sh) (auto simp: all_good_def im_pending_def)


text \<open>
  A call terminates and reads exactly the next records. On an idle iterator without a filter,
  when nothing is appended during the call and the clock passes the time the request may wait at
  the latest at pass \<open>K\<close>, any fuel above the number of pending records plus \<open>K\<close> lets the call
  return; the response holds the next \<open>m\<close> records, or all that are left, and the iterator moves
  past them.
\<close>

theorem GetRecords_reads_next:
  assumes "idle im_parked it" and "it_jqFilter it = None" and "0 < m"
    and "\<forall>j \<ge> K. rq_MaxWaitTimeSeconds (the (it_request it)) \<le> elapsed j"
    and "length (im_pending (it_handler it)) + K < fuel"
  shows "\<exists>it' p. it_GetRecords im_ops run now d elapsed (\<lambda>k h. h) fuel m it = Some (Inr (it', p, None)) \<and>
     idle im_parked it' \<and> gr_Records p = take m (good (im_pending (it_handler it))) \<and>
     im_pending (it_handler it') = drop m (im_pending (it_handler it))"
  using im_reader.quiet_call [OF assms im_all_good] by blast

text \<open>
  Repeated calls read the stream once, in order. \<open>n\<close> calls for \<open>m\<close> records each give the
  first \<open>n * m\<close> pending records, so \<open>n\<close> calls with \<open>n * m\<close> at least the number of pending
  records give every record exactly once.
\<close>

theorem read_calls_deliver:
  assumes "idle im_parked it" and "it_jqFilter it = None" and "0 < m"
    and "\<forall>j \<ge> K. rq_MaxWaitTimeSeconds (the (it_request it)) \<le> elapsed j"
    and "length (im_pending (it_handler it)) + K < fuel"
  shows "snd (read_calls (it_GetRecords im_ops run now d elapsed (\<lambda>k h. h) fuel m) n it) =
     take (n * m) (good (im_pending (it_handler it)))"
  using assms im_all_good by (rule im_reader.calls_deliver)

text \<open>
  An error of the jq filter reaches the consumer as a record. gojq yields a run-time error
  as a value, and the code appends every first value to the response; the branch that was meant
  to count errors needs an error beside ``no value'', which cannot happen. With a filter that
  always fails, every examined record is answered by the error, in a successful response.
\<close>

theorem jq_errors_are_delivered:
  assumes "idle im_parked it" and "it_jqFilter it = Some q" and "\<forall>r. run q r = [IErr e]"
    and "it_GetRecords im_ops run now d elapsed (\<lambda>k h. h) fuel maxRecords it = Some res"
  shows "\<exists>it' p taken. res = Inr (it', p, None) \<and> gr_Status p = ''success'' \<and>
     im_pending (it_handler it) = taken @ im_pending (it_handler it') \<and>
     gr_Records p = replicate (length taken) (IErr e)"
proof -
  have env: "im_reader.appends (\<lambda>k h. h)" "quiet (\<lambda>k h. h)"
    by (auto simp: im_reader.appends_def quiet_def intro: exI [of _ "[]"])
  from im_reader.GetRecords_scans [OF assms(1) env(1) assms(4)] env(2) obtain it' p taken where
    r: "res = Inr (it', p, None)" "gr_Status p = ''success''"
    "im_pending (it_handler it) = taken @ im_pending (it_handler it')"
    "gr_Records p = List.map_filter (filtered run (it_jqFilter it)) (good taken)" by auto
  have f: "List.map_filter (filtered run (Some q)) rs = replicate (length rs) (IErr e)" for rs
    using assms(3) by (induction rs) (simp_all add: List.map_filter_simps filtered_def)
  have "length (good taken) = length taken"
    using im_all_good [of "it_handler it"] unfolding r(3) by (intro all_good_length) simp
  with r show ?thesis
    by (intro exI [of _ it'] exI [of _ p] exI [of _ taken]) (simp add: f assms(2))
qed

text \<open>
  A call that finds nothing forgets the iterator's position. With no record pending, the
  response and the iterator report 0 as the id of the last record read, whatever was read
  before, because the variable that holds it starts at 0 in every call.
\<close>

theorem empty_call_resets_last_id:
  assumes "idle im_parked it" and "im_pending (it_handler it) = []"
    and "it_GetRecords im_ops run now d elapsed (\<lambda>k h. h) fuel maxRecords it = Some res"
  shows "\<exists>it' p. res = Inr (it', p, None) \<and> gr_LastRecordIdRead p = 0 \<and> it_LastRecordIdRead it' = 0"
proof -
  have env: "im_reader.appends (\<lambda>k h. h)" "quiet (\<lambda>k h. h)"
    by (auto simp: im_reader.appends_def quiet_def intro: exI [of _ "[]"])
  from im_reader.GetRecords_scans [OF assms(1) env(1) assms(3)] env(2) assms(2) show ?thesis by auto
qed

section \<open>A concrete iterator\<close>

definition sample_it :: "nat \<Rightarrow> string option \<Rightarrow> (unit in_memory_stream \<times> im_handler, string) stream_iterator" where
  "sample_it k jq = \<lparr>it_streamUUID = 7, it_itUUID = 8,
     it_request = Some (sample_request ''FIRST_MESSAGE'' 0), it_jqFilter = jq,
     it_LastRecordIdRead = 0, it_Stats = no_stats_yet,
     it_handler = (sample_stream, (NewStreamIteratorHandlerInMemory 7 8)
       \<lparr>imh_initialized := True, imh_nextReadRecordIndex := of_nat k\<rparr>), it_busy = False\<rparr>"

lemma sample_it_ready:
  "idle im_parked (sample_it 0 jq)" "idle im_parked (sample_it 3 jq)"
  "im_pending (it_handler (sample_it 3 jq)) = []"
  "length (im_pending (it_handler (sample_it 0 jq))) = 3"
  "it_jqFilter (sample_it 0 jq) = jq"
  by (simp_all add: idle_def sample_it_def im_parked_def slice_ok_def sample_defs im_pending_def
      NewStreamIteratorHandlerInMemory_def)

lemma sample_wait: "\<forall>j \<ge> 0. rq_MaxWaitTimeSeconds (the (it_request (sample_it k jq))) \<le> int j"
  by (simp add: sample_it_def sample_request_def)

lemma sample_env: "im_appends (\<lambda>k h. h)"
  by (auto simp: im_appends_def intro: exI [of _ "[]"])

lemma sample_call_ends:
  "\<exists>res. it_GetRecords im_ops run 0 0 int (\<lambda>k h. h) 4 2 (sample_it 0 jq) = Some res"
  using im_reader.call_ends [OF sample_it_ready(1) sample_wait, where fuel = 4 and m = 2] sample_it_ready(4) by simp

lemma sample_empty_call_ends:
  "\<exists>res. it_GetRecords im_ops run 0 0 int (\<lambda>k h. h) 4 2 (sample_it 3 jq) = Some res"
  using im_reader.call_ends [OF sample_it_ready(2) sample_wait, where fuel = 4 and m = 2] sample_it_ready(3) by simp


lemma GetRecords_reads_next_witness:
  "\<exists>it' p. it_GetRecords im_ops (\<lambda>_ _. []) 0 0 int (\<lambda>k h. h) 4 2 (sample_it 0 None) = Some (Inr (it', p, None)) \<and>
     gr_Records p = take 2 (good (im_pending (it_handler (sample_it 0 None))))"
  using GetRecords_reads_next [OF sample_it_ready(1) sample_it_ready(5) _ sample_wait, of 2 4 "\<lambda>_ _. []" 0 0]
    sample_it_ready(4) by auto

lemma read_calls_deliver_witness:
  "snd (read_calls (it_GetRecords im_ops (\<lambda>_ _. []) 0 0 int (\<lambda>k h. h) 4 2) 2 (sample_it 0 None)) =
     take 4 (good (im_pending (it_handler (sample_it 0 None))))"
  using read_calls_deliver [OF sample_it_ready(1) sample_it_ready(5) _ sample_wait, of 2 4 "\<lambda>_ _. []" 0 0 2]
    sample_it_ready(4) by simp

lemma jq_errors_are_delivered_witness:
  "\<exists>it' p n. it_GetRecords im_ops (\<lambda>_ _. [IErr (Error [])]) 0 0 int (\<lambda>k h. h) 4 2 (sample_it 0 (Some [])) =
       Some (Inr (it', p, None)) \<and> gr_Records p = replicate n (IErr (Error []))"
proof -
  obtain res where c: "it_GetRecords im_ops (\<lambda>_ _. [IErr (Error [])]) 0 0 int (\<lambda>k h. h) 4 2
      (sample_it 0 (Some [])) = Some res"
    using sample_call_ends by blast
  from jq_errors_are_delivered [OF sample_it_ready(1) sample_it_ready(5) _ c] c show ?thesis by auto
qed

lemma empty_call_resets_last_id_witness:
  "\<exists>it' p. it_GetRecords im_ops (\<lambda>_ _. []) 0 0 int (\<lambda>k h. h) 4 2 (sample_it 3 None) = Some (Inr (it', p, None)) \<and>
     it_LastRecordIdRead it' = 0"
proof -
  obtain res where c: "it_GetRecords im_ops (\<lambda>_ _. []) 0 0 int (\<lambda>k h. h) 4 2 (sample_it 3 None) = Some res"
    using sample_empty_call_ends by blast
  from empty_call_resets_last_id [OF sample_it_ready(2) sample_it_ready(3) c] c show ?thesis by auto
qed

section \<open>The busy flag\<close>

text \<open>
  The flag is atomic, but loading it and setting it are two operations. Calls of \<^verbatim>\<open>GetRecords\<close> on one iterator,
  step by step: a call loads the flag and is sent away if it is set, then sets it, reads, and clears it at its end.
\<close>

datatype call_state = Outside | Found_Free | Reading | Sent_Away

inductive flag_step :: "bool \<times> (nat \<Rightarrow> call_state) \<Rightarrow> bool \<times> (nat \<Rightarrow> call_state) \<Rightarrow> bool" where
  flag_load: "calls c = Outside \<Longrightarrow> flag_step (busy, calls) (busy, calls(c := if busy then Sent_Away else Found_Free))"
| flag_store: "calls c = Found_Free \<Longrightarrow> flag_step (busy, calls) (True, calls(c := Reading))"
| flag_clear: "calls c = Reading \<Longrightarrow> flag_step (busy, calls) (False, calls(c := Outside))"
| flag_answer: "calls c = Sent_Away \<Longrightarrow> flag_step (busy, calls) (busy, calls(c := Outside))"

text \<open>
  Two calls that load the flag before either sets it both read from the same handler, and the first to end lets a
  third one in.
\<close>

lemma busy_flag_admits_two:
  "\<exists>busy calls. flag_step\<^sup>*\<^sup>* (False, \<lambda>c. Outside) (busy, calls) \<and> calls 0 = Reading \<and> calls 1 = Reading"
proof -
  let ?o = "\<lambda>c::nat. Outside"
  have 1: "flag_step (False, ?o) (False, ?o(0 := Found_Free))" using flag_load [of ?o 0 False] by simp
  have 2: "flag_step (False, ?o(0 := Found_Free)) (False, ?o(0 := Found_Free, 1 := Found_Free))"
    using flag_load [of "?o(0 := Found_Free)" 1 False] by simp
  have 3: "flag_step (False, ?o(0 := Found_Free, 1 := Found_Free)) (True, ?o(0 := Reading, 1 := Found_Free))"
    using flag_store [of "?o(0 := Found_Free, 1 := Found_Free)" 0 False] by (simp add: fun_upd_twist)
  have 4: "flag_step (True, ?o(0 := Reading, 1 := Found_Free)) (True, ?o(0 := Reading, 1 := Reading))"
    using flag_store [of "?o(0 := Reading, 1 := Found_Free)" 1 True] by simp
  from 1 2 3 4 have "flag_step\<^sup>*\<^sup>* (False, ?o) (True, ?o(0 := Reading, 1 := Reading))"
    by (meson converse_rtranclp_into_rtranclp r_into_rtranclp)
  then show ?thesis by (intro exI [of _ True] exI [of _ "?o(0 := Reading, 1 := Reading)"]) simp
qed

text \<open>One call at a time is what the flag gives when loading and setting it are not interleaved with another call.\<close>

definition one_reader :: "bool \<times> (nat \<Rightarrow> call_state) \<Rightarrow> bool" where
  "one_reader s \<longleftrightarrow> (\<forall>c d. snd s c = Reading \<and> snd s d = Reading \<longrightarrow> c = d) \<and>
     ((\<exists>c. snd s c = Reading) \<longrightarrow> fst s) \<and> (\<forall>c. snd s c \<noteq> Found_Free)"

lemma enter_at_once_keeps_one_reader:
  assumes "one_reader (busy, calls)" and "flag_step (busy, calls) s1"
    and "s1 = (busy1, calls1)" and "\<exists>c. calls1 c = Found_Free"
  shows "\<exists>s2. flag_step s1 s2 \<and> one_reader s2"
proof -
  obtain c where c: "calls c = Outside" "\<not> busy" "busy1 = busy" "calls1 = calls(c := Found_Free)"
    using assms by (elim flag_step.cases) (auto simp: one_reader_def split: if_splits)
  then have "flag_step s1 (True, calls(c := Reading))" using flag_store [of calls1 c busy1] assms(3) by simp
  moreover have "one_reader (True, calls(c := Reading))" using assms(1) c by (auto simp: one_reader_def)
  ultimately show ?thesis by blast
qed

end
