(* ===== verification/FileReader.thy ===== *)
theory FileReader
  imports FileWriter StreamIter
begin

text \<open>
  The handler behind an iterator of a stream stored in files
  (storageprovider/jsonfileprovider/streamiteratorhandlerfile.go): a buffered reader over the
  data file, positioned with the index. A handler works on a data file that the writer may extend
  at any time, so its operations take the pair of the file's text and the handler.
\<close>

section \<open>The buffered reader\<close>

text \<open>
  \<^verbatim>\<open>bufio.Reader.ReadString\<close>: it returns the first line of what it has buffered, and otherwise
  reads the next piece of the file at the operating system's position, at most \<open>K\<close> bytes (\<open>K\<close> is
  the room left in the buffer of one megabyte; the results do not depend on it). \<open>fault pos\<close> is a
  read error at a position.
\<close>

datatype line_read =
    Line string               \<comment> \<open>a line with its newline\<close>
  | ReadError go_error string \<comment> \<open>an error and the unfinished line read before it\<close>

definition io_EOF :: go_error where
  "io_EOF = Error ''EOF''"

function read_string ::
    "string \<Rightarrow> nat \<Rightarrow> (nat \<Rightarrow> go_error option) \<Rightarrow> string \<times> nat \<Rightarrow> line_read \<times> string \<times> nat" where
  "read_string content K fault (buf, pos) =
     (case cut_line buf of
        Some (l, rest) \<Rightarrow> (Line l, rest, pos)
      | None \<Rightarrow>
          (case fault pos of
             Some e \<Rightarrow> (ReadError e buf, [], pos)
           | None \<Rightarrow>
               (let got = take K (drop pos content) in
                if got = [] then (ReadError io_EOF buf, [], pos)
                else read_string content K fault (buf @ got, pos + length got))))"
  by pat_completeness auto
termination
  by (relation "measure (\<lambda>(content, K, fault, buf, pos). length content - pos)") auto

declare read_string.simps [simp del]

section \<open>The handler\<close>

text \<open>
  \<open>fh_open\<close>: the field \<^verbatim>\<open>file\<close> is not nil; \<open>fh_pos\<close> is the position of that file; \<open>fh_reader\<close> is
  the text the reader has buffered, or \<open>None\<close> while there is no reader. The logger and the UUIDs
  are only logged.
\<close>

record file_handler =
  fh_initialized :: bool
  fh_open :: bool
  fh_pos :: nat
  fh_filename :: string
  fh_FileOffset :: int
  fh_bytesRead :: "64 word"
  fh_nextRecordIdRead :: u64
  fh_reader :: "string option"

definition NewStreamIteratorHandlerFile :: "string \<Rightarrow> file_handler" where
  "NewStreamIteratorHandlerFile filename =
     \<lparr>fh_initialized = False, fh_open = False, fh_pos = 0, fh_filename = filename, fh_FileOffset = 0,
      fh_bytesRead = 0, fh_nextRecordIdRead = 0, fh_reader = None\<rparr>"

text \<open>\<open>err\<close> is the error of \<^verbatim>\<open>os.Open\<close>, if any.\<close>

definition fh_Open :: "go_error option \<Rightarrow> file_handler \<Rightarrow> file_handler \<times> go_error option" where
  "fh_Open err h =
     (if fh_filename h = [] then (h, Some (Error ''empty stream filename''))
      else case err of
        Some e \<Rightarrow> (h\<lparr>fh_open := False\<rparr>, Some e)
      | None \<Rightarrow> (h\<lparr>fh_open := True, fh_pos := 0\<rparr>, None))"

definition fh_Close :: "file_handler \<Rightarrow> file_handler \<times> go_error option" where
  "fh_Close h = (h\<lparr>fh_open := False\<rparr>, None)"

text \<open>A method of a nil \<^verbatim>\<open>*os.File\<close> returns \<^verbatim>\<open>os.ErrInvalid\<close>.\<close>

definition err_invalid :: go_error where
  "err_invalid = Error ''invalid argument''"

definition file_seek :: "int \<Rightarrow> file_handler \<Rightarrow> file_handler \<times> go_error option" where
  "file_seek offset h =
     (if \<not> fh_open h \<or> offset < 0 then (h, Some err_invalid)
      else (h\<lparr>fh_pos := nat offset\<rparr>, None))"

text \<open>The position that a request designates; a lookup that fails leaves id 0 and offset 0.\<close>

definition fh_target :: "bytes option \<Rightarrow> iterator_request \<Rightarrow> go_error + u64 \<times> int" where
  "fh_target index rq =
     (if rq_IteratorType rq = ''FIRST_MESSAGE'' then GetOffsetFirstMessage index
      else if rq_IteratorType rq = ''LAST_MESSAGE'' then GetOffsetLastMessage index
      else if rq_IteratorType rq = ''AFTER_LAST_MESSAGE'' then GetOffsetAfterLastMessage index
      else if rq_IteratorType rq = ''AT_MESSAGE_ID'' then GetOffsetAtMessageId index (rq_MessageId rq)
      else if rq_IteratorType rq = ''AFTER_MESSAGE_ID'' then GetOffsetAfterMessageId index (rq_MessageId rq)
      else if rq_IteratorType rq = ''AT_TIMESTAMP'' then GetOffsetAtTimestamp index (rq_Timestamp rq)
      else Inl (Error ''invalid iterator type''))"

text \<open>
  Once initialized, \<^verbatim>\<open>Seek\<close> goes back to the saved offset and keeps the reader with what it has
  buffered; the first time it makes a new, empty reader.
\<close>

definition fh_Seek ::
    "bytes option \<Rightarrow> iterator_request option \<Rightarrow> file_handler \<Rightarrow> file_handler \<times> go_error option" where
  "fh_Seek index request h =
     (if fh_initialized h then file_seek (fh_FileOffset h) h
      else case request of
        None \<Rightarrow> (h, Some (Panic ''nil pointer dereference''))
      | Some rq \<Rightarrow>
          (case fh_target index rq of
             Inl e \<Rightarrow> (if is_panic e then h else h\<lparr>fh_FileOffset := 0\<rparr>, Some e)
           | Inr (nextRecordIdToRead, offset) \<Rightarrow>
               (case file_seek offset (h\<lparr>fh_FileOffset := offset\<rparr>) of
                  (h1, Some e) \<Rightarrow> (h1, Some e)
                | (h1, None) \<Rightarrow>
                    (h1\<lparr>fh_initialized := True, fh_reader := Some [],
                       fh_nextRecordIdRead := nextRecordIdToRead\<rparr>, None))))"

definition fh_SaveSeek :: "file_handler \<Rightarrow> file_handler \<times> go_error option" where
  "fh_SaveSeek h =
     (if \<not> fh_open h then (h\<lparr>fh_FileOffset := 0\<rparr>, Some err_invalid)
      else (h\<lparr>fh_FileOffset := int (fh_pos h)\<rparr>, None))"

text \<open>
  Reading the next line; \<open>um\<close> is \<^verbatim>\<open>json.Unmarshal\<close> into an empty interface. A line without its
  newline at the end of the file has left the reader when the end of file is reported. Reading
  from a closed file fails.
\<close>

definition fh_GetNextRecord ::
    "(string \<Rightarrow> go_error + 'r iface) \<Rightarrow> nat \<Rightarrow> (nat \<Rightarrow> go_error option) \<Rightarrow> string \<times> file_handler \<Rightarrow>
       go_error + (string \<times> file_handler) \<times> 'r next_result" where
  "fh_GetNextRecord um K fault ch =
     (case ch of (content, h) \<Rightarrow>
      (case fh_reader h of
        None \<Rightarrow> Inl (Panic ''nil pointer dereference'')
      | Some buf \<Rightarrow>
        (case read_string content K (if fh_open h then fault else (\<lambda>_. Some err_invalid)) (buf, fh_pos h) of
           (ReadError e _, buf', pos') \<Rightarrow>
             (case fh_SaveSeek (h\<lparr>fh_reader := Some buf', fh_pos := pos'\<rparr>) of
                (h1, Some eseek) \<Rightarrow> Inr ((content, h1), 0, INil, False, False, Some eseek)
              | (h1, None) \<Rightarrow>
                  if e = io_EOF then Inr ((content, h1), 0, INil, False, False, None)
                  else Inr ((content, h1), 0, INil, True, False, Some e))
         | (Line line, buf', pos') \<Rightarrow>
             (let lastRecordIdRead = fh_nextRecordIdRead h;
                  h1 = h\<lparr>fh_reader := Some buf', fh_pos := pos',
                         fh_bytesRead := fh_bytesRead h + of_nat (length line),
                         fh_nextRecordIdRead := lastRecordIdRead + 1\<rparr> in
              case um line of
                Inl e \<Rightarrow> Inr ((content, h1), lastRecordIdRead, INil, True, True, Some e)
              | Inr message \<Rightarrow> Inr ((content, h1), lastRecordIdRead, message, True, True, None)))))"

section \<open>What the reader still has to deliver\<close>

definition unread :: "string \<times> file_handler \<Rightarrow> string" where
  "unread ch = (case ch of (content, h) \<Rightarrow>
     (case fh_reader h of None \<Rightarrow> [] | Some buf \<Rightarrow> buf) @ drop (fh_pos h) content)"

text \<open>\<^verbatim>\<open>ReadString\<close> finds the first line of what is unread, however the file is cut into pieces.\<close>

lemma got_split: "xs = take K xs @ drop (length (take K xs)) xs"
  by (metis append_eq_conv_conj append_take_drop_id)

lemma read_string_more:
  assumes "cut_line buf = None" and "0 < K" and "pos < length content"
  shows "\<exists>got pos'. read_string content K Map.empty (buf, pos) = read_string content K Map.empty (buf @ got, pos') \<and>
     buf @ drop pos content = (buf @ got) @ drop pos' content \<and> pos < pos' \<and> pos' \<le> length content"
proof -
  let ?got = "take K (drop pos content)"
  have ne: "?got \<noteq> []" using assms by simp
  have "drop pos content = ?got @ drop (pos + length ?got) content"
    using got_split [of "drop pos content" K] by (simp add: add.commute)
  moreover have "0 < length ?got" "pos + length ?got \<le> length content" using ne assms by auto
  moreover have "read_string content K Map.empty (buf, pos) =
      read_string content K Map.empty (buf @ ?got, pos + length ?got)"
    using ne assms(1) by (simp add: read_string.simps [of content K Map.empty buf pos] Let_def del: take_eq_Nil take_eq_Nil2)
  ultimately show ?thesis
    by (intro exI [of _ ?got] exI [of _ "pos + length ?got"]) simp
qed

lemma read_string_line:
  assumes "0 < K"
  shows "pos \<le> length content \<Longrightarrow> cut_line (buf @ drop pos content) = Some (l, rest) \<Longrightarrow>
     \<exists>buf' pos'. read_string content K Map.empty (buf, pos) = (Line l, buf', pos') \<and>
       buf' @ drop pos' content = rest \<and> pos' \<le> length content"
proof (induction "length content - pos" arbitrary: buf pos rule: less_induct)
  case less
  show ?case
  proof (cases "cut_line buf")
    case (Some lr)
    then obtain l1 r1 where lr: "cut_line buf = Some (l1, r1)" by (cases lr) auto
    from cut_line_more [OF lr, of "drop pos content"] less.prems(2) have "l1 = l" "r1 @ drop pos content = rest"
      by simp_all
    with lr less.prems(1) show ?thesis by (simp add: read_string.simps)
  next
    case None
    have "pos < length content"
    proof (rule ccontr)
      assume "\<not> pos < length content"
      with None less.prems(2) show False by simp
    qed
    from read_string_more [OF None assms this] obtain got pos' where
      g: "read_string content K Map.empty (buf, pos) = read_string content K Map.empty (buf @ got, pos')"
      "buf @ drop pos content = (buf @ got) @ drop pos' content" "pos < pos'" "pos' \<le> length content" by blast
    have "length content - pos' < length content - pos" using g(3,4) by simp
    from less.hyps [OF this g(4), of "buf @ got"] less.prems(2) g(1,2) show ?thesis by simp
  qed
qed

text \<open>Without a newline in what is unread, the reader takes all of it and reports the end.\<close>

lemma read_string_end:
  assumes "0 < K"
  shows "pos \<le> length content \<Longrightarrow> cut_line (buf @ drop pos content) = None \<Longrightarrow>
     read_string content K Map.empty (buf, pos) = (ReadError io_EOF (buf @ drop pos content), [], length content)"
proof (induction "length content - pos" arbitrary: buf pos rule: less_induct)
  case less
  have None: "cut_line buf = None" using less.prems(2) by (auto simp: cut_line_None)
  show ?case
  proof (cases "pos < length content")
    case False
    with less.prems(1) None show ?thesis by (simp add: read_string.simps Let_def)
  next
    case True
    from read_string_more [OF None assms this] obtain got pos' where
      g: "read_string content K Map.empty (buf, pos) = read_string content K Map.empty (buf @ got, pos')"
      "buf @ drop pos content = (buf @ got) @ drop pos' content" "pos < pos'" "pos' \<le> length content" by blast
    have "length content - pos' < length content - pos" using g(3,4) by simp
    from less.hyps [OF this g(4), of "buf @ got"] less.prems(2) g(1,2) show ?thesis by simp
  qed
qed

section \<open>The handler is a record source\<close>

text \<open>
  What is pending: the complete lines of what is unread, under consecutive ids. A handler is
  sound once it is positioned, and when the unread text ends with a complete line.
\<close>

fun number_lines :: "(string \<Rightarrow> go_error + 'r iface) \<Rightarrow> u64 \<Rightarrow> string list \<Rightarrow> (u64 \<times> (go_error + 'r iface)) list" where
  "number_lines um i [] = []"
| "number_lines um i (l # ls) = (i, um l) # number_lines um (i + 1) ls"

lemma number_lines_append:
  "number_lines um i (ls @ ms) = number_lines um i ls @ number_lines um (i + of_nat (length ls)) ms"
  by (induction ls arbitrary: i) (simp_all add: algebra_simps)

definition fh_pending ::
    "(string \<Rightarrow> go_error + 'r iface) \<Rightarrow> string \<times> file_handler \<Rightarrow> (u64 \<times> (go_error + 'r iface)) list" where
  "fh_pending um ch = number_lines um (fh_nextRecordIdRead (snd ch)) (full_lines (unread ch))"

definition fh_ok :: "string \<times> file_handler \<Rightarrow> bool" where
  "fh_ok ch \<longleftrightarrow> (case ch of (content, h) \<Rightarrow>
     fh_initialized h \<and> fh_reader h \<noteq> None \<and> fh_open h \<and> fh_pos h \<le> length content \<and>
     concat (full_lines (unread ch)) = unread ch)"

lemma full_lines_empty: "full_lines s = [] \<longleftrightarrow> cut_line s = None"
  by (simp add: full_lines.simps [of s] split: option.splits prod.splits)

lemma fh_GetNextRecord_end:
  assumes "0 < K" and "fh_ok ch" and "fh_pending um ch = []"
  shows "\<exists>h'. fh_GetNextRecord um K Map.empty ch = Inr ((fst ch, h'), 0, INil, False, False, None) \<and>
     fh_ok (fst ch, h') \<and> fh_pending um (fst ch, h') = []"
proof -
  obtain content h where ch: "ch = (content, h)" by (cases ch)
  from assms(2) ch obtain buf where buf: "fh_reader h = Some buf" and o: "fh_open h" "fh_initialized h"
    and p: "fh_pos h \<le> length content" by (auto simp: fh_ok_def)
  have "full_lines (unread ch) = []" using assms(3) by (cases "full_lines (unread ch)") (auto simp: fh_pending_def)
  then have c: "cut_line (buf @ drop (fh_pos h) content) = None"
    by (simp add: full_lines_empty unread_def ch buf)
  note r = read_string_end [OF assms(1) p c]
  let ?h = "h\<lparr>fh_reader := Some [], fh_pos := length content, fh_FileOffset := int (length content)\<rparr>"
  have "fh_GetNextRecord um K Map.empty ch = Inr ((content, ?h), 0, INil, False, False, None)"
    using r o buf by (simp add: fh_GetNextRecord_def ch fh_SaveSeek_def)
  with o show ?thesis
    by (intro exI [of _ ?h]) (simp add: ch fh_ok_def fh_pending_def unread_def)
qed

lemma fh_GetNextRecord_line:
  assumes "0 < K" and "fh_ok ch" and "fh_pending um ch = (i, x) # ps"
  shows "\<exists>h'. fh_GetNextRecord um K Map.empty ch = Inr ((fst ch, h'), i,
       (case x of Inl e \<Rightarrow> (INil, True, True, Some e) | Inr r \<Rightarrow> (r, True, True, None))) \<and>
     fh_ok (fst ch, h') \<and> fh_pending um (fst ch, h') = ps"
proof -
  obtain content h where ch: "ch = (content, h)" by (cases ch)
  from assms(2) ch obtain buf where buf: "fh_reader h = Some buf" and o: "fh_open h" "fh_initialized h"
    and p: "fh_pos h \<le> length content" and whole: "concat (full_lines (unread ch)) = unread ch"
    by (auto simp: fh_ok_def)
  have un: "unread ch = buf @ drop (fh_pos h) content" by (simp add: unread_def ch buf)
  from assms(3) obtain l ls where ll: "full_lines (unread ch) = l # ls"
    by (cases "full_lines (unread ch)") (auto simp: fh_pending_def)
  then obtain rest where c: "cut_line (buf @ drop (fh_pos h) content) = Some (l, rest)" and rest: "full_lines rest = ls"
    unfolding un by (cases "cut_line (buf @ drop (fh_pos h) content)") (auto simp: full_lines_None full_lines_Some)
  from ll assms(3) ch have i: "i = fh_nextRecordIdRead h" and x: "x = um l"
    and ps: "ps = number_lines um (fh_nextRecordIdRead h + 1) ls" by (auto simp: fh_pending_def)
  from read_string_line [OF assms(1) p c] obtain buf' pos' where
    r: "read_string content K Map.empty (buf, fh_pos h) = (Line l, buf', pos')"
    "buf' @ drop pos' content = rest" "pos' \<le> length content" by blast
  let ?h = "h\<lparr>fh_reader := Some buf', fh_pos := pos', fh_bytesRead := fh_bytesRead h + of_nat (length l),
     fh_nextRecordIdRead := fh_nextRecordIdRead h + 1\<rparr>"
  have un': "unread (content, ?h) = rest" by (simp add: unread_def r(2))
  have "l @ concat ls = unread ch" using whole ll by simp
  also have "\<dots> = l @ rest" using cut_line_append [OF c] un by simp
  finally have "concat ls = rest" by simp
  then have "fh_ok (content, ?h)" using o r(3) rest un' by (simp add: fh_ok_def)
  moreover have "fh_pending um (content, ?h) = ps" by (simp add: fh_pending_def un' rest ps)
  moreover have "fh_GetNextRecord um K Map.empty ch = Inr ((content, ?h), i,
       (case x of Inl e \<Rightarrow> (INil, True, True, Some e) | Inr r \<Rightarrow> (r, True, True, None)))"
    using r(1) o buf by (simp add: fh_GetNextRecord_def ch Let_def i x split: sum.splits)
  ultimately show ?thesis using ch by auto
qed

text \<open>The size of the reader's buffer, a positive constant.\<close>

definition reader_size :: nat where
  "reader_size = 1024 * 1024"

definition fh_ops ::
    "(string \<Rightarrow> go_error + 'r iface) \<Rightarrow> bytes option \<Rightarrow> (string \<times> file_handler, 'r) handler_ops" where
  "fh_ops um index = \<lparr>ho_Open = \<lambda>(c, h). map_prod (Pair c) id (fh_Open None h),
     ho_Close = \<lambda>(c, h). map_prod (Pair c) id (fh_Close h),
     ho_Seek = \<lambda>rq (c, h). map_prod (Pair c) id (fh_Seek index rq h),
     ho_SaveSeek = \<lambda>(c, h). map_prod (Pair c) id (fh_SaveSeek h),
     ho_GetNextRecord = fh_GetNextRecord um reader_size Map.empty\<rparr>"

text \<open>Between calls the saved offset is the position of the file.\<close>

definition fh_parked :: "string \<times> file_handler \<Rightarrow> bool" where
  "fh_parked ch \<longleftrightarrow> fh_ok ch \<and> fh_FileOffset (snd ch) = int (fh_pos (snd ch))"

interpretation fh_source: positioned_source "fh_GetNextRecord um reader_size Map.empty" "fh_pending um" fh_ok
    "fh_ops um index" fh_parked
  for um :: "string \<Rightarrow> go_error + 'r iface" and index
proof unfold_locales
  have K: "0 < reader_size" by (simp add: reader_size_def)
  fix ch :: "string \<times> file_handler"
  obtain c h where ch: "ch = (c, h)" by (cases ch)
  show "fh_ok ch \<Longrightarrow> fh_pending um ch = [] \<Longrightarrow> \<exists>h' i v c err. fh_GetNextRecord um reader_size Map.empty ch =
      Inr (h', i, v, False, c, err) \<and> fh_ok h' \<and> fh_pending um h' = []"
    using fh_GetNextRecord_end [OF K] by blast
  show "\<exists>h' c. fh_GetNextRecord um reader_size Map.empty ch = Inr (h', i, r, True, c, None) \<and> fh_ok h' \<and>
      fh_pending um h' = ps" if "fh_ok ch" "fh_pending um ch = (i, Inr r) # ps" for i r ps
    using fh_GetNextRecord_line [OF K that] by auto
  show "\<exists>h' v. fh_GetNextRecord um reader_size Map.empty ch = Inr (h', i, v, True, True, Some e) \<and> fh_ok h' \<and>
      fh_pending um h' = ps" if "fh_ok ch" "fh_pending um ch = (i, Inl e) # ps" for i e ps
    using fh_GetNextRecord_line [OF K that] by auto
  show "\<exists>h'. ho_Seek (fh_ops um index) rq ch = (h', None) \<and> fh_ok h' \<and> fh_pending um h' = fh_pending um ch"
    if "fh_parked ch" for rq
    using that by (auto simp: ch fh_ops_def fh_Seek_def fh_parked_def fh_ok_def file_seek_def)
  show "\<exists>h'. ho_SaveSeek (fh_ops um index) ch = (h', None) \<and> fh_parked h' \<and> fh_pending um h' = fh_pending um ch"
    if "fh_ok ch"
    using that by (auto simp: ch fh_ops_def fh_SaveSeek_def fh_parked_def fh_ok_def fh_pending_def unread_def)
qed (simp add: fh_ops_def)

section \<open>Other goroutines append whole lines\<close>

definition fh_appends :: "(nat \<Rightarrow> string \<times> file_handler \<Rightarrow> string \<times> file_handler) \<Rightarrow> bool" where
  "fh_appends env \<longleftrightarrow> (\<forall>k c h. \<exists>ls. list_all is_line ls \<and> env k (c, h) = (c @ concat ls, h))"

lemma full_lines_is_line: "list_all is_line (full_lines s)"
proof (induction s rule: full_lines.induct)
  case (1 s)
  show ?case
  proof (cases "cut_line s")
    case None
    then show ?thesis by (simp add: full_lines_None)
  next
    case (Some lr)
    then obtain l rest where lr: "cut_line s = Some (l, rest)" by (cases lr) auto
    have "is_line l" using lr
    proof (induction s arbitrary: l)
      case (Cons c s)
      show ?case
      proof (cases "c = EOL")
        case True
        with Cons.prems show ?thesis by (auto simp: is_line_def)
      next
        case False
        with Cons.prems obtain l1 where l1: "cut_line s = Some (l1, rest)" "l = c # l1"
          by (auto split: option.splits)
        from Cons.IH [OF l1(1)] obtain t where "l1 = t @ [EOL]" "EOL \<notin> set t" by (auto simp: is_line_def)
        with l1(2) False show ?thesis unfolding is_line_def by (intro exI [of _ "c # t"]) simp
      qed
    qed simp
    with 1 [OF lr refl] lr show ?thesis by (simp add: full_lines_Some)
  qed
qed

lemma fh_append_lines:
  assumes "fh_ok (c, h)" and "list_all is_line ls"
  shows "fh_ok (c @ concat ls, h)"
    and "\<exists>more. fh_pending um (c @ concat ls, h) = fh_pending um (c, h) @ more"
proof -
  have u: "unread (c @ concat ls, h) = unread (c, h) @ concat ls"
    using assms(1) by (simp add: unread_def fh_ok_def)
  have "full_lines (concat (full_lines (unread (c, h))) @ concat ls) = full_lines (unread (c, h)) @ full_lines (concat ls)"
    by (rule full_lines_concat [OF full_lines_is_line])
  then have f: "full_lines (unread (c @ concat ls, h)) = full_lines (unread (c, h)) @ ls"
    using assms unfolding u by (simp add: fh_ok_def full_lines_lines)
  then show "fh_ok (c @ concat ls, h)" using assms(1) u by (simp add: fh_ok_def)
  show "\<exists>more. fh_pending um (c @ concat ls, h) = fh_pending um (c, h) @ more"
    by (auto simp: fh_pending_def f number_lines_append)
qed

lemma fh_appends_source: "fh_appends env \<Longrightarrow> record_source.appends (fh_pending um) fh_ok env"
  unfolding fh_source.appends_def fh_appends_def
  by (metis fh_append_lines surj_pair)

section \<open>Properties\<close>

text \<open>
  The JSON library, as far as the proofs rely on it: a marshalled record contains no newline, and
  a marshalled record decodes to itself, whatever the target held before.
\<close>

definition json_ok ::
    "('x deferred \<Rightarrow> go_error + string) \<Rightarrow>
       ('x deferred option \<Rightarrow> string \<Rightarrow> go_error + 'x deferred option) \<Rightarrow> bool" where
  "json_ok mj umd \<longleftrightarrow>
     (\<forall>r s. mj r = Inr s \<longrightarrow> EOL \<notin> set s \<and> (\<forall>prev. umd prev (s @ [EOL]) = Inr (Some r)))"

lemma json_lines:
  assumes "json_ok mj umd" and "list_all2 (json_line mj) ms ls"
  shows "decodes umd ls ms" and "list_all is_line ls"
proof -
  show "decodes umd ls ms"
    using assms(2) unfolding decodes_def
    by (induction rule: list_all2_induct) (use assms(1) in \<open>auto simp: json_ok_def json_line_def\<close>)
  show "list_all is_line ls"
    using assms(2)
    by (induction rule: list_all2_induct) (use assms(1) in \<open>auto simp: json_ok_def json_line_def is_line_def\<close>)
qed

definition opened_handler :: "string \<Rightarrow> file_handler" where
  "opened_handler filename = fst (fh_Open None (NewStreamIteratorHandlerFile filename))"

lemma seek_at_line:
  assumes "fh_target idx rq = Inr (i, int (length (concat (take k ls))))" and "list_all is_line ls"
    and "k \<le> length ls" and "filename \<noteq> []"
    and "fh_Seek idx (Some rq) (opened_handler filename) = (h', err)"
  shows "err = None \<and> fh_ok (concat ls, h') \<and> fh_pending um (concat ls, h') = number_lines um i (drop k ls)"
proof -
  have h': "err = None" "fh_open h'" "fh_initialized h'" "fh_reader h' = Some []"
    "fh_pos h' = length (concat (take k ls))" "fh_nextRecordIdRead h' = i"
    using assms(1,4,5)
    by (auto simp: fh_Seek_def opened_handler_def fh_Open_def NewStreamIteratorHandlerFile_def file_seek_def)
  have u: "unread (concat ls, h') = concat (drop k ls)"
    using drop_concat_lines [OF assms(3), of "[]"] h' by (simp add: unread_def)
  have "list_all is_line (drop k ls)" using assms(2) by (auto simp: list_all_iff dest: in_set_dropD)
  then have f: "full_lines (unread (concat ls, h')) = drop k ls" unfolding u by (rule full_lines_lines)
  have "fh_ok (concat ls, h')" using h' f u length_concat_take [of k ls] by (simp add: fh_ok_def)
  with f h' show ?thesis by (simp add: fh_pending_def)
qed


text \<open>
  Reading a stream stored in files loses nothing. While the writer appends whole lines, a
  \<^verbatim>\<open>GetRecords\<close> call that returns has examined lines which, followed by those still unread, are
  the lines that were unread before followed by those appended meanwhile; the reader's read-ahead
  buffer, the saved offset and the repeated seek of every call do not change that.
\<close>

theorem file_GetRecords_loses_nothing:
  assumes "idle fh_parked it" and "fh_appends env"
    and "it_GetRecords (fh_ops um index) run now d elapsed env fuel maxRecords it = Some res"
  shows "\<exists>it' p taken more. res = Inr (it', p, None) \<and> idle fh_parked it' \<and>
     fh_pending um (it_handler it) @ more = taken @ fh_pending um (it_handler it') \<and>
     gr_Records p = List.map_filter (filtered run (it_jqFilter it)) (good taken) \<and>
     gr_LastRecordIdRead p = last_id 0 taken \<and>
     (fh_pending um (it_handler it') = [] \<or> maxRecords \<le> length (gr_Records p))"
  using fh_source.GetRecords_scans [OF assms(1) fh_appends_source [OF assms(2)] assms(3)] by blast

text \<open>
  A half-written line is lost to a reader that meets it. If the reader finds text without a
  newline at the end of the file, it reports the end of the stream and drops that text; when the
  writer completes the line, the reader continues in the middle of it.
\<close>

theorem partial_line_is_dropped:
  assumes "fh_reader h = Some buf" and "fh_open h" and "fh_pos h \<le> length content"
    and "EOL \<notin> set (unread (content, h))"
  shows "\<exists>h'. fh_GetNextRecord um reader_size Map.empty (content, h) =
       Inr ((content, h'), 0, INil, False, False, None) \<and>
     unread (content @ rest, h') = rest"
proof -
  have K: "0 < reader_size" by (simp add: reader_size_def)
  have "cut_line (buf @ drop (fh_pos h) content) = None"
    using assms(1,4) by (simp add: cut_line_None unread_def)
  from read_string_end [OF K assms(3) this] assms(1,2) show ?thesis
    by (auto simp: fh_GetNextRecord_def fh_SaveSeek_def unread_def)
qed

section \<open>Concrete files\<close>

text \<open>A marshaller for the examples: a record of id \<open>n\<close> is \<open>n\<close> times the letter a.\<close>

definition sample_mj :: "unit deferred \<Rightarrow> go_error + string" where
  "sample_mj r = (if dr_CreationDate r = 0 \<and> dr_Msg r = INil
     then Inr (replicate (unat (dr_Id r)) (CHR ''a'')) else Inl (Error ''unsupported''))"

definition sample_umd :: "unit deferred option \<Rightarrow> string \<Rightarrow> go_error + unit deferred option" where
  "sample_umd prev l = Inr (Some \<lparr>dr_Id = of_nat (length l - 1), dr_CreationDate = 0, dr_Msg = INil\<rparr>)"

lemma sample_json: "json_ok sample_mj sample_umd"
  by (auto simp: json_ok_def sample_mj_def sample_umd_def EOL_def)

definition sample_records :: "unit deferred list" where
  "sample_records = map (\<lambda>n. \<lparr>dr_Id = of_nat n, dr_CreationDate = 0, dr_Msg = INil\<rparr>) [1, 2]"

definition sample_content :: string where
  "sample_content = ''a'' @ [EOL] @ ''aa'' @ [EOL]"

definition sample_writer :: file_writer where
  "sample_writer = \<lparr>fw_files = \<lparr>sf_data = Some sample_content, sf_index = Some [], sf_meta = Some []\<rparr>,
     fw_state = STREAM_WRITER_FILE_STATE_OPENED\<rparr>"

lemma sample_written:
  "fw_holds sample_mj sample_writer sample_records"
  "sorted_wrt (\<lambda>a b. dr_Id a < dr_Id b) sample_records" "0 < length sample_records"
  "''data'' \<noteq> []" "sf_data (fw_files sample_writer) = Some sample_content" "length sample_content < 2 ^ 63"
proof -
  have two: "replicate 2 (CHR ''a'') = ''aa''" by (simp add: numeral_2_eq_2)
  show "fw_holds sample_mj sample_writer sample_records"
    unfolding fw_holds_def
    by (intro exI [of _ "[''a'' @ [EOL], ''aa'' @ [EOL]]"])
       (simp add: sample_writer_def sample_content_def sample_records_def json_line_def sample_mj_def two)
qed (simp_all add: sample_writer_def sample_content_def sample_records_def)


definition sample_file_it :: "(string \<times> file_handler, string) stream_iterator" where
  "sample_file_it = \<lparr>it_streamUUID = 7, it_itUUID = 8,
     it_request = Some (sample_request ''FIRST_MESSAGE'' 0), it_jqFilter = None,
     it_LastRecordIdRead = 0, it_Stats = no_stats_yet,
     it_handler = (sample_content, fst (fh_Seek None (Some (sample_request ''FIRST_MESSAGE'' 0)) (opened_handler ''data''))),
     it_busy = False\<rparr>"

lemma sample_file_idle: "idle fh_parked sample_file_it"
proof -
  have "full_lines sample_content = [''a'' @ [EOL], ''aa'' @ [EOL]]"
    by (simp add: sample_content_def full_lines.simps EOL_def)
  then show ?thesis
    by (simp add: idle_def sample_file_it_def fh_parked_def fh_ok_def fh_Seek_def opened_handler_def fh_Open_def
        NewStreamIteratorHandlerFile_def fh_target_def sample_request_def GetOffsetFirstMessage_def file_seek_def
        unread_def sample_content_def)
qed

lemma file_GetRecords_loses_nothing_witness:
  "\<exists>it' p. it_GetRecords (fh_ops (\<lambda>l. Inr (IStr l) :: go_error + unit iface) None) (\<lambda>_ _. []) 0 0 int (\<lambda>k h. h) 99 2 sample_file_it =
       Some (Inr (it', p, None)) \<and> idle fh_parked it'"
proof -
  let ?um = "\<lambda>l. Inr (IStr l) :: go_error + unit iface"
  have e: "fh_appends (\<lambda>k h. h)" by (auto simp: fh_appends_def intro: exI [of _ "[]"])
  have d: "\<forall>j \<ge> 0. rq_MaxWaitTimeSeconds (the (it_request sample_file_it)) \<le> int j"
    by (simp add: sample_file_it_def sample_request_def)
  have n: "length (number_lines u i ls) = length ls" for u :: "string \<Rightarrow> go_error + unit iface" and i ls
    by (induction u i ls rule: number_lines.induct) auto
  have "full_lines sample_content = [''a'' @ [EOL], ''aa'' @ [EOL]]"
    by (simp add: sample_content_def full_lines.simps EOL_def)
  then have "length (fh_pending ?um (it_handler sample_file_it)) + 0 < 99"
    by (simp add: fh_pending_def n sample_file_it_def fh_Seek_def opened_handler_def fh_Open_def
        NewStreamIteratorHandlerFile_def fh_target_def sample_request_def GetOffsetFirstMessage_def file_seek_def
        unread_def)
  from fh_source.call_ends [OF sample_file_idle d this] obtain res where
    c: "it_GetRecords (fh_ops ?um None) (\<lambda>_ _. []) 0 0 int (\<lambda>k h. h) 99 2 sample_file_it = Some res" by blast
  from file_GetRecords_loses_nothing [OF sample_file_idle e c] c show ?thesis by auto
qed

lemma partial_line_is_dropped_witness:
  "\<exists>h'. fh_GetNextRecord (\<lambda>l. Inr (IStr l) :: go_error + unit iface) reader_size Map.empty
       (''half'', (opened_handler ''data'')\<lparr>fh_reader := Some []\<rparr>) =
         Inr ((''half'', h'), 0, INil, False, False, None) \<and>
     unread (''half'' @ ''way'' @ [EOL], h') = ''way'' @ [EOL]"
  using partial_line_is_dropped [of "(opened_handler ''data'')\<lparr>fh_reader := Some []\<rparr>" "[]" "''half''"
      "\<lambda>l. Inr (IStr l)" "''way'' @ [EOL]"]
  by (simp add: opened_handler_def fh_Open_def NewStreamIteratorHandlerFile_def unread_def EOL_def)

end
