(* ===== verification/FileProvider.thy ===== *)
theory FileProvider
  imports FileReader
begin

text \<open>
  The provider of streams stored in files (storageprovider/jsonfileprovider:
  streamcatalogfile.go, jsonfileprovider.go): the catalog file with the UUIDs of the streams, one
  directory per stream, and the in-memory map of descriptions.
\<close>

section \<open>The disk and the catalog\<close>

text \<open>
  Below the data directory, \<open>streams.json\<close> holds the catalog and \<open>streams/<uuid>/\<close> the three files
  of a stream; the path functions of the code give different streams different directories. The
  map of descriptions is nil until \<^verbatim>\<open>Init\<close> or \<^verbatim>\<open>LoadStreamCatalog\<close> runs.
\<close>

record disk =
  dk_catalog :: "string option"
  dk_dirs :: "uuid \<rightharpoonup> stream_files"

record 'x file_storage =
  fsp_disk :: disk
  fsp_streams :: "(uuid \<rightharpoonup> 'x stream_info) option"

definition NewFileStorageProvider :: "disk \<Rightarrow> 'x file_storage" where
  "NewFileStorageProvider d = \<lparr>fsp_disk = d, fsp_streams = None\<rparr>"

definition no_files :: stream_files where
  "no_files = \<lparr>sf_data = None, sf_index = None, sf_meta = None\<rparr>"

text \<open>
  The JSON library marshals the structure that wraps a list of UUIDs (\<open>mc\<close>; \<open>None\<close> is the nil
  list) and decodes the first value of a text (\<open>dc\<close>, \<open>dji\<close>). \<^verbatim>\<open>logger.Fatal\<close> ends the process
  (\<open>fatal\<close>). \<open>fault\<close> is an error of \<^verbatim>\<open>os.WriteFile\<close> after \<open>n\<close> bytes.
\<close>

definition write_catalog ::
    "(uuid list option \<Rightarrow> go_error + string) \<Rightarrow> (nat \<times> go_error) option \<Rightarrow> uuid list option \<Rightarrow>
       'x file_storage \<Rightarrow> 'x file_storage \<times> go_error option" where
  "write_catalog mc fault us s =
     (case mc us of
        Inl e \<Rightarrow> (s, Some fatal)
      | Inr sJson \<Rightarrow>
          (case fault of
             None \<Rightarrow> (s\<lparr>fsp_disk := (fsp_disk s)\<lparr>dk_catalog := Some sJson\<rparr>\<rparr>, None)
           | Some (n, e) \<Rightarrow> (s\<lparr>fsp_disk := (fsp_disk s)\<lparr>dk_catalog := Some (take n sJson)\<rparr>\<rparr>, Some fatal)))"

definition CatalogFileExists :: "'x file_storage \<Rightarrow> bool" where
  "CatalogFileExists s = (dk_catalog (fsp_disk s) \<noteq> None)"

definition CreateEmptyCatalogFile ::
    "(uuid list option \<Rightarrow> go_error + string) \<Rightarrow> (nat \<times> go_error) option \<Rightarrow> 'x file_storage \<Rightarrow>
       'x file_storage \<times> go_error option" where
  "CreateEmptyCatalogFile mc fault s = write_catalog mc fault None s"

definition EnsureCatalogFileExists ::
    "(uuid list option \<Rightarrow> go_error + string) \<Rightarrow> (nat \<times> go_error) option \<Rightarrow> 'x file_storage \<Rightarrow>
       'x file_storage \<times> go_error option" where
  "EnsureCatalogFileExists mc fault s =
     (if CatalogFileExists s then (s, None) else CreateEmptyCatalogFile mc fault s)"

definition fc_Init ::
    "(uuid list option \<Rightarrow> go_error + string) \<Rightarrow> (nat \<times> go_error) option \<Rightarrow> 'x file_storage \<Rightarrow>
       'x file_storage \<times> go_error option" where
  "fc_Init mc fault s = EnsureCatalogFileExists mc fault (s\<lparr>fsp_streams := Some Map.empty\<rparr>)"

definition fc_Stop :: "'x file_storage \<Rightarrow> 'x file_storage \<times> go_error option" where
  "fc_Stop s = (s, None)"

definition fc_find :: "'x file_storage \<Rightarrow> uuid \<Rightarrow> 'x stream_info option" where
  "fc_find s u = (case fsp_streams s of None \<Rightarrow> None | Some m \<Rightarrow> m u)"

definition fc_GetStreamsUUIDs :: "'x file_storage \<Rightarrow> uuid list \<Rightarrow> bool" where
  \<comment> \<open>\<open>ks\<close> is a possible result: the keys in the order the runtime visits them\<close>
  "fc_GetStreamsUUIDs s ks = range_order (fc_find s) ks"

definition fc_SaveStreamCatalog ::
    "(uuid list option \<Rightarrow> go_error + string) \<Rightarrow> (nat \<times> go_error) option \<Rightarrow> uuid list \<Rightarrow>
       'x file_storage \<Rightarrow> 'x file_storage \<times> go_error option" where
  "fc_SaveStreamCatalog mc fault ks s = write_catalog mc fault (Some ks) s"

definition LoadStreamFromUUID ::
    "(string \<Rightarrow> go_error + 'x stream_info) \<Rightarrow> disk \<Rightarrow> uuid \<Rightarrow> go_error + 'x stream_info" where
  "LoadStreamFromUUID dji d u =
     (case Option.bind (dk_dirs d u) sf_meta of
        None \<Rightarrow> Inl no_such_file
      | Some text \<Rightarrow> dji text)"

text \<open>The loop over the UUIDs: the map keeps what was loaded before an error.\<close>

fun load_each ::
    "(uuid \<Rightarrow> go_error + 'x stream_info) \<Rightarrow> (uuid \<rightharpoonup> 'x stream_info) \<Rightarrow> uuid list \<Rightarrow>
       (uuid \<rightharpoonup> 'x stream_info) \<times> go_error option" where
  "load_each ld m [] = (m, None)"
| "load_each ld m (u # us) =
     (case ld u of Inl e \<Rightarrow> (m, Some e) | Inr info \<Rightarrow> load_each ld (m(u \<mapsto> info)) us)"

definition fc_LoadStreamCatalog ::
    "(string \<Rightarrow> go_error + uuid list) \<Rightarrow> (string \<Rightarrow> go_error + 'x stream_info) \<Rightarrow>
       'x file_storage \<Rightarrow> 'x file_storage \<times> (go_error + uuid list)" where
  "fc_LoadStreamCatalog dc dji s =
     (case dk_catalog (fsp_disk s) of
        None \<Rightarrow> (s, Inl fatal)
      | Some text \<Rightarrow>
          (case dc text of
             Inl e \<Rightarrow> (s, Inl fatal)
           | Inr us \<Rightarrow>
               (case load_each (LoadStreamFromUUID dji (fsp_disk s)) Map.empty us of
                  (m, Some e) \<Rightarrow> (s\<lparr>fsp_streams := Some m\<rparr>, Inl e)
                | (m, None) \<Rightarrow> (s\<lparr>fsp_streams := Some m\<rparr>, Inr us))))"

definition fc_GetStreamInfo :: "'x file_storage \<Rightarrow> uuid \<Rightarrow> go_error + 'x stream_info" where
  "fc_GetStreamInfo s u =
     (case fc_find s u of Some info \<Rightarrow> Inr info | None \<Rightarrow> Inl (Error ''stream not found''))"

definition fc_StreamExists :: "'x file_storage \<Rightarrow> uuid \<Rightarrow> bool" where
  "fc_StreamExists s u = (case fc_find s u of Some info \<Rightarrow> True | None \<Rightarrow> False)"

definition fc_OnCreateStream :: "'x file_storage \<Rightarrow> uuid \<Rightarrow> 'x stream_info \<Rightarrow> go_error + 'x file_storage" where
  "fc_OnCreateStream s u info =
     (case fsp_streams s of
        None \<Rightarrow> Inl (Panic ''assignment to entry in nil map'')
      | Some m \<Rightarrow> Inr (s\<lparr>fsp_streams := Some (m(u \<mapsto> info))\<rparr>))"

definition fc_OnDeleteStream :: "'x file_storage \<Rightarrow> uuid \<Rightarrow> go_error + 'x file_storage" where
  "fc_OnDeleteStream s u = Inr (s\<lparr>fsp_streams := map_option (\<lambda>m. m(u := None)) (fsp_streams s)\<rparr>)"

interpretation file_cat: stream_catalog fc_find fc_OnCreateStream fc_OnDeleteStream
    fc_StreamExists fc_GetStreamInfo
proof unfold_locales
  show "fc_find c' = (fc_find c)(u \<mapsto> p)" if "fc_OnCreateStream c u p = Inr c'"
    for c c' :: "'x file_storage" and u p
    using that by (auto simp: fc_OnCreateStream_def fc_find_def split: option.splits)
  show "fc_find c' = (fc_find c)(u := None)" if "fc_OnDeleteStream c u = Inr c'"
    for c c' :: "'x file_storage" and u
    using that by (auto simp: fc_OnDeleteStream_def fc_find_def split: option.splits)
qed (auto simp: fc_StreamExists_def fc_GetStreamInfo_def split: option.splits)

section \<open>The provider\<close>

text \<open>\<open>mk\<close> is an error of \<^verbatim>\<open>os.MkdirAll\<close> on the data or the streams directory.\<close>

definition fsp_Init ::
    "(uuid list option \<Rightarrow> go_error + string) \<Rightarrow> go_error option \<Rightarrow> (nat \<times> go_error) option \<Rightarrow>
       'x file_storage \<Rightarrow> 'x file_storage \<times> go_error option" where
  "fsp_Init mc mk fault s = (case mk of Some e \<Rightarrow> (s, Some e) | None \<Rightarrow> fc_Init mc fault s)"

definition fsp_Stop :: "'x file_storage \<Rightarrow> 'x file_storage \<times> go_error option" where
  "fsp_Stop s = fc_Stop s"

definition fsp_StreamExists :: "'x file_storage \<Rightarrow> uuid \<Rightarrow> bool" where
  "fsp_StreamExists s u = fc_StreamExists s u"

definition fsp_GenerateNewStreamUuid :: "'x file_storage \<Rightarrow> uuid list \<Rightarrow> uuid option" where
  "fsp_GenerateNewStreamUuid s ds = fresh_uuid (fsp_StreamExists s) ds"

definition fsp_GetStreamInfo :: "'x file_storage \<Rightarrow> uuid \<Rightarrow> go_error + 'x stream_info" where
  "fsp_GetStreamInfo s u = fc_GetStreamInfo s u"

definition fsp_LoadStreamsFromUUIDs :: "'x file_storage \<Rightarrow> uuid list \<Rightarrow> go_error + 'x stream_info list" where
  "fsp_LoadStreamsFromUUIDs s us = collect (fsp_GetStreamInfo s) us"

definition fsp_LoadStreams ::
    "(string \<Rightarrow> go_error + uuid list) \<Rightarrow> (string \<Rightarrow> go_error + 'x stream_info) \<Rightarrow>
       'x file_storage \<Rightarrow> 'x file_storage \<times> (go_error + 'x stream_info list)" where
  "fsp_LoadStreams dc dji s =
     (case fc_LoadStreamCatalog dc dji s of
        (s', Inl e) \<Rightarrow> (s', Inl e)
      | (s', Inr us) \<Rightarrow> (s', fsp_LoadStreamsFromUUIDs s' us))"

definition fsp_SaveStreamCatalog ::
    "(uuid list option \<Rightarrow> go_error + string) \<Rightarrow> (nat \<times> go_error) option \<Rightarrow> uuid list \<Rightarrow>
       'x file_storage \<Rightarrow> 'x file_storage \<times> go_error option" where
  "fsp_SaveStreamCatalog mc fault ks s = fc_SaveStreamCatalog mc fault ks s"

definition fsp_OnCreateStream ::
    "go_error option \<Rightarrow> 'x file_storage \<Rightarrow> uuid \<Rightarrow> 'x stream_info \<Rightarrow> 'x file_storage \<times> go_error option" where
  "fsp_OnCreateStream mk s u info =
     (case mk of
        Some e \<Rightarrow> (s, Some e)
      | None \<Rightarrow>
          (let dirs = dk_dirs (fsp_disk s);
               s1 = s\<lparr>fsp_disk := (fsp_disk s)\<lparr>dk_dirs :=
                      (if dirs u = None then dirs(u \<mapsto> no_files) else dirs)\<rparr>\<rparr> in
           case fc_OnCreateStream s1 u info of Inl e \<Rightarrow> (s1, Some e) | Inr s2 \<Rightarrow> (s2, None)))"

text \<open>\<open>rm\<close> is an error of \<^verbatim>\<open>os.RemoveAll\<close>; what it had removed by then is not modelled.\<close>

definition fsp_DeleteStream ::
    "go_error option \<Rightarrow> 'x file_storage \<Rightarrow> uuid \<Rightarrow> 'x file_storage \<times> go_error option" where
  "fsp_DeleteStream rm s u =
     (case rm of
        Some e \<Rightarrow> (s, Some e)
      | None \<Rightarrow>
          (let s1 = s\<lparr>fsp_disk := (fsp_disk s)\<lparr>dk_dirs := (dk_dirs (fsp_disk s))(u := None)\<rparr>\<rparr> in
           case fc_OnDeleteStream s1 u of Inl e \<Rightarrow> (s1, Some e) | Inr s2 \<Rightarrow> (s2, None)))"

text \<open>
  The writer and the iterators of a stream work on the files of its directory. A writer is created
  without looking at the disk (\<open>no_files\<close> when the directory is missing); \<open>put_files\<close> shows the
  disk what a writer did.
\<close>

definition files_of :: "'x file_storage \<Rightarrow> uuid \<Rightarrow> stream_files" where
  "files_of s u = (case dk_dirs (fsp_disk s) u of None \<Rightarrow> no_files | Some f \<Rightarrow> f)"

definition put_files :: "uuid \<Rightarrow> file_writer \<Rightarrow> 'x file_storage \<Rightarrow> 'x file_storage" where
  "put_files u w s = s\<lparr>fsp_disk := (fsp_disk s)\<lparr>dk_dirs := (dk_dirs (fsp_disk s))(u \<mapsto> fw_files w)\<rparr>\<rparr>"

definition fsp_NewStreamWriter :: "'x file_storage \<Rightarrow> uuid \<Rightarrow> go_error + file_writer" where
  "fsp_NewStreamWriter s u = Inr (NewStreamWriterFile (files_of s u))"

text \<open>The name of the data file in a stream's directory.\<close>

definition data_filename :: string where
  "data_filename = ''data.jsonl''"

definition fsp_NewStreamIteratorHandler :: "'x file_storage \<Rightarrow> uuid \<Rightarrow> go_error + file_handler" where
  "fsp_NewStreamIteratorHandler s u = Inr (NewStreamIteratorHandlerFile data_filename)"

definition fsp_BuildIndex ::
    "('x deferred option \<Rightarrow> string \<Rightarrow> go_error + 'x deferred option) \<Rightarrow> 'x file_storage \<Rightarrow> uuid \<Rightarrow>
       'x file_storage \<times> (go_error + index_stats)" where
  "fsp_BuildIndex um s u =
     (case BuildIndex um (sf_data (files_of s u)) (sf_index (files_of s u)) of
        (idx, res) \<Rightarrow>
          (if dk_dirs (fsp_disk s) u = None then s
           else s\<lparr>fsp_disk := (fsp_disk s)\<lparr>dk_dirs := (dk_dirs (fsp_disk s))
                  (u \<mapsto> (files_of s u)\<lparr>sf_index := idx\<rparr>)\<rparr>\<rparr>, res))"

section \<open>Properties\<close>

lemma load_each_all:
  "(\<And>u. u \<in> set us \<Longrightarrow> ld u = Inr (f u)) \<Longrightarrow>
     load_each ld m us = (m ++ (\<lambda>u. if u \<in> set us then Some (f u) else None), None)"
proof (induction us arbitrary: m)
  case Nil
  then show ?case by (simp add: map_add_def)
next
  case (Cons u us)
  then have "load_each ld m (u # us) = load_each ld (m(u \<mapsto> f u)) us" by simp
  also have "\<dots> = (m(u \<mapsto> f u) ++ (\<lambda>v. if v \<in> set us then Some (f v) else None), None)"
    using Cons by simp
  also have "m(u \<mapsto> f u) ++ (\<lambda>v. if v \<in> set us then Some (f v) else None) =
      m ++ (\<lambda>v. if v \<in> set (u # us) then Some (f v) else None)"
    by (auto simp: map_add_def fun_eq_iff split: option.splits)
  finally show ?case .
qed

text \<open>
  The JSON library on catalogs and descriptions: decoding reads the first value of a text, so it
  gives back what was marshalled even when other text follows.
\<close>

definition json_docs_ok ::
    "(uuid list option \<Rightarrow> go_error + string) \<Rightarrow> (string \<Rightarrow> go_error + uuid list) \<Rightarrow>
       ('x stream_info \<Rightarrow> go_error + string) \<Rightarrow> (string \<Rightarrow> go_error + 'x stream_info) \<Rightarrow> bool" where
  "json_docs_ok mc dc mji dji \<longleftrightarrow>
     (\<forall>us s. mc (Some us) = Inr s \<longrightarrow> dc s = Inr us) \<and>
     (\<forall>i s junk. mji i = Inr s \<longrightarrow> dji (s @ junk) = Inr i)"


text \<open>A directory whose stream carries a stale tail behind the description, and a JSON library for it.\<close>

definition restart_info :: "nat stream_info" where
  "restart_info = NewStreamInfo 0 7"

definition restart_disk :: disk where
  "restart_disk = \<lparr>dk_catalog = None,
     dk_dirs = [7 \<mapsto> \<lparr>sf_data = Some [], sf_index = Some [], sf_meta = Some ''i}tail''\<rparr>]\<rparr>"

definition restart_mc :: "uuid list option \<Rightarrow> go_error + string" where
  "restart_mc us = (if us = Some [7] then Inr ''c'' else Inl (Error ''unused''))"

definition restart_dc :: "string \<Rightarrow> go_error + uuid list" where
  "restart_dc t = (if t = ''c'' then Inr [7] else Inl (Error ''syntax''))"

definition restart_mji :: "nat stream_info \<Rightarrow> go_error + string" where
  "restart_mji i = (if i = restart_info then Inr ''i'' else Inl (Error ''unused''))"

definition restart_dji :: "string \<Rightarrow> go_error + nat stream_info" where
  "restart_dji t = (if take 1 t = ''i'' then Inr restart_info else Inl (Error ''syntax''))"


end
