(* ===== verification/Ingest.thy ===== *)
theory Ingest
  imports Interfaces
begin

text \<open>
  The ingest buffer of a stream (buffering/streamingestbuffer.go): the channel between the
  producers and the stream's loop, the buffer of records that wait for the next bulk write, and
  the writer behind it.
\<close>

section \<open>The buffer\<close>

text \<open>
  The channel holds up to \<open>ib_channelSize\<close> records. A send on a full channel blocks: the record
  of the blocked sender stands behind the buffered ones in \<open>ib_channelMsg\<close>, which is then one
  longer than the capacity, until the loop receives from the front. (A channel of capacity 0 is
  the case where every send waits for its receiver.) The counter \<^verbatim>\<open>bufferedStateUpdates\<close> is
  written once with 0 and never read, and is left out.
\<close>

record ('x, 'w) ingest_buffer =
  ib_bulkFlushFrequency :: int
  ib_bulkMaxSize :: int
  ib_channelSize :: nat
  ib_channelMsg :: "'x deferred list"
  ib_msgBuffer :: "'x deferred list"
  ib_writer :: 'w

text \<open>\<^verbatim>\<open>make\<close> panics on a negative capacity.\<close>

definition NewStreamIngestBuffer :: "int \<Rightarrow> int \<Rightarrow> int \<Rightarrow> 'w \<Rightarrow> go_error + ('x, 'w) ingest_buffer" where
  "NewStreamIngestBuffer bulkFlushFrequency bulkMaxSize channelBufferSize writer =
     (if bulkMaxSize < 0 then Inl (Panic ''makeslice: cap out of range'')
      else if channelBufferSize < 0 then Inl (Panic ''makechan: size out of range'')
      else Inr \<lparr>ib_bulkFlushFrequency = bulkFlushFrequency, ib_bulkMaxSize = bulkMaxSize,
        ib_channelSize = nat channelBufferSize, ib_channelMsg = [], ib_msgBuffer = [],
        ib_writer = writer\<rparr>)"

text \<open>Whether the last send has completed.\<close>

definition ib_sent :: "('x, 'w) ingest_buffer \<Rightarrow> bool" where
  "ib_sent b \<longleftrightarrow> length (ib_channelMsg b) \<le> ib_channelSize b"

definition ib_PutMessage ::
    "u64 \<Rightarrow> time \<Rightarrow> 'x iface \<Rightarrow> ('x, 'w) ingest_buffer \<Rightarrow> ('x, 'w) ingest_buffer" where
  "ib_PutMessage msgId creationDate message b =
     b\<lparr>ib_channelMsg := ib_channelMsg b @
         [\<lparr>dr_Id = msgId, dr_CreationDate = creationDate, dr_Msg = message\<rparr>]\<rparr>"

definition AppendMesssage :: "'x deferred \<Rightarrow> ('x, 'w) ingest_buffer \<Rightarrow> ('x, 'w) ingest_buffer" where
  "AppendMesssage message b = b\<lparr>ib_msgBuffer := ib_msgBuffer b @ [message]\<rparr>"

definition IsFull :: "('x, 'w) ingest_buffer \<Rightarrow> bool" where
  "IsFull b \<longleftrightarrow> int (length (ib_msgBuffer b)) \<ge> ib_bulkMaxSize b"

definition ib_Clear :: "('x, 'w) ingest_buffer \<Rightarrow> ('x, 'w) ingest_buffer" where
  "ib_Clear b = b\<lparr>ib_msgBuffer := []\<rparr>"

text \<open>\<^verbatim>\<open>Save\<close> hands the whole buffer to the writer and clears it only when the write succeeds.\<close>

definition ib_Save ::
    "('x, 'w) write_op \<Rightarrow> 'x stream_info \<times> ('x, 'w) ingest_buffer \<Rightarrow>
       ('x stream_info \<times> ('x, 'w) ingest_buffer) \<times> go_error option" where
  "ib_Save wr ib =
     (case ib of (i, b) \<Rightarrow>
      (case wr (i, ib_writer b) (ib_msgBuffer b) of
         ((i', w'), Some e) \<Rightarrow> ((i', b\<lparr>ib_writer := w'\<rparr>), Some e)
       | ((i', w'), None) \<Rightarrow> ((i', ib_Clear (b\<lparr>ib_writer := w'\<rparr>)), None)))"

definition ib_Close ::
    "('w \<Rightarrow> 'w \<times> go_error option) \<Rightarrow> ('x, 'w) ingest_buffer \<Rightarrow> ('x, 'w) ingest_buffer \<times> go_error option"
where
  "ib_Close wclose b = (case wclose (ib_writer b) of (w', err) \<Rightarrow> (b\<lparr>ib_writer := w'\<rparr>, err))"

section \<open>Writers that can be closed\<close>

context closable_writer
begin

text \<open>
  A save either moves the whole buffer behind what is stored, or stores a prefix of it and keeps
  the buffer as it is.
\<close>

lemma Save_cases:
  assumes "holds (ib_writer b) old" and "ib_Save store (i, b) = ((i', b'), err)"
  obtains (saved) w' where "err = None" "b' = b\<lparr>ib_writer := w', ib_msgBuffer := []\<rparr>"
      "holds w' (old @ ib_msgBuffer b)"
    | (failed) w' k where "err \<noteq> None" "b' = b\<lparr>ib_writer := w'\<rparr>" "k \<le> length (ib_msgBuffer b)"
      "holds w' (old @ take k (ib_msgBuffer b))"
proof -
  obtain i1 w1 e where w: "store (i, ib_writer b) (ib_msgBuffer b) = ((i1, w1), e)"
    by (metis surj_pair)
  show thesis
  proof (cases e)
    case None
    with w assms saved [of w1] store_ok show thesis by (auto simp: ib_Save_def ib_Clear_def)
  next
    case (Some x)
    obtain k where "k \<le> length (ib_msgBuffer b)" "holds w1 (old @ take k (ib_msgBuffer b))"
      by (rule store_prefix [OF assms(1) w])
    with w assms Some failed [of w1] show thesis by (auto simp: ib_Save_def)
  qed
qed

lemma Save_frame:
  assumes "ib_Save store (i, b) = ((i', b'), err)"
  shows "IngestedMessages i' = IngestedMessages i" and "si_UUID i' = si_UUID i"
    and "ib_channelMsg b' = ib_channelMsg b" and "ib_channelSize b' = ib_channelSize b"
    and "ib_bulkMaxSize b' = ib_bulkMaxSize b" and "ib_bulkFlushFrequency b' = ib_bulkFlushFrequency b"
    and "err = None \<Longrightarrow> ib_msgBuffer b' = []" and "err \<noteq> None \<Longrightarrow> ib_msgBuffer b' = ib_msgBuffer b"
    and "si_Properties i' = si_Properties i"
proof -
  obtain i1 w1 e where w: "store (i, ib_writer b) (ib_msgBuffer b) = ((i1, w1), e)"
    by (metis surj_pair)
  note f = store_frame [OF w]
  from w f assms show "IngestedMessages i' = IngestedMessages i" "si_UUID i' = si_UUID i"
    "ib_channelMsg b' = ib_channelMsg b" "ib_channelSize b' = ib_channelSize b"
    "ib_bulkMaxSize b' = ib_bulkMaxSize b" "ib_bulkFlushFrequency b' = ib_bulkFlushFrequency b"
    "err = None \<Longrightarrow> ib_msgBuffer b' = []" "err \<noteq> None \<Longrightarrow> ib_msgBuffer b' = ib_msgBuffer b"
    "si_Properties i' = si_Properties i"
    by (auto simp: ib_Save_def ib_Clear_def split: option.splits)
qed

end

end
