(* ===== verification/Streams.thy ===== *)
theory Streams
  imports Ingest
begin

text \<open>
  A stream (stream/stream.go): its life cycle, its iterators, the ingestion of messages, and the
  goroutine \<^verbatim>\<open>Run\<close> that moves messages from the channel to the buffer and from the buffer to
  the writer. The operations are functions; their interleaving is the step relation
  \<open>stream_step\<close>. Iterators are values of the type variable \<open>'it\<close>.
\<close>

section \<open>State\<close>

datatype stream_state = STREAM_STATE_NONE | STREAM_STATE_STARTING | STREAM_STATE_RUNNING | STREAM_STATE_STOPPING

record ('x, 'w, 'it) stream =
  st_info :: "'x stream_info"
  st_iterators :: "uuid \<rightharpoonup> 'it"
  st_ingestBuffer :: "('x, 'w) ingest_buffer"
  st_doneClosed :: bool       \<comment> \<open>whether the channel \<open>done\<close> is closed\<close>
  st_state :: stream_state

definition NewStream :: "'x stream_info \<Rightarrow> ('x, 'w) ingest_buffer \<Rightarrow> ('x, 'w, 'it) stream" where
  "NewStream info ingestBuffer =
     \<lparr>st_info = info, st_iterators = Map.empty, st_ingestBuffer = ingestBuffer,
      st_doneClosed = False, st_state = STREAM_STATE_NONE\<rparr>"

definition setState :: "stream_state \<Rightarrow> ('x, 'w, 'it) stream \<Rightarrow> ('x, 'w, 'it) stream" where
  "setState state s = s\<lparr>st_state := state\<rparr>"

section \<open>Life cycle\<close>

text \<open>
  \<^verbatim>\<open>Start\<close> spawns the goroutine between the two changes of state; the step relation starts
  the loop in the same step.
\<close>

definition st_Start :: "('x, 'w, 'it) stream \<Rightarrow> go_error + ('x, 'w, 'it) stream" where
  "st_Start s =
     (if st_state s \<noteq> STREAM_STATE_NONE then Inl (Error ''stream state is already started'')
      else Inr (setState STREAM_STATE_RUNNING (setState STREAM_STATE_STARTING s)))"

text \<open>
  \<^verbatim>\<open>Close\<close> up to the point where it waits for the loop, and what it does once the loop has
  ended. Closing a channel that is already closed panics; \<^verbatim>\<open>done\<close> is made once, in
  \<^verbatim>\<open>NewStream\<close>.
\<close>

definition st_Close :: "('x, 'w, 'it) stream \<Rightarrow> go_error + ('x, 'w, 'it) stream" where
  "st_Close s =
     (if st_state s \<noteq> STREAM_STATE_RUNNING then Inl (Error ''stream state is not running'')
      else if st_doneClosed s then Inl (Panic ''close of closed channel'')
      else Inr ((setState STREAM_STATE_STOPPING s)\<lparr>st_doneClosed := True\<rparr>))"

definition st_Close_wait :: "('x, 'w, 'it) stream \<Rightarrow> ('x, 'w, 'it) stream" where
  "st_Close_wait s = setState STREAM_STATE_NONE s"

section \<open>Iterators\<close>

definition AddIterator :: "uuid \<Rightarrow> 'it \<Rightarrow> ('x, 'w, 'it) stream \<Rightarrow> go_error + ('x, 'w, 'it) stream" where
  "AddIterator itUUID it s =
     (if st_state s \<noteq> STREAM_STATE_RUNNING then Inl (Error ''stream state is not running'')
      else Inr (s\<lparr>st_iterators := (st_iterators s)(itUUID \<mapsto> it)\<rparr>))"

text \<open>
  \<open>close it\<close> closes one iterator. \<open>ks\<close> is the order in which the runtime visits the map. The
  loop returns at the first error and then keeps the map, with the iterators closed so far.
\<close>

fun close_each ::
    "('it \<Rightarrow> 'it \<times> go_error option) \<Rightarrow> (uuid \<rightharpoonup> 'it) \<Rightarrow> uuid list \<Rightarrow> (uuid \<rightharpoonup> 'it) \<times> go_error option"
where
  "close_each close its [] = (its, None)"
| "close_each close its (k # ks) =
     (case its k of
        None \<Rightarrow> close_each close its ks
      | Some it \<Rightarrow> (case close it of
          (it', Some e) \<Rightarrow> (its(k \<mapsto> it'), Some e)
        | (it', None) \<Rightarrow> close_each close (its(k \<mapsto> it')) ks))"

definition CloseIterators ::
    "('it \<Rightarrow> 'it \<times> go_error option) \<Rightarrow> uuid list \<Rightarrow> ('x, 'w, 'it) stream \<Rightarrow>
       ('x, 'w, 'it) stream \<times> go_error option" where
  "CloseIterators close ks s =
     (case close_each close (st_iterators s) ks of
        (its, Some e) \<Rightarrow> (s\<lparr>st_iterators := its\<rparr>, Some e)
      | (its, None) \<Rightarrow> (s\<lparr>st_iterators := Map.empty\<rparr>, None))"

definition CloseIterator ::
    "('it \<Rightarrow> 'it \<times> go_error option) \<Rightarrow> uuid \<Rightarrow> ('x, 'w, 'it) stream \<Rightarrow>
       ('x, 'w, 'it) stream \<times> go_error option" where
  "CloseIterator close iterUUID s =
     (case st_iterators s iterUUID of
        None \<Rightarrow> (s, Some (Error ''iterator not found''))
      | Some it \<Rightarrow> (case close it of
          (it', Some e) \<Rightarrow> (s\<lparr>st_iterators := (st_iterators s)(iterUUID \<mapsto> it')\<rparr>, Some e)
        | (it', None) \<Rightarrow> (s\<lparr>st_iterators := (st_iterators s)(iterUUID := None)\<rparr>, None)))"

definition GetIterator ::
    "(uuid \<Rightarrow> string) \<Rightarrow> uuid \<Rightarrow> ('x, 'w, 'it) stream \<Rightarrow> go_error + 'it" where
  "GetIterator show_uuid iterUUID s =
     (case st_iterators s iterUUID of
        None \<Rightarrow> Inl (Error (''iterator not found: '' @ show_uuid iterUUID)) | Some it \<Rightarrow> Inr it)"

definition GetIteratorsCount :: "('x, 'w, 'it) stream \<Rightarrow> nat" where
  "GetIteratorsCount s = card (dom (st_iterators s))"

text \<open>\<open>get it maxRecords\<close> is the iterator's own \<^verbatim>\<open>GetRecords\<close>, which changes the iterator.\<close>

definition st_GetRecords ::
    "('it \<Rightarrow> nat \<Rightarrow> 'it \<times> (go_error + 'resp)) \<Rightarrow> uuid \<Rightarrow> nat \<Rightarrow> ('x, 'w, 'it) stream \<Rightarrow>
       ('x, 'w, 'it) stream \<times> (go_error + 'resp)" where
  "st_GetRecords get iterUUID maxRecords s =
     (if st_state s \<noteq> STREAM_STATE_RUNNING then (s, Inl (Error ''stream state is not running''))
      else case st_iterators s iterUUID of
        None \<Rightarrow> (s, Inl (Error ''iterator not found''))
      | Some it \<Rightarrow> (case get it maxRecords of
          (it', r) \<Rightarrow> (s\<lparr>st_iterators := (st_iterators s)(iterUUID \<mapsto> it')\<rparr>, r)))"

section \<open>Properties of the stream\<close>

definition st_UpdateProperties ::
    "'x props option \<Rightarrow> ('x, 'w, 'it) stream \<Rightarrow> go_error + ('x, 'w, 'it) stream" where
  "st_UpdateProperties properties s =
     map_sum id (\<lambda>i. s\<lparr>st_info := i\<rparr>) (UpdateProperties properties (st_info s))"

definition st_SetProperties ::
    "'x props option \<Rightarrow> ('x, 'w, 'it) stream \<Rightarrow> go_error + ('x, 'w, 'it) stream" where
  "st_SetProperties properties s =
     map_sum id (\<lambda>i. s\<lparr>st_info := i\<rparr>) (SetProperties properties (st_info s))"

definition st_GetProperties :: "('x, 'w, 'it) stream \<Rightarrow> 'x props" where
  "st_GetProperties s = si_Properties (st_info s)"

definition st_MatchFilterProperties ::
    "('q \<Rightarrow> 'x props \<Rightarrow> 'x iface list) \<Rightarrow> 'q \<Rightarrow> ('x, 'w, 'it) stream \<Rightarrow> go_error + bool" where
  "st_MatchFilterProperties run jq s = MatchFilterProperties run jq (st_info s)"

definition GetUUID :: "('x, 'w, 'it) stream \<Rightarrow> uuid" where
  "GetUUID s = si_UUID (st_info s)"

section \<open>Ingestion\<close>

text \<open>
  The first message ever resets the ids; \<open>sz m\<close> is the length of the printed message. The
  counters change before the send, which may block.
\<close>

definition first_ingested :: "time \<Rightarrow> 'x stream_info \<Rightarrow> 'x stream_info" where
  "first_ingested now i =
     (if CptMessages (IngestedMessages i) = 0 then
        i\<lparr>IngestedMessages := (IngestedMessages i)
            \<lparr>FirstMsgId := 1, LastMsgId := 0, FirstMsgTimestamp := now\<rparr>\<rparr>
      else i)"

definition ingest_one ::
    "('x iface \<Rightarrow> u64) \<Rightarrow> time \<Rightarrow> 'x iface \<Rightarrow> 'x stream_info \<times> ('x, 'w) ingest_buffer \<Rightarrow>
       ('x stream_info \<times> ('x, 'w) ingest_buffer) \<times> u64" where
  "ingest_one sz now message ib =
     (case ib of (i, b) \<Rightarrow>
      (let g = IngestedMessages i;
           msgId = LastMsgId g + 1;
           g' = g\<lparr>LastMsgTimestamp := now, LastMsgId := msgId, CptMessages := CptMessages g + 1,
                  SizeInBytes := SizeInBytes g + sz message\<rparr>
       in ((i\<lparr>IngestedMessages := g'\<rparr>, ib_PutMessage msgId now message b), msgId)))"

text \<open>
  The loop of \<^verbatim>\<open>PutMessages\<close> when nothing else runs; \<open>None\<close> means that a send blocks, waiting
  for the goroutine to receive.
\<close>

fun put_all ::
    "('x iface \<Rightarrow> u64) \<Rightarrow> time \<Rightarrow> 'x stream_info \<times> ('x, 'w) ingest_buffer \<Rightarrow> 'x iface list \<Rightarrow>
       (('x stream_info \<times> ('x, 'w) ingest_buffer) \<times> u64 list) option" where
  "put_all sz now ib [] = Some (ib, [])"
| "put_all sz now ib (m # ms) =
     (case ingest_one sz now m ib of (ib', msgId) \<Rightarrow>
        if ib_sent (snd ib') then
          (case put_all sz now ib' ms of
             None \<Rightarrow> None | Some (ib'', msgIds) \<Rightarrow> Some (ib'', msgId # msgIds))
        else None)"

definition PutMessages ::
    "('x iface \<Rightarrow> u64) \<Rightarrow> time \<Rightarrow> 'x iface list \<Rightarrow> ('x, 'w, 'it) stream \<Rightarrow>
       (('x, 'w, 'it) stream \<times> (go_error + u64 list)) option" where
  "PutMessages sz now records s =
     (if st_state s \<noteq> STREAM_STATE_RUNNING then Some (s, Inl (Error ''stream state is not running''))
      else if records = [] then Some (s, Inl (Error ''no records to ingest''))
      else case put_all sz now (first_ingested now (st_info s), st_ingestBuffer s) records of
        None \<Rightarrow> None
      | Some ((i, b), msgIds) \<Rightarrow> Some (s\<lparr>st_info := i, st_ingestBuffer := b\<rparr>, Inr msgIds))"

definition PutMessage ::
    "('x iface \<Rightarrow> u64) \<Rightarrow> time \<Rightarrow> 'x iface \<Rightarrow> ('x, 'w, 'it) stream \<Rightarrow>
       (('x, 'w, 'it) stream \<times> (go_error + u64)) option" where
  "PutMessage sz now message s =
     (if st_state s \<noteq> STREAM_STATE_RUNNING then Some (s, Inl (Error ''stream state is not running''))
      else case ingest_one sz now message (first_ingested now (st_info s), st_ingestBuffer s) of
        ((i, b), msgId) \<Rightarrow>
          if ib_sent b then Some (s\<lparr>st_info := i, st_ingestBuffer := b\<rparr>, Inr msgId) else None)"

section \<open>The branches of the loop\<close>

definition st_Save ::
    "('x, 'w) write_op \<Rightarrow> ('x, 'w, 'it) stream \<Rightarrow> ('x, 'w, 'it) stream \<times> go_error option" where
  "st_Save wr s =
     (case ib_Save wr (st_info s, st_ingestBuffer s) of
        ((i, b), err) \<Rightarrow> (s\<lparr>st_info := i, st_ingestBuffer := b\<rparr>, err))"

text \<open>A failed save is only logged: its error is returned here for the history of a run.\<close>

definition bufferizeMessage ::
    "('x, 'w) write_op \<Rightarrow> 'x deferred \<Rightarrow> bool \<Rightarrow> ('x, 'w, 'it) stream \<Rightarrow>
       ('x, 'w, 'it) stream \<times> go_error option" where
  "bufferizeMessage wr msg immediateSave s =
     (let s' = s\<lparr>st_ingestBuffer := AppendMesssage msg (st_ingestBuffer s)\<rparr> in
      if immediateSave \<or> IsFull (st_ingestBuffer s') then st_Save wr s' else (s', None))"

definition deferred_mode :: "('x, 'w, 'it) stream \<Rightarrow> bool" where
  "deferred_mode s \<longleftrightarrow> ib_bulkFlushFrequency (st_ingestBuffer s) > 0"

text \<open>Receiving the message at the front of the channel.\<close>

definition run_message ::
    "('x, 'w) write_op \<Rightarrow> ('x, 'w, 'it) stream \<Rightarrow> ('x, 'w, 'it) stream \<times> go_error option" where
  "run_message wr s =
     (case ib_channelMsg (st_ingestBuffer s) of
        [] \<Rightarrow> (s, None)
      | r # rs \<Rightarrow> bufferizeMessage wr r (\<not> deferred_mode s)
          (s\<lparr>st_ingestBuffer := (st_ingestBuffer s)\<lparr>ib_channelMsg := rs\<rparr>\<rparr>))"

text \<open>
  The branch \<^verbatim>\<open>case <-s.done\<close>: save, close the writer, close the iterators, end. Every error is
  only logged.
\<close>

definition run_done ::
    "('x, 'w) write_op \<Rightarrow> ('w \<Rightarrow> 'w \<times> go_error option) \<Rightarrow> ('it \<Rightarrow> 'it \<times> go_error option) \<Rightarrow>
       uuid list \<Rightarrow> ('x, 'w, 'it) stream \<Rightarrow> ('x, 'w, 'it) stream \<times> go_error option" where
  "run_done wr wclose itclose ks s =
     (case st_Save wr s of (s1, err) \<Rightarrow>
      (case ib_Close wclose (st_ingestBuffer s1) of (b, _) \<Rightarrow>
       (case CloseIterators itclose ks (s1\<lparr>st_ingestBuffer := b\<rparr>) of (s2, _) \<Rightarrow> (s2, err))))"

end
