(* ===== verification/StreamRun.thy ===== *)
theory StreamRun
  imports Streams InMemory
begin

text \<open>
  The concurrent life of a stream: producers that call \<^verbatim>\<open>PutMessages\<close>, the goroutine
  \<^verbatim>\<open>Run\<close>, its flush timer, and the calls that start and close the stream, interleaved
  step by step. The invariants say where every accepted message is.
\<close>

section \<open>The running stream\<close>

text \<open>
  \<open>pr_loop\<close>: the goroutine runs; \<open>pr_timer\<close>: its variable \<^verbatim>\<open>flushC\<close> is not nil;
  \<open>pr_waiting\<close>: calls that passed the check of the state and wait for \<^verbatim>\<open>muIncMsgId\<close>;
  \<open>pr_batch\<close>: the call that holds the mutex, with its time and its remaining messages.
  Two history variables observe the run without influencing it: \<open>pr_accepted\<close> lists the
  records sent so far, \<open>pr_clean\<close> says that no save has failed.
\<close>

record ('x, 'w, 'it) proc =
  pr_stream :: "('x, 'w, 'it) stream"
  pr_loop :: bool
  pr_timer :: bool
  pr_waiting :: "'x iface list list"
  pr_batch :: "(time \<times> 'x iface list) option"
  pr_accepted :: "'x deferred list"
  pr_clean :: bool

definition new_proc :: "'x stream_info \<Rightarrow> ('x, 'w) ingest_buffer \<Rightarrow> ('x, 'w, 'it) proc" where
  "new_proc info b = \<lparr>pr_stream = NewStream info b, pr_loop = False, pr_timer = False,
     pr_waiting = [], pr_batch = None, pr_accepted = [], pr_clean = True\<rparr>"

abbreviation pr_buf :: "('x, 'w, 'it) proc \<Rightarrow> ('x, 'w) ingest_buffer" where
  "pr_buf p \<equiv> st_ingestBuffer (pr_stream p)"

abbreviation pr_info :: "('x, 'w, 'it) proc \<Rightarrow> 'x stream_info" where
  "pr_info p \<equiv> st_info (pr_stream p)"

text \<open>Sending the next message of the call that holds the mutex.\<close>

definition send_step ::
    "('x iface \<Rightarrow> u64) \<Rightarrow> time \<Rightarrow> 'x iface \<Rightarrow> 'x iface list \<Rightarrow> ('x, 'w, 'it) proc \<Rightarrow> ('x, 'w, 'it) proc"
where
  "send_step sz now m ms p =
     (case ingest_one sz now m (pr_info p, pr_buf p) of
        ((i, b), msgId) \<Rightarrow>
          p\<lparr>pr_stream := (pr_stream p)\<lparr>st_info := i, st_ingestBuffer := b\<rparr>,
            pr_batch := Some (now, ms),
            pr_accepted := pr_accepted p @ [\<lparr>dr_Id = msgId, dr_CreationDate = now, dr_Msg = m\<rparr>]\<rparr>)"

inductive stream_step ::
    "('x, 'w) write_op \<Rightarrow> ('w \<Rightarrow> 'w \<times> go_error option) \<Rightarrow> ('it \<Rightarrow> 'it \<times> go_error option) \<Rightarrow>
       ('x iface \<Rightarrow> u64) \<Rightarrow> ('x, 'w, 'it) proc \<Rightarrow> ('x, 'w, 'it) proc \<Rightarrow> bool"
  for wr wclose itclose sz
where
  step_start: "st_Start (pr_stream p) = Inr s \<Longrightarrow>
     stream_step wr wclose itclose sz p (p\<lparr>pr_stream := s, pr_loop := True, pr_timer := False\<rparr>)"
| step_call: "st_state (pr_stream p) = STREAM_STATE_RUNNING \<Longrightarrow> records \<noteq> [] \<Longrightarrow>
     stream_step wr wclose itclose sz p (p\<lparr>pr_waiting := records # pr_waiting p\<rparr>)"
| step_lock: "pr_batch p = None \<Longrightarrow> records \<in> set (pr_waiting p) \<Longrightarrow>
     stream_step wr wclose itclose sz p
       (p\<lparr>pr_waiting := remove1 records (pr_waiting p), pr_batch := Some (now, records),
          pr_stream := (pr_stream p)\<lparr>st_info := first_ingested now (pr_info p)\<rparr>\<rparr>)"
| step_send: "pr_batch p = Some (now, m # ms) \<Longrightarrow> ib_sent (pr_buf p) \<Longrightarrow>
     stream_step wr wclose itclose sz p (send_step sz now m ms p)"
| step_return: "pr_batch p = Some (now, []) \<Longrightarrow> ib_sent (pr_buf p) \<Longrightarrow>
     stream_step wr wclose itclose sz p (p\<lparr>pr_batch := None\<rparr>)"
| step_receive: "pr_loop p \<Longrightarrow> ib_channelMsg (pr_buf p) \<noteq> [] \<Longrightarrow>
     run_message wr (pr_stream p) = (s, err) \<Longrightarrow>
     stream_step wr wclose itclose sz p
       (p\<lparr>pr_stream := s, pr_timer := pr_timer p \<or> deferred_mode (pr_stream p),
          pr_clean := (pr_clean p \<and> err = None)\<rparr>)"
| step_flush: "pr_loop p \<Longrightarrow> pr_timer p \<Longrightarrow> st_Save wr (pr_stream p) = (s, err) \<Longrightarrow>
     stream_step wr wclose itclose sz p
       (p\<lparr>pr_stream := s, pr_timer := False, pr_clean := (pr_clean p \<and> err = None)\<rparr>)"
| step_close: "st_Close (pr_stream p) = Inr s \<Longrightarrow>
     stream_step wr wclose itclose sz p (p\<lparr>pr_stream := s\<rparr>)"
| step_done: "pr_loop p \<Longrightarrow> st_doneClosed (pr_stream p) \<Longrightarrow>
     run_done wr wclose itclose ks (pr_stream p) = (s, err) \<Longrightarrow>
     stream_step wr wclose itclose sz p
       (p\<lparr>pr_stream := s, pr_loop := False, pr_timer := False,
          pr_clean := (pr_clean p \<and> err = None)\<rparr>)"
| step_closed: "st_state (pr_stream p) = STREAM_STATE_STOPPING \<Longrightarrow> \<not> pr_loop p \<Longrightarrow>
     stream_step wr wclose itclose sz p (p\<lparr>pr_stream := st_Close_wait (pr_stream p)\<rparr>)"
| step_iterators:
     "stream_step wr wclose itclose sz p (p\<lparr>pr_stream := (pr_stream p)\<lparr>st_iterators := its\<rparr>\<rparr>)"
| step_properties:
     "stream_step wr wclose itclose sz p
       (p\<lparr>pr_stream := (pr_stream p)\<lparr>st_info := (pr_info p)\<lparr>si_Properties := props\<rparr>\<rparr>\<rparr>)"

text \<open>What a run can reach from a stream as \<^verbatim>\<open>NewStream\<close> makes it.\<close>

inductive stream_run for wr wclose itclose sz info b where
  run_new: "stream_run wr wclose itclose sz info b (new_proc info b)"
| run_step: "stream_run wr wclose itclose sz info b p \<Longrightarrow> stream_step wr wclose itclose sz p q \<Longrightarrow>
     stream_run wr wclose itclose sz info b q"

inductive_cases stream_stepE: "stream_step wr wclose itclose sz p q"

section \<open>Where the accepted messages are\<close>

text \<open>
  The records that arrive from the producers have consecutive ids, counted from the number
  \<open>n0\<close> of messages the stream had ingested before, and the counters of the description follow.
\<close>

definition numbered :: "nat \<Rightarrow> ('x, 'w, 'it) proc \<Rightarrow> bool" where
  "numbered n0 p \<longleftrightarrow>
     (let n = n0 + length (pr_accepted p); g = IngestedMessages (pr_info p) in
      map dr_Id (pr_accepted p) = map of_nat [Suc n0..<Suc n] \<and> CptMessages g = of_nat n \<and>
      LastMsgId g = of_nat n)"

text \<open>
  \<open>located holds base old b acc clean\<close>: behind what it held at first (\<open>base\<close>), the storage
  holds \<open>old\<close>; as a set, the accepted records \<open>acc\<close> are those stored, buffered or in the
  channel; and when no save has failed they are so in this order, each once.
\<close>

definition located ::
    "('w \<Rightarrow> 'x deferred list \<Rightarrow> bool) \<Rightarrow> 'x deferred list \<Rightarrow> 'x deferred list \<Rightarrow>
       ('x, 'w) ingest_buffer \<Rightarrow> 'x deferred list \<Rightarrow> bool \<Rightarrow> bool" where
  "located holds base old b acc clean \<longleftrightarrow>
     holds (ib_writer b) (base @ old) \<and>
     set acc = set old \<union> set (ib_msgBuffer b) \<union> set (ib_channelMsg b) \<and>
     (clean \<longrightarrow> acc = old @ ib_msgBuffer b @ ib_channelMsg b)"

definition placed ::
    "('w \<Rightarrow> 'x deferred list \<Rightarrow> bool) \<Rightarrow> 'x deferred list \<Rightarrow> ('x, 'w, 'it) proc \<Rightarrow> bool" where
  "placed holds base p \<longleftrightarrow>
     (\<exists>old. located holds base old (pr_buf p) (pr_accepted p) (pr_clean p))"

text \<open>
  The bounds: the channel holds at most one record more than its capacity (that of a blocked
  sender); unless a save failed the buffer stays below the bulk size, is empty when every message
  is written at once, and otherwise a timer is running while it is not empty.
\<close>

definition bounded :: "('x, 'w) ingest_buffer \<Rightarrow> ('x, 'w, 'it) proc \<Rightarrow> bool" where
  "bounded b0 p \<longleftrightarrow>
     (let b = pr_buf p in
      ib_channelSize b = ib_channelSize b0 \<and> ib_bulkMaxSize b = ib_bulkMaxSize b0 \<and>
      ib_bulkFlushFrequency b = ib_bulkFlushFrequency b0 \<and>
      length (ib_channelMsg b) \<le> ib_channelSize b + 1 \<and>
      (st_state (pr_stream p) = STREAM_STATE_RUNNING \<longrightarrow> pr_loop p \<or> st_doneClosed (pr_stream p)) \<and>
      (st_state (pr_stream p) = STREAM_STATE_NONE \<longrightarrow> \<not> pr_loop p) \<and>
      st_state (pr_stream p) \<noteq> STREAM_STATE_STARTING \<and>
      (pr_clean p \<longrightarrow>
         (ib_msgBuffer b = [] \<or> int (length (ib_msgBuffer b)) < ib_bulkMaxSize b \<and>
            deferred_mode (pr_stream p) \<and> pr_loop p \<and> pr_timer p)))"


section \<open>Every step keeps them\<close>

lemmas step_defs = st_Start_def st_Close_def st_Close_wait_def setState_def run_message_def
  bufferizeMessage_def run_done_def st_Save_def CloseIterators_def ib_Close_def send_step_def
  ingest_one_def ib_PutMessage_def AppendMesssage_def first_ingested_def deferred_mode_def Let_def

lemma located_push:
  "located holds base old b acc clean \<Longrightarrow>
     located holds base old (b\<lparr>ib_channelMsg := ib_channelMsg b @ [r]\<rparr>) (acc @ [r]) clean"
  by (auto simp: located_def)

lemma located_receive:
  "located holds base old b acc clean \<Longrightarrow> ib_channelMsg b = r # rs \<Longrightarrow>
     located holds base old (AppendMesssage r (b\<lparr>ib_channelMsg := rs\<rparr>)) acc clean"
  by (auto simp: located_def AppendMesssage_def)

context closable_writer
begin

lemma located_Save:
  assumes "located holds base old b acc clean" and "ib_Save store (i, b) = ((i', b'), err)"
  shows "\<exists>old'. located holds base old' b' acc (clean \<and> err = None)"
proof -
  have h: "holds (ib_writer b) (base @ old)" using assms(1) by (simp add: located_def)
  show ?thesis
  proof (cases rule: Save_cases [OF h assms(2)])
    case (1 w')
    with assms(1) show ?thesis by (intro exI [of _ "old @ ib_msgBuffer b"]) (auto simp: located_def)
  next
    case (2 w' k)
    have "set (take k (ib_msgBuffer b)) \<subseteq> set (ib_msgBuffer b)" by (rule set_take_subset)
    with 2 assms(1) show ?thesis
      by (intro exI [of _ "old @ take k (ib_msgBuffer b)"]) (auto simp: located_def)
  qed
qed

lemma located_close:
  "located holds base old b acc clean \<Longrightarrow> ib_Close wclose b = (b', err) \<Longrightarrow>
     located holds base old b' acc clean"
  using close_keeps by (auto simp: located_def ib_Close_def split: prod.splits)

lemma located_st_Save:
  "located holds base old (st_ingestBuffer s) acc clean \<Longrightarrow> st_Save store s = (s', err) \<Longrightarrow>
     \<exists>old'. located holds base old' (st_ingestBuffer s') acc (clean \<and> err = None)"
  by (auto simp: st_Save_def split: prod.splits dest: located_Save)

lemma located_run_message:
  assumes "located holds base old (st_ingestBuffer s) acc clean" and "run_message store s = (s', err)"
    and "ib_channelMsg (st_ingestBuffer s) \<noteq> []"
  shows "\<exists>old'. located holds base old' (st_ingestBuffer s') acc (clean \<and> err = None)"
proof -
  obtain r rs where c: "ib_channelMsg (st_ingestBuffer s) = r # rs"
    using assms(3) by (cases "ib_channelMsg (st_ingestBuffer s)") auto
  let ?s = "s\<lparr>st_ingestBuffer := AppendMesssage r ((st_ingestBuffer s)\<lparr>ib_channelMsg := rs\<rparr>)\<rparr>"
  have l: "located holds base old (st_ingestBuffer ?s) acc clean"
    using located_receive [OF assms(1) c] by simp
  from assms(2) c have "st_Save store ?s = (s', err) \<or> s' = ?s \<and> err = None"
    by (auto simp: run_message_def bufferizeMessage_def Let_def split: if_splits)
  with l located_st_Save [OF l] show ?thesis by auto
qed

lemma CloseIterators_buffer [simp]:
  "CloseIterators itclose ks s = (s', err) \<Longrightarrow> st_ingestBuffer s' = st_ingestBuffer s"
  "CloseIterators itclose ks s = (s', err) \<Longrightarrow> st_info s' = st_info s"
  "CloseIterators itclose ks s = (s', err) \<Longrightarrow> st_state s' = st_state s"
  "CloseIterators itclose ks s = (s', err) \<Longrightarrow> st_doneClosed s' = st_doneClosed s"
  by (auto simp: CloseIterators_def split: prod.splits option.splits)

lemma located_run_done:
  assumes "located holds base old (st_ingestBuffer s) acc clean"
    and "run_done store wclose itclose ks s = (s', err)"
  shows "\<exists>old'. located holds base old' (st_ingestBuffer s') acc (clean \<and> err = None)"
proof -
  obtain s1 where s1: "st_Save store s = (s1, err)"
    using assms(2) by (auto simp: run_done_def split: prod.splits)
  obtain b e where b: "ib_Close wclose (st_ingestBuffer s1) = (b, e)" by fastforce
  from assms(2) s1 b have "st_ingestBuffer s' = b"
    by (auto simp: run_done_def split: prod.splits)
  with located_st_Save [OF assms(1) s1] located_close [OF _ b] show ?thesis by blast
qed

lemma placed_step:
  assumes "stream_step store wclose itclose sz p q" and "placed holds base p"
  shows "placed holds base q"
proof -
  obtain old where l: "located holds base old (pr_buf p) (pr_accepted p) (pr_clean p)"
    using assms(2) by (auto simp: placed_def)
  from assms(1) show ?thesis
  proof cases
    case (step_send now m ms)
    with located_push [OF l] assms(2) show ?thesis
      by (auto simp: placed_def send_step_def ingest_one_def ib_PutMessage_def Let_def)
  next
    case (step_receive s err)
    with located_run_message [OF l] show ?thesis by (auto simp: placed_def)
  next
    case (step_flush s err)
    with located_st_Save [OF l] show ?thesis by (auto simp: placed_def)
  next
    case (step_done ks s err)
    with located_run_done [OF l] show ?thesis by (auto simp: placed_def)
  qed (use assms(2) in \<open>auto simp: placed_def st_Start_def st_Close_def st_Close_wait_def setState_def split: if_splits\<close>)
qed

text \<open>What the branches of the loop leave alone.\<close>

lemma st_Save_frame:
  assumes "st_Save store s = (s', err)"
  shows "IngestedMessages (st_info s') = IngestedMessages (st_info s)"
    and "ib_channelMsg (st_ingestBuffer s') = ib_channelMsg (st_ingestBuffer s)"
    and "ib_channelSize (st_ingestBuffer s') = ib_channelSize (st_ingestBuffer s)"
    and "ib_bulkMaxSize (st_ingestBuffer s') = ib_bulkMaxSize (st_ingestBuffer s)"
    and "ib_bulkFlushFrequency (st_ingestBuffer s') = ib_bulkFlushFrequency (st_ingestBuffer s)"
    and "err = None \<Longrightarrow> ib_msgBuffer (st_ingestBuffer s') = []"
    and "err \<noteq> None \<Longrightarrow> ib_msgBuffer (st_ingestBuffer s') = ib_msgBuffer (st_ingestBuffer s)"
    and "st_state s' = st_state s" and "st_doneClosed s' = st_doneClosed s"
proof -
  obtain i b where sv: "ib_Save store (st_info s, st_ingestBuffer s) = ((i, b), err)"
    and s': "s' = s\<lparr>st_info := i, st_ingestBuffer := b\<rparr>"
    using assms by (auto simp: st_Save_def split: prod.splits)
  note f = Save_frame [OF sv]
  from f s' show "IngestedMessages (st_info s') = IngestedMessages (st_info s)"
    "ib_channelMsg (st_ingestBuffer s') = ib_channelMsg (st_ingestBuffer s)"
    "ib_channelSize (st_ingestBuffer s') = ib_channelSize (st_ingestBuffer s)"
    "ib_bulkMaxSize (st_ingestBuffer s') = ib_bulkMaxSize (st_ingestBuffer s)"
    "ib_bulkFlushFrequency (st_ingestBuffer s') = ib_bulkFlushFrequency (st_ingestBuffer s)"
    "err = None \<Longrightarrow> ib_msgBuffer (st_ingestBuffer s') = []"
    "err \<noteq> None \<Longrightarrow> ib_msgBuffer (st_ingestBuffer s') = ib_msgBuffer (st_ingestBuffer s)"
    "st_state s' = st_state s" "st_doneClosed s' = st_doneClosed s"
    by simp_all
qed

lemma run_message_frame:
  assumes "run_message store s = (s', err)" and "ib_channelMsg (st_ingestBuffer s) = r # rs"
  shows "IngestedMessages (st_info s') = IngestedMessages (st_info s)"
    and "ib_channelMsg (st_ingestBuffer s') = rs"
    and "ib_channelSize (st_ingestBuffer s') = ib_channelSize (st_ingestBuffer s)"
    and "ib_bulkMaxSize (st_ingestBuffer s') = ib_bulkMaxSize (st_ingestBuffer s)"
    and "ib_bulkFlushFrequency (st_ingestBuffer s') = ib_bulkFlushFrequency (st_ingestBuffer s)"
    and "err = None \<Longrightarrow> ib_msgBuffer (st_ingestBuffer s') = [] \<or> deferred_mode s \<and>
           int (length (ib_msgBuffer (st_ingestBuffer s'))) < ib_bulkMaxSize (st_ingestBuffer s)"
    and "st_state s' = st_state s" and "st_doneClosed s' = st_doneClosed s"
proof -
  let ?s = "s\<lparr>st_ingestBuffer := AppendMesssage r ((st_ingestBuffer s)\<lparr>ib_channelMsg := rs\<rparr>)\<rparr>"
  have c: "st_Save store ?s = (s', err) \<or> s' = ?s \<and> err = None \<and> deferred_mode s \<and>
      int (length (ib_msgBuffer (st_ingestBuffer ?s))) < ib_bulkMaxSize (st_ingestBuffer s)"
    using assms
    by (auto simp: run_message_def bufferizeMessage_def Let_def IsFull_def AppendMesssage_def
             split: if_splits)
  have p: "ib_channelMsg (st_ingestBuffer ?s) = rs"
    "ib_channelSize (st_ingestBuffer ?s) = ib_channelSize (st_ingestBuffer s)"
    "ib_bulkMaxSize (st_ingestBuffer ?s) = ib_bulkMaxSize (st_ingestBuffer s)"
    "ib_bulkFlushFrequency (st_ingestBuffer ?s) = ib_bulkFlushFrequency (st_ingestBuffer s)"
    by (simp_all add: AppendMesssage_def)
  from c p st_Save_frame [of ?s s' err]
  show "IngestedMessages (st_info s') = IngestedMessages (st_info s)"
    "ib_channelMsg (st_ingestBuffer s') = rs"
    "ib_channelSize (st_ingestBuffer s') = ib_channelSize (st_ingestBuffer s)"
    "ib_bulkMaxSize (st_ingestBuffer s') = ib_bulkMaxSize (st_ingestBuffer s)"
    "ib_bulkFlushFrequency (st_ingestBuffer s') = ib_bulkFlushFrequency (st_ingestBuffer s)"
    "err = None \<Longrightarrow> ib_msgBuffer (st_ingestBuffer s') = [] \<or> deferred_mode s \<and>
           int (length (ib_msgBuffer (st_ingestBuffer s'))) < ib_bulkMaxSize (st_ingestBuffer s)"
    "st_state s' = st_state s" "st_doneClosed s' = st_doneClosed s"
    by auto
qed

lemma run_done_frame:
  assumes "run_done store wclose itclose ks s = (s', err)"
  shows "IngestedMessages (st_info s') = IngestedMessages (st_info s)"
    and "ib_channelMsg (st_ingestBuffer s') = ib_channelMsg (st_ingestBuffer s)"
    and "ib_channelSize (st_ingestBuffer s') = ib_channelSize (st_ingestBuffer s)"
    and "ib_bulkMaxSize (st_ingestBuffer s') = ib_bulkMaxSize (st_ingestBuffer s)"
    and "ib_bulkFlushFrequency (st_ingestBuffer s') = ib_bulkFlushFrequency (st_ingestBuffer s)"
    and "err = None \<Longrightarrow> ib_msgBuffer (st_ingestBuffer s') = []"
    and "st_state s' = st_state s" and "st_doneClosed s' = st_doneClosed s"
proof -
  obtain s1 where s1: "st_Save store s = (s1, err)"
    using assms by (auto simp: run_done_def split: prod.splits)
  obtain w e where w: "wclose (ib_writer (st_ingestBuffer s1)) = (w, e)" by fastforce
  from assms s1 w obtain e2 where
    "CloseIterators itclose ks (s1\<lparr>st_ingestBuffer := (st_ingestBuffer s1)\<lparr>ib_writer := w\<rparr>\<rparr>) = (s', e2)"
    by (auto simp: run_done_def ib_Close_def split: prod.splits)
  note c = CloseIterators_buffer [OF this]
  from c st_Save_frame [OF s1]
  show "IngestedMessages (st_info s') = IngestedMessages (st_info s)"
    "ib_channelMsg (st_ingestBuffer s') = ib_channelMsg (st_ingestBuffer s)"
    "ib_channelSize (st_ingestBuffer s') = ib_channelSize (st_ingestBuffer s)"
    "ib_bulkMaxSize (st_ingestBuffer s') = ib_bulkMaxSize (st_ingestBuffer s)"
    "ib_bulkFlushFrequency (st_ingestBuffer s') = ib_bulkFlushFrequency (st_ingestBuffer s)"
    "err = None \<Longrightarrow> ib_msgBuffer (st_ingestBuffer s') = []"
    "st_state s' = st_state s" "st_doneClosed s' = st_doneClosed s"
    by simp_all
qed

lemma numbered_step:
  assumes "stream_step store wclose itclose sz p q" and "numbered n0 p"
    and "n0 + length (pr_accepted q) < 2 ^ 64"
  shows "numbered n0 q"
  using assms(1)
proof cases
  case (step_lock records now)
  have "n0 + length (pr_accepted p) < 2 ^ 64" using assms(3) step_lock by simp
  then have "(of_nat (n0 + length (pr_accepted p)) :: u64) = 0 \<longleftrightarrow> n0 + length (pr_accepted p) = 0"
    using of_nat_u64_inj [of "n0 + length (pr_accepted p)" 0] by simp
  with assms(2) step_lock show ?thesis by (auto simp: numbered_def first_ingested_def Let_def)
next
  case (step_send now m ms)
  with assms(2) show ?thesis
    by (auto simp: numbered_def send_step_def ingest_one_def ib_PutMessage_def Let_def algebra_simps)
next
  case (step_receive s err)
  then obtain r rs where "ib_channelMsg (pr_buf p) = r # rs" by (cases "ib_channelMsg (pr_buf p)") auto
  with step_receive run_message_frame [of "pr_stream p" s err r rs] assms(2)
  show ?thesis by (auto simp: numbered_def)
next
  case (step_flush s err)
  with st_Save_frame [of "pr_stream p" s err] assms(2) show ?thesis by (auto simp: numbered_def)
next
  case (step_done ks s err)
  with run_done_frame [of itclose ks "pr_stream p" s err] assms(2) show ?thesis by (auto simp: numbered_def)
qed (use assms(2) in \<open>auto simp: numbered_def st_Start_def st_Close_def st_Close_wait_def setState_def split: if_splits\<close>)

lemma accepted_grows:
  "stream_step store wclose itclose sz p q \<Longrightarrow> length (pr_accepted p) \<le> length (pr_accepted q)"
  by (induction rule: stream_step.induct) (auto simp: send_step_def split: prod.splits)

lemma bounded_step:
  assumes "stream_step store wclose itclose sz p q" and "bounded b0 p"
  shows "bounded b0 q"
  using assms(1)
proof cases
  case (step_send now m ms)
  with assms(2) show ?thesis
    by (auto simp: bounded_def send_step_def ingest_one_def ib_PutMessage_def ib_sent_def
        deferred_mode_def Let_def)
next
  case (step_receive s err)
  then obtain r rs where c: "ib_channelMsg (pr_buf p) = r # rs"
    by (cases "ib_channelMsg (pr_buf p)") auto
  note f = run_message_frame [OF step_receive(4) c]
  from step_receive f c assms(2) show ?thesis
    by (auto simp: bounded_def deferred_mode_def Let_def)
next
  case (step_flush s err)
  with st_Save_frame [of "pr_stream p" s err] assms(2) show ?thesis
    by (auto simp: bounded_def deferred_mode_def Let_def)
next
  case (step_done ks s err)
  with run_done_frame [of itclose ks "pr_stream p" s err] assms(2) show ?thesis
    by (auto simp: bounded_def deferred_mode_def Let_def)
qed (use assms(2) in \<open>auto simp: bounded_def deferred_mode_def Let_def first_ingested_def st_Start_def
       st_Close_def st_Close_wait_def setState_def split: if_splits\<close>)

text \<open>Along a whole run.\<close>

lemma run_invariants:
  assumes "stream_run store wclose itclose sz info b p"
    and "holds (ib_writer b) base" and "ib_channelMsg b = []" and "ib_msgBuffer b = []"
  shows "placed holds base p \<and> bounded b p"
  using assms(1)
proof (induction rule: stream_run.induct)
  case run_new
  with assms(2-4) show ?case
    by (auto simp: placed_def located_def bounded_def new_proc_def NewStream_def Let_def intro!: exI [of _ "[]"])
next
  case (run_step p q)
  then show ?case using placed_step bounded_step by blast
qed

lemma run_numbered:
  assumes "stream_run store wclose itclose sz info b p"
    and "CptMessages (IngestedMessages info) = of_nat n0" and "LastMsgId (IngestedMessages info) = of_nat n0"
  shows "n0 + length (pr_accepted p) < 2 ^ 64 \<Longrightarrow> numbered n0 p"
  using assms(1)
proof (induction rule: stream_run.induct)
  case run_new
  with assms(2,3) show ?case by (simp add: numbered_def new_proc_def NewStream_def)
next
  case (run_step p q)
  with accepted_grows [OF run_step(2)] numbered_step [OF run_step(2)] show ?case by simp
qed

end

section \<open>A stream in memory\<close>

text \<open>
  The properties of a run, over the writer of the in-memory provider. \<open>im_run\<close> is a run of a
  new stream that ingested \<open>n0\<close> messages in an earlier life and whose storage holds \<open>base\<close>.
\<close>

definition im_run ::
    "('x iface \<Rightarrow> u64) \<Rightarrow> ('it \<Rightarrow> 'it \<times> go_error option) \<Rightarrow> nat \<Rightarrow> 'x deferred list \<Rightarrow>
       ('x, 'x in_memory_stream) ingest_buffer \<Rightarrow> ('x, 'x in_memory_stream, 'it) proc \<Rightarrow> bool" where
  "im_run sz itclose n0 base b p \<longleftrightarrow>
     (\<exists>info freq bulk cap w. NewStreamIngestBuffer freq bulk cap w = Inr b \<and> im_stored w = base \<and>
        CptMessages (IngestedMessages info) = of_nat n0 \<and> LastMsgId (IngestedMessages info) = of_nat n0 \<and>
        stream_run (InMemory_Write sz) InMemory_Close itclose sz info b p)"

lemma NewStreamIngestBuffer_fresh:
  "NewStreamIngestBuffer freq bulk cap w = Inr b \<Longrightarrow>
     ib_channelMsg b = [] \<and> ib_msgBuffer b = [] \<and> ib_writer b = w"
  by (auto simp: NewStreamIngestBuffer_def split: if_splits)

lemma im_run_placed:
  assumes "im_run sz itclose n0 base b p"
  shows "placed im_holds base p" and "bounded b p"
proof -
  from assms obtain info freq bulk cap w where
    "NewStreamIngestBuffer freq bulk cap w = Inr b" and w: "im_stored w = base"
    and r: "stream_run (InMemory_Write sz) InMemory_Close itclose sz info b p"
    by (auto simp: im_run_def)
  note fr = NewStreamIngestBuffer_fresh [OF this(1)]
  have "im_holds (ib_writer b) base" using fr w by (simp add: im_holds_def)
  from im_closable.run_invariants [OF r this] fr
  show "placed im_holds base p" "bounded b p" by blast+
qed

text \<open>
  C2: no accepted message is lost or reordered while the stream lives. At every moment of every
  interleaving of producers, loop, timer and life-cycle calls, the accepted records are exactly
  those stored, buffered or in the channel; as long as no save has failed each is there once,
  stored before buffered before queued, in the order of acceptance.
\<close>

theorem stream_keeps_every_message:
  assumes "im_run sz itclose n0 base b p"
  shows "\<exists>new. im_stored (ib_writer (pr_buf p)) = base @ new \<and>
     set (pr_accepted p) = set new \<union> set (ib_msgBuffer (pr_buf p)) \<union> set (ib_channelMsg (pr_buf p)) \<and>
     (pr_clean p \<longrightarrow> pr_accepted p = new @ ib_msgBuffer (pr_buf p) @ ib_channelMsg (pr_buf p))"
  using im_run_placed(1) [OF assms] by (auto simp: placed_def located_def im_holds_def)

text \<open>
  C11: message ids. The ids given to accepted messages are consecutive, in the order of
  acceptance, starting after the messages of the stream's earlier life, and the ingestion
  counters agree with them, as long as fewer than \<open>2 ^ 64\<close> messages were ever accepted.
\<close>

theorem stream_ids_consecutive:
  assumes "im_run sz itclose n0 base b p" and "n0 + length (pr_accepted p) < 2 ^ 64"
  shows "map dr_Id (pr_accepted p) = map of_nat [n0 + 1..<n0 + length (pr_accepted p) + 1] \<and>
     CptMessages (IngestedMessages (pr_info p)) = of_nat (n0 + length (pr_accepted p)) \<and>
     LastMsgId (IngestedMessages (pr_info p)) = of_nat (n0 + length (pr_accepted p))"
proof -
  from assms(1) obtain info where
    i: "CptMessages (IngestedMessages info) = of_nat n0" "LastMsgId (IngestedMessages info) = of_nat n0"
    and r: "stream_run (InMemory_Write sz) InMemory_Close itclose sz info b p"
    by (auto simp: im_run_def)
  from im_closable.run_numbered [OF r i assms(2)] show ?thesis
    by (simp add: numbered_def Let_def del: upt_Suc)
qed

text \<open>
  C20: back pressure and bulk writes. The channel never holds more than its capacity and the
  record of one blocked sender. While no save has failed the buffer stays below the bulk size; it
  is empty whenever the stream writes every message at once or its loop has ended, and when it is
  not empty the flush timer is running.
\<close>

theorem stream_bounded:
  assumes "im_run sz itclose n0 base b p"
  shows "length (ib_channelMsg (pr_buf p)) \<le> ib_channelSize b + 1 \<and>
     (pr_clean p \<longrightarrow> ib_msgBuffer (pr_buf p) \<noteq> [] \<longrightarrow>
        int (length (ib_msgBuffer (pr_buf p))) < ib_bulkMaxSize b \<and>
        0 < ib_bulkFlushFrequency b \<and> pr_loop p \<and> pr_timer p)"
  using im_run_placed(2) [OF assms] by (auto simp: bounded_def deferred_mode_def Let_def)

section \<open>The calls as steps\<close>

lemma put_all_steps:
  "pr_batch p = Some (now, ms) \<Longrightarrow> ib_sent (pr_buf p) \<Longrightarrow>
   put_all sz now (pr_info p, pr_buf p) ms = Some ((i, b), ids) \<Longrightarrow>
   \<exists>new. (stream_step wr wclose itclose sz)\<^sup>*\<^sup>* p
       (p\<lparr>pr_stream := (pr_stream p)\<lparr>st_info := i, st_ingestBuffer := b\<rparr>,
          pr_batch := Some (now, []), pr_accepted := pr_accepted p @ new\<rparr>) \<and>
     ib_sent b \<and> map dr_Id new = ids \<and> map dr_Msg new = ms"
proof (induction ms arbitrary: p ids)
  case Nil
  then have "pr_info p = i" "pr_buf p = b" "ids = []" by auto
  with Nil(1) have "p\<lparr>pr_stream := (pr_stream p)\<lparr>st_info := i, st_ingestBuffer := b\<rparr>,
      pr_batch := Some (now, []), pr_accepted := pr_accepted p @ []\<rparr> = p"
    by (cases p, cases "pr_stream p") auto
  with Nil(2) \<open>ids = []\<close> \<open>pr_buf p = b\<close> show ?case
    by (intro exI [of _ "[]"]) (simp del: append_Nil2)
next
  case (Cons m ms)
  obtain i1 b1 mid where o: "ingest_one sz now m (pr_info p, pr_buf p) = ((i1, b1), mid)"
    by (metis surj_pair)
  with Cons.prems(3) obtain ids' where sent: "ib_sent b1" and ids: "ids = mid # ids'"
    and rest: "put_all sz now (i1, b1) ms = Some ((i, b), ids')"
    by (auto split: if_splits option.splits)
  let ?r = "\<lparr>dr_Id = mid, dr_CreationDate = now, dr_Msg = m\<rparr>"
  let ?p1 = "p\<lparr>pr_stream := (pr_stream p)\<lparr>st_info := i1, st_ingestBuffer := b1\<rparr>,
    pr_batch := Some (now, ms), pr_accepted := pr_accepted p @ [?r]\<rparr>"
  have step: "stream_step wr wclose itclose sz p ?p1"
    using step_send [OF Cons.prems(1,2), of wr wclose itclose sz] o by (simp add: send_step_def)
  obtain new where "(stream_step wr wclose itclose sz)\<^sup>*\<^sup>* ?p1
       (?p1\<lparr>pr_stream := (pr_stream ?p1)\<lparr>st_info := i, st_ingestBuffer := b\<rparr>,
          pr_batch := Some (now, []), pr_accepted := pr_accepted ?p1 @ new\<rparr>)"
    "ib_sent b" "map dr_Id new = ids'" "map dr_Msg new = ms"
    using Cons.IH [of ?p1 ids'] sent rest by auto
  then show ?case using step ids
    by (intro exI [of _ "?r # new"]) (auto intro: converse_rtranclp_into_rtranclp)
qed

lemma PutMessages_reach:
  assumes "PutMessages sz now records (pr_stream p) = Some (s', Inr ids)"
    and "pr_batch p = None" and "ib_sent (pr_buf p)"
  shows "\<exists>new. (stream_step wr wclose itclose sz)\<^sup>*\<^sup>* p
       (p\<lparr>pr_stream := s', pr_accepted := pr_accepted p @ new\<rparr>) \<and>
     map dr_Id new = ids \<and> map dr_Msg new = records"
proof -
  from assms(1) have run: "st_state (pr_stream p) = STREAM_STATE_RUNNING" and ne: "records \<noteq> []"
    by (auto simp: PutMessages_def split: if_splits)
  with assms(1) obtain i b
    where put: "put_all sz now (first_ingested now (pr_info p), pr_buf p) records = Some ((i, b), ids)"
      and s': "s' = (pr_stream p)\<lparr>st_info := i, st_ingestBuffer := b\<rparr>"
    by (auto simp: PutMessages_def split: option.splits)
  let ?p1 = "p\<lparr>pr_waiting := records # pr_waiting p\<rparr>"
  let ?p2 = "p\<lparr>pr_batch := Some (now, records),
    pr_stream := (pr_stream p)\<lparr>st_info := first_ingested now (pr_info p)\<rparr>\<rparr>"
  have 1: "stream_step wr wclose itclose sz p ?p1" using run ne by (rule step_call)
  have 2: "stream_step wr wclose itclose sz ?p1 ?p2"
    using step_lock [of ?p1 records wr wclose itclose sz now] assms(2) by simp
  obtain new where 3: "(stream_step wr wclose itclose sz)\<^sup>*\<^sup>* ?p2
       (?p2\<lparr>pr_stream := (pr_stream ?p2)\<lparr>st_info := i, st_ingestBuffer := b\<rparr>,
          pr_batch := Some (now, []), pr_accepted := pr_accepted ?p2 @ new\<rparr>)"
    "ib_sent b" "map dr_Id new = ids" "map dr_Msg new = records"
    using put_all_steps [of ?p2 now records sz i b ids wr wclose itclose] put assms(3) by auto
  let ?p3 = "?p2\<lparr>pr_stream := s', pr_batch := Some (now, []), pr_accepted := pr_accepted p @ new\<rparr>"
  have "stream_step wr wclose itclose sz ?p3 (?p3\<lparr>pr_batch := None\<rparr>)"
    by (rule step_return [of _ now]) (simp_all add: s' 3)
  moreover have "?p3\<lparr>pr_batch := None\<rparr> = p\<lparr>pr_stream := s', pr_accepted := pr_accepted p @ new\<rparr>"
    using assms(2) by simp
  ultimately show ?thesis using 1 2 3 s'
    by (intro exI [of _ new])
       (auto intro: converse_rtranclp_into_rtranclp rtranclp.rtrancl_into_rtrancl)
qed

text \<open>
  C27: the handler \<^verbatim>\<open>PutMessages\<close> as the step relation runs it. When the sends of a call find room
  in the channel, the call as one function is a sequence of steps of the running stream (check,
  lock, one send per message, return) that ends in the state the function gives; it accepts
  exactly the given messages, in order, under the ids it returns.
\<close>

theorem PutMessages_as_steps:
  assumes "PutMessages sz now records (pr_stream p) = Some (s', Inr ids)"
    and "pr_batch p = None" and "ib_sent (pr_buf p)"
  shows "\<exists>new. (stream_step wr wclose itclose sz)\<^sup>*\<^sup>* p
       (p\<lparr>pr_stream := s', pr_accepted := pr_accepted p @ new\<rparr>) \<and>
     map dr_Id new = ids \<and> map dr_Msg new = records"
  using assms by (rule PutMessages_reach)

lemma run_steps:
  "(stream_step wr wclose itclose sz)\<^sup>*\<^sup>* p q \<Longrightarrow> stream_run wr wclose itclose sz info b p \<Longrightarrow>
     stream_run wr wclose itclose sz info b q"
  by (induction rule: rtranclp_induct) (auto intro: run_step)

text \<open>
  What \<^verbatim>\<open>Close\<close> does with messages that are still in the channel. From every running state there
  is an execution in which \<^verbatim>\<open>Close\<close> returns, the goroutine has ended, and the channel still holds
  every message it held: accepted messages for which producers have their ids are never stored,
  although the comment in \<^verbatim>\<open>Close\<close> promises to save and flush the ingest buffer.
\<close>

theorem Close_leaves_channel:
  assumes "st_state (pr_stream p) = STREAM_STATE_RUNNING" and "pr_loop p"
    and "\<not> st_doneClosed (pr_stream p)"
  shows "\<exists>q. (stream_step (InMemory_Write sz) InMemory_Close itclose sz)\<^sup>*\<^sup>* p q \<and>
     st_state (pr_stream q) = STREAM_STATE_NONE \<and> \<not> pr_loop q \<and>
     pr_accepted q = pr_accepted p \<and> ib_channelMsg (pr_buf q) = ib_channelMsg (pr_buf p)"
proof -
  let ?step = "stream_step (InMemory_Write sz) InMemory_Close itclose sz"
  obtain s1 where s1: "st_Close (pr_stream p) = Inr s1" "st_doneClosed s1"
      "st_state s1 = STREAM_STATE_STOPPING" "st_ingestBuffer s1 = pr_buf p"
    using assms by (auto simp: st_Close_def setState_def)
  obtain s2 err where s2: "run_done (InMemory_Write sz) InMemory_Close itclose [] s1 = (s2, err)"
    by fastforce
  let ?p1 = "p\<lparr>pr_stream := s1\<rparr>"
  let ?p2 = "?p1\<lparr>pr_stream := s2, pr_loop := False, pr_timer := False,
               pr_clean := (pr_clean ?p1 \<and> err = None)\<rparr>"
  have 1: "?step p ?p1" using s1(1) by (rule step_close)
  have 2: "?step ?p1 ?p2" by (rule step_done [where ks = "[]"]) (use assms(2) s1(2) s2 in simp_all)
  note f = im_closable.run_done_frame [OF s2]
  let ?p3 = "?p2\<lparr>pr_stream := st_Close_wait (pr_stream ?p2)\<rparr>"
  have 3: "?step ?p2 ?p3" by (rule step_closed) (simp_all add: f s1)
  have "?step\<^sup>*\<^sup>* p ?p3"
    using 1 2 3 by (blast intro: converse_rtranclp_into_rtranclp)
  then show ?thesis
    by (intro exI [of _ ?p3]) (simp add: f s1 st_Close_wait_def setState_def)
qed

text \<open>
  A stream that was closed and started again cannot be closed a second time. The channel
  \<^verbatim>\<open>done\<close> is made once and stays closed, so the second \<^verbatim>\<open>Close\<close> panics.
\<close>

theorem second_Close_panics:
  assumes "st_Close s = Inr s1"
  shows "\<exists>s2. st_Start (st_Close_wait s1) = Inr s2 \<and>
     st_Close s2 = Inl (Panic ''close of closed channel'')"
  using assms by (auto simp: st_Close_def st_Start_def st_Close_wait_def setState_def split: if_splits)

section \<open>A concrete run\<close>

definition sample_buf :: "(unit, unit in_memory_stream) ingest_buffer" where
  "sample_buf = \<lparr>ib_bulkFlushFrequency = 0, ib_bulkMaxSize = 3, ib_channelSize = 2,
     ib_channelMsg = [], ib_msgBuffer = [], ib_writer = NewInMemoryStream 7 0 0\<rparr>"

definition sample_started :: "(unit, unit in_memory_stream, nat) proc" where
  "sample_started = (new_proc (NewStreamInfo 0 7) sample_buf)
     \<lparr>pr_stream := setState STREAM_STATE_RUNNING (NewStream (NewStreamInfo 0 7) sample_buf),
      pr_loop := True\<rparr>"

lemmas sample_run_defs = sample_started_def sample_buf_def new_proc_def NewStream_def setState_def
  NewStreamInfo_def no_msgs_def PutMessages_def first_ingested_def ingest_one_def
  ib_PutMessage_def ib_sent_def Let_def

definition sample_put :: "(unit, unit in_memory_stream, nat) stream" where
  "sample_put = fst (the (PutMessages (\<lambda>_. 1) 9 [INil, IBool True] (pr_stream sample_started)))"

lemma sample_PutMessages:
  "PutMessages (\<lambda>_. 1) 9 [INil, IBool True] (pr_stream sample_started) = Some (sample_put, Inr [1, 2])"
  by (simp add: sample_put_def sample_run_defs)

lemma sample_start_ok: "pr_batch sample_started = None" "ib_sent (pr_buf sample_started)"
  by (simp_all add: sample_run_defs)

lemma sample_start_run:
  "stream_run (InMemory_Write (\<lambda>_. 1)) InMemory_Close itclose (\<lambda>_. 1) (NewStreamInfo 0 7) sample_buf sample_started"
proof -
  let ?p0 = "new_proc (NewStreamInfo 0 7) sample_buf :: (unit, unit in_memory_stream, nat) proc"
  have "stream_step (InMemory_Write (\<lambda>_. 1)) InMemory_Close itclose (\<lambda>_. 1) ?p0
      (?p0\<lparr>pr_stream := setState STREAM_STATE_RUNNING (NewStream (NewStreamInfo 0 7) sample_buf),
        pr_loop := True, pr_timer := False\<rparr>)"
    by (rule step_start) (simp add: new_proc_def NewStream_def st_Start_def setState_def)
  from run_step [OF run_new this] show ?thesis by (simp add: sample_started_def new_proc_def)
qed

text \<open>The state of the run once the two messages were accepted, the loop not having moved yet.\<close>

lemma sample_accepted_run:
  "\<exists>p. im_run (\<lambda>_. 1) (\<lambda>it::nat. (it, None)) 0 [] sample_buf p \<and> pr_stream p = sample_put \<and> length (pr_accepted p) = 2 \<and>
     pr_clean p \<and> pr_loop p"
proof -
  let ?step = "stream_step (InMemory_Write (\<lambda>_. 1)) InMemory_Close (\<lambda>it::nat. (it, None)) (\<lambda>_. 1)"
  obtain new where new: "?step\<^sup>*\<^sup>* sample_started
       (sample_started\<lparr>pr_stream := sample_put, pr_accepted := pr_accepted sample_started @ new\<rparr>)"
    "map dr_Id new = [1, 2]"
    using PutMessages_reach [OF sample_PutMessages sample_start_ok,
        of "InMemory_Write (\<lambda>_. 1)" InMemory_Close "\<lambda>it. (it, None)"] by (elim exE conjE)
  have "length new = 2" using arg_cong [OF new(2), of length] by simp
  moreover have "pr_accepted sample_started = []" "pr_clean sample_started" "pr_loop sample_started"
    by (simp_all add: sample_started_def new_proc_def)
  ultimately obtain q where q: "?step\<^sup>*\<^sup>* sample_started q" "pr_stream q = sample_put"
      "length (pr_accepted q) = 2" "pr_clean q" "pr_loop q"
    using new(1) that [of "sample_started\<lparr>pr_stream := sample_put, pr_accepted := pr_accepted sample_started @ new\<rparr>"]
    by simp
  have "im_run (\<lambda>_. 1) (\<lambda>it. (it, None)) 0 [] sample_buf q"
    unfolding im_run_def
    by (rule exI [of _ "NewStreamInfo 0 7"], rule exI [of _ 0], rule exI [of _ 3], rule exI [of _ 2],
        rule exI [of _ "NewInMemoryStream 7 0 0"])
       (use run_steps [OF q(1) sample_start_run] in
         \<open>simp add: NewStreamIngestBuffer_def sample_buf_def im_stored_def NewInMemoryStream_def
            NewStreamInfo_def no_msgs_def\<close>)
  with q show ?thesis by blast
qed

lemma stream_keeps_every_message_witness:
  "\<exists>p new. im_run (\<lambda>_. 1) (\<lambda>it::nat. (it, None)) 0 [] sample_buf p \<and> length (pr_accepted p) = 2 \<and>
     pr_accepted p = new @ ib_msgBuffer (pr_buf p) @ ib_channelMsg (pr_buf p)"
  using sample_accepted_run stream_keeps_every_message [where b = sample_buf and base = "[]" and ?n0.0 = 0]
  by blast

lemma stream_ids_consecutive_witness:
  "\<exists>p. im_run (\<lambda>_. 1) (\<lambda>it::nat. (it, None)) 0 [] sample_buf p \<and> map dr_Id (pr_accepted p) = [1, 2]"
proof -
  obtain p where p: "im_run (\<lambda>_. 1) (\<lambda>it::nat. (it, None)) 0 [] sample_buf p" "length (pr_accepted p) = 2"
    using sample_accepted_run by blast
  from stream_ids_consecutive [OF p(1)] p show ?thesis by (auto simp: upt_rec)
qed

lemma stream_bounded_witness:
  "\<exists>p. im_run (\<lambda>_. 1) (\<lambda>it::nat. (it, None)) 0 [] sample_buf p \<and> ib_channelMsg (pr_buf p) \<noteq> [] \<and>
     length (ib_channelMsg (pr_buf p)) \<le> 3"
proof -
  obtain p where p: "im_run (\<lambda>_. 1) (\<lambda>it::nat. (it, None)) 0 [] sample_buf p" "pr_stream p = sample_put"
    using sample_accepted_run by blast
  have "ib_channelMsg (st_ingestBuffer sample_put) \<noteq> []" by (simp add: sample_put_def sample_run_defs)
  with stream_bounded [OF p(1)] p show ?thesis by (auto simp: sample_buf_def)
qed

lemma PutMessages_as_steps_witness:
  "\<exists>new. (stream_step (InMemory_Write (\<lambda>_. 1)) InMemory_Close (\<lambda>it. (it, None)) (\<lambda>_. 1))\<^sup>*\<^sup>* sample_started
       (sample_started\<lparr>pr_stream := sample_put, pr_accepted := new\<rparr>) \<and> map dr_Id new = [1, 2]"
proof -
  have e: "pr_accepted sample_started @ new = new" for new by (simp add: sample_started_def new_proc_def)
  show ?thesis
    using PutMessages_as_steps [OF sample_PutMessages sample_start_ok,
        of "InMemory_Write (\<lambda>_. 1)" InMemory_Close "\<lambda>it. (it, None)", unfolded e] by (elim exE conjE) (intro exI conjI)
qed

lemma Close_leaves_channel_witness:
  "\<exists>p q :: (unit, unit in_memory_stream, nat) proc. (stream_step (InMemory_Write (\<lambda>_. 1)) InMemory_Close (\<lambda>it::nat. (it, None)) (\<lambda>_. 1))\<^sup>*\<^sup>* p q \<and>
     st_state (pr_stream q) = STREAM_STATE_NONE \<and> length (pr_accepted q) = 2 \<and>
     length (ib_channelMsg (pr_buf q)) = 2"
proof -
  obtain p :: "(unit, unit in_memory_stream, nat) proc"
    where p: "pr_stream p = sample_put" "length (pr_accepted p) = 2" "pr_loop p"
    using sample_accepted_run by blast
  have f: "st_state (pr_stream p) = STREAM_STATE_RUNNING" "\<not> st_doneClosed (pr_stream p)"
    "length (ib_channelMsg (pr_buf p)) = 2"
    by (simp_all add: p sample_put_def sample_run_defs)
  from Close_leaves_channel [OF f(1) p(3) f(2), of "\<lambda>_. 1" "\<lambda>it. (it, None)"] obtain q where
    q: "(stream_step (InMemory_Write (\<lambda>_. 1)) InMemory_Close (\<lambda>it::nat. (it, None)) (\<lambda>_. 1))\<^sup>*\<^sup>* p q"
    "st_state (pr_stream q) = STREAM_STATE_NONE" "pr_accepted q = pr_accepted p"
    "ib_channelMsg (pr_buf q) = ib_channelMsg (pr_buf p)" by (elim exE conjE)
  show ?thesis
    by (rule exI [of _ p], rule exI [of _ q]) (use q p f in simp)
qed

lemma second_Close_panics_witness:
  "\<exists>s1 s2. st_Close (pr_stream sample_started) = Inr s1 \<and> st_Start (st_Close_wait s1) = Inr s2 \<and>
     st_Close s2 = Inl (Panic ''close of closed channel'')"
proof -
  obtain s1 where "st_Close (pr_stream sample_started) = Inr s1"
    by (simp add: st_Close_def sample_run_defs)
  with second_Close_panics [OF this] show ?thesis by blast
qed

end
