(* ===== verification/MySqlWriter.thy ===== *)
theory MySqlWriter
  imports Ingest
begin

text \<open>
  Streams stored in MySQL (storageprovider/mysqlprovider): the configuration (mysqlconfig.go), the
  conversation with the database, and the writer of a stream (streamwriter.go).
\<close>

section \<open>The configuration (mysqlconfig.go)\<close>

record mysql_conf =
  my_DataSourceName :: string
  my_SchemaName :: string
  my_CatalogTableName :: string
  my_StreamTablePrefix :: string
  my_ConnMaxLifetime :: nat
  my_MaxIdleConns :: nat
  my_MaxOpenConns :: nat

record mysql_config =
  mc_Dsn :: string
  mc_SchemaName :: string
  mc_CatalogTableName :: string
  mc_StreamTablePrefix :: string
  mc_ConnMaxLifetime :: nat
  mc_MaxIdleConns :: nat
  mc_MaxOpenConns :: nat

text \<open>The regular expression \<^verbatim>\<open>^[a-zA-Z0-9_]+$\<close>.\<close>

definition is_name_char :: "char \<Rightarrow> bool" where
  "is_name_char c \<longleftrightarrow> c \<in> set ''abcdefghijklmnopqrstuvwxyzABCDEFGHIJKLMNOPQRSTUVWXYZ0123456789_''"

definition is_name :: "string \<Rightarrow> bool" where
  "is_name s \<longleftrightarrow> s \<noteq> [] \<and> list_all is_name_char s"

definition or_default :: "string \<Rightarrow> string \<Rightarrow> string" where
  "or_default s default_name = (if s = [] then default_name else s)"

text \<open>\<open>getenv\<close> is \<^verbatim>\<open>os.Getenv\<close>, which gives the empty text for an unknown variable.\<close>

definition CheckMySQLConfiguration ::
    "(string \<Rightarrow> string) \<Rightarrow> mysql_conf \<Rightarrow> go_error + string \<times> string \<times> string \<times> string" where
  "CheckMySQLConfiguration getenv conf =
     (if my_DataSourceName conf = [] then Inl (Error ''empty data source name'')
      else if my_MaxIdleConns conf = 0 then Inl (Error ''invalid MaxIdleConns value'')
      else
        (let dataSourceName = (if hd (my_DataSourceName conf) = CHR ''$''
               then getenv (tl (my_DataSourceName conf)) else my_DataSourceName conf);
             schemaName = or_default (my_SchemaName conf) ''ministream'';
             catalogTableName = or_default (my_CatalogTableName conf) ''streams'';
             streamTablePrefix = or_default (my_StreamTablePrefix conf) ''stream_''
         in if \<not> is_name schemaName then Inl (Error ''invalid schema name'')
            else if \<not> is_name catalogTableName then Inl (Error ''invalid catalog table name'')
            else if \<not> is_name streamTablePrefix then Inl (Error ''invalid stream table prefix'')
            else Inr (dataSourceName, schemaName, catalogTableName, streamTablePrefix)))"

definition NewMySQLConfig :: "(string \<Rightarrow> string) \<Rightarrow> mysql_conf \<Rightarrow> go_error + mysql_config" where
  "NewMySQLConfig getenv conf =
     (case CheckMySQLConfiguration getenv conf of
        Inl e \<Rightarrow> Inl e
      | Inr (dsn, schema, catalog, prefix) \<Rightarrow> Inr
          \<lparr>mc_Dsn = dsn, mc_SchemaName = schema, mc_CatalogTableName = catalog, mc_StreamTablePrefix = prefix,
           mc_ConnMaxLifetime = my_ConnMaxLifetime conf, mc_MaxIdleConns = my_MaxIdleConns conf,
           mc_MaxOpenConns = my_MaxOpenConns conf\<rparr>)"

section \<open>The conversation with the database\<close>

text \<open>
  A call the code makes through \<^verbatim>\<open>database/sql\<close>, with the text of the statement and its arguments;
  \<open>ADate\<close> is a time as \<^verbatim>\<open>RFC3339\<close> text. The database itself is a parameter \<open>db\<close>: it answers a call,
  by an error or not, as it likes from the whole conversation so far, which the state keeps.
\<close>

datatype sql_arg = ANum u64 | AInt int | ATime time | ADate time | AText string | AUuid uuid

datatype sql_call =
    Begin                              \<comment> \<open>\<open>pool.Begin\<close>\<close>
  | Commit | Rollback                  \<comment> \<open>of the current transaction\<close>
  | Tx_Exec string "sql_arg list"      \<comment> \<open>\<open>transaction.Exec\<close>\<close>
  | Exec string "sql_arg list"         \<comment> \<open>\<open>pool.Exec\<close>\<close>

type_synonym sql_log = "(sql_call \<times> go_error option) list"
type_synonym sql_db = "sql_log \<Rightarrow> sql_call \<Rightarrow> go_error option"

definition sql :: "sql_db \<Rightarrow> sql_call \<Rightarrow> sql_log \<Rightarrow> sql_log \<times> go_error option" where
  "sql db c log = (log @ [(c, db log c)], db log c)"

text \<open>
  The rows that the statement \<open>q\<close> has put into its table for good: what a committed transaction
  inserted. A transaction that is rolled back, that is never finished, or whose commit fails leaves
  nothing. The pair holds the committed rows and those of the current transaction.
\<close>

type_synonym sql_row = "u64 \<times> time \<times> string"

fun sql_effect :: "string \<Rightarrow> sql_row list \<times> sql_row list \<Rightarrow> sql_call \<times> go_error option \<Rightarrow> sql_row list \<times> sql_row list" where
  "sql_effect q (rows, new) (Begin, None) = (rows, [])"
| "sql_effect q (rows, new) (Tx_Exec q' [ANum i, ATime t, AText s], None) =
     (rows, if q' = q then new @ [(i, t, s)] else new)"
| "sql_effect q (rows, new) (Commit, None) = (rows @ new, [])"
| "sql_effect q (rows, new) (Rollback, r) = (rows, [])"
| "sql_effect q (rows, new) c = (rows, new)"

definition committed :: "string \<Rightarrow> sql_log \<Rightarrow> sql_row list" where
  "committed q log = fst (fold (\<lambda>c s. sql_effect q s c) log ([], []))"

text \<open>How many transactions were begun and neither committed nor rolled back.\<close>

fun tx_change :: "sql_call \<times> go_error option \<Rightarrow> int" where
  "tx_change (Begin, None) = 1"
| "tx_change (Commit, None) = -1"
| "tx_change (Rollback, r) = -1"
| "tx_change c = 0"

definition open_transactions :: "sql_log \<Rightarrow> int" where
  "open_transactions log = sum_list (map tx_change log)"

section \<open>The writer (streamwriter.go)\<close>

record mysql_writer =
  mw_schemaName :: string
  mw_catalogTableName :: string
  mw_streamTableName :: string
  mw_log :: sql_log

definition NewStreamWriterMySQL :: "string \<Rightarrow> string \<Rightarrow> string \<Rightarrow> sql_log \<Rightarrow> mysql_writer" where
  "NewStreamWriterMySQL schemaName catalogTableName streamTableName pool =
     \<lparr>mw_schemaName = schemaName, mw_catalogTableName = catalogTableName, mw_streamTableName = streamTableName,
      mw_log = pool\<rparr>"

definition mw_Init :: "mysql_writer \<Rightarrow> mysql_writer \<times> go_error option" where
  "mw_Init w = (w, None)"

definition mw_Open :: "mysql_writer \<Rightarrow> mysql_writer \<times> go_error option" where
  "mw_Open w = (w, None)"

definition mw_Close :: "mysql_writer \<Rightarrow> mysql_writer \<times> go_error option" where
  "mw_Close w = (w, None)"

definition insert_query :: "mysql_writer \<Rightarrow> string" where
  "insert_query w = ''INSERT INTO '' @ mw_schemaName w @ ''.'' @ mw_streamTableName w @
     '' (`id`, `timestamp`, `message`) VALUES (?, ?, ?)''"

definition update_query :: "mysql_writer \<Rightarrow> string" where
  "update_query w = ''UPDATE '' @ mw_schemaName w @ ''.'' @ mw_catalogTableName w @
     '' SET `cache_cpt_rows`=?, `cache_size_in_bytes`=?, `cache_first_msg_id`=?, `cache_last_msg_id`=?,'' @
     '' `cache_first_msg_timestamp`=?, `cache_last_msg_timestamp`=?, `last_update`=NOW() WHERE `id`=?''"

definition mw_SaveMetaInfo ::
    "sql_db \<Rightarrow> mysql_writer \<Rightarrow> uuid \<Rightarrow> u64 \<Rightarrow> u64 \<Rightarrow> u64 \<Rightarrow> u64 \<Rightarrow> time \<Rightarrow> time \<Rightarrow> sql_log \<Rightarrow>
       sql_log \<times> go_error option" where
  "mw_SaveMetaInfo db w streamUUID cptMessages sizeInBytes firstMsgId lastMsgId firstMsgTimestamp lastMsgTimestamp log =
     sql db (Tx_Exec (update_query w) [ANum cptMessages, ANum sizeInBytes, ANum firstMsgId, ANum lastMsgId,
       ADate firstMsgTimestamp, ADate lastMsgTimestamp, AUuid streamUUID]) log"

text \<open>
  The loop over the batch, with the bytes written so far; \<open>mj\<close> is \<^verbatim>\<open>json.Marshal\<close> of a record. A
  record that cannot be marshalled ends the call at once; a failed insertion rolls back first.
\<close>

fun insert_records ::
    "('x deferred \<Rightarrow> go_error + string) \<Rightarrow> sql_db \<Rightarrow> string \<Rightarrow> 'x deferred list \<Rightarrow> u64 \<Rightarrow> sql_log \<Rightarrow>
       sql_log \<times> (go_error + u64)" where
  "insert_records mj db query [] bytes log = (log, Inr bytes)"
| "insert_records mj db query (r # rs) bytes log =
     (case mj r of
        Inl e \<Rightarrow> (log, Inl e)
      | Inr strjson \<Rightarrow>
          (case sql db (Tx_Exec query [ANum (dr_Id r), ATime (dr_CreationDate r), AText strjson]) log of
             (log1, Some e) \<Rightarrow> (fst (sql db Rollback log1), Inl e)
           | (log1, None) \<Rightarrow> insert_records mj db query rs (bytes + of_nat (length strjson)) log1))"

text \<open>The counters after a batch that was committed.\<close>

definition count_batch :: "u64 \<Rightarrow> 'x deferred list \<Rightarrow> 'x stream_info \<Rightarrow> 'x stream_info" where
  "count_batch bytes rs i =
     (let i1 = first_readable i rs in
      i1\<lparr>ReadableMessages := (ReadableMessages i1)
          \<lparr>CptMessages := CptMessages (ReadableMessages i) + of_nat (length rs),
           SizeInBytes := SizeInBytes (ReadableMessages i1) + bytes,
           LastMsgId := dr_Id (last rs), LastMsgTimestamp := dr_CreationDate (last rs)\<rparr>\<rparr>)"

definition mysql_Write ::
    "('x deferred \<Rightarrow> go_error + string) \<Rightarrow> sql_db \<Rightarrow> ('x, mysql_writer) write_op" where
  "mysql_Write mj db st records =
     (case st of (i, w) \<Rightarrow>
      (if records = [] then ((i, w), None)
       else
         (let stop = (\<lambda>log e. ((i, w\<lparr>mw_log := log\<rparr>), Some e)) in
          case sql db Begin (mw_log w) of
            (log1, Some e) \<Rightarrow> stop log1 e
          | (log1, None) \<Rightarrow>
              (case insert_records mj db (insert_query w) records 0 log1 of
                 (log2, Inl e) \<Rightarrow> stop log2 e
               | (log2, Inr bytes) \<Rightarrow>
                   (let rm = ReadableMessages i;
                        firstMsgTimestamp = (if CptMessages rm = 0 then dr_CreationDate (hd records)
                                             else FirstMsgTimestamp rm) in
                    case mw_SaveMetaInfo db w (si_UUID i) (CptMessages rm + of_nat (length records))
                           (SizeInBytes rm + bytes) (FirstMsgId (IngestedMessages i)) (dr_Id (last records))
                           firstMsgTimestamp (dr_CreationDate (last records)) log2 of
                      (log3, Some e) \<Rightarrow> stop log3 e
                    | (log3, None) \<Rightarrow>
                        (case sql db Commit log3 of
                           (log4, Some e) \<Rightarrow> stop (fst (sql db Rollback log4)) e
                         | (log4, None) \<Rightarrow> ((count_batch bytes records i, w\<lparr>mw_log := log4\<rparr>), None)))))))"

section \<open>Lemmas\<close>

lemma open_transactions_simps [simp]:
  "open_transactions [] = 0"
  "open_transactions (log @ log') = open_transactions log + open_transactions log'"
  "open_transactions (c # log) = tx_change c + open_transactions log"
  by (simp_all add: open_transactions_def)

text \<open>The rows and the open transaction after a conversation.\<close>

definition sql_state :: "string \<Rightarrow> sql_log \<Rightarrow> sql_row list \<times> sql_row list" where
  "sql_state q log = fold (\<lambda>c s. sql_effect q s c) log ([], [])"

lemma sql_state_snoc [simp]:
  "sql_state q (log @ [c]) = sql_effect q (sql_state q log) c"
  "sql_state q (log @ [c, d]) = sql_effect q (sql_effect q (sql_state q log) c) d"
  "sql_state q (log @ [c, d, e]) = sql_effect q (sql_effect q (sql_effect q (sql_state q log) c) d) e"
  by (simp_all add: sql_state_def)

lemma committed_state: "committed q log = fst (sql_state q log)"
  by (simp add: committed_def sql_state_def)

definition row_of :: "('x deferred \<Rightarrow> go_error + string) \<Rightarrow> 'x deferred \<Rightarrow> sql_row" where
  "row_of mj r = (dr_Id r, dr_CreationDate r, projr (mj r))"

definition json_size :: "('x deferred \<Rightarrow> go_error + string) \<Rightarrow> 'x deferred \<Rightarrow> u64" where
  "json_size mj r = of_nat (length (projr (mj r)))"

lemma insert_records_Inr:
  "insert_records mj db q rs bytes log = (log', Inr bytes') \<Longrightarrow>
     list_all (\<lambda>r. \<exists>s. mj r = Inr s) rs \<and>
     sql_state q log' = (fst (sql_state q log), snd (sql_state q log) @ map (row_of mj) rs) \<and>
     bytes' = bytes + sum_list (map (json_size mj) rs) \<and> open_transactions log' = open_transactions log"
proof (induction rs arbitrary: bytes log)
  case (Cons r rs)
  obtain s where s: "mj r = Inr s" using Cons.prems by (cases "mj r") auto
  let ?c = "Tx_Exec q [ANum (dr_Id r), ATime (dr_CreationDate r), AText s]"
  have n: "db log ?c = None" using Cons.prems s by (auto simp: sql_def split: option.splits)
  then have "insert_records mj db q rs (bytes + of_nat (length s)) (log @ [(?c, None)]) = (log', Inr bytes')"
    using Cons.prems s by (simp add: sql_def)
  from Cons.IH [OF this] s n show ?case
    by (cases "sql_state q log") (simp add: row_of_def json_size_def algebra_simps)
qed simp

lemma insert_records_Inl:
  "insert_records mj db q rs bytes log = (log', Inl e) \<Longrightarrow>
     fst (sql_state q log') = fst (sql_state q log) \<and>
     ((\<exists>r \<in> set rs. mj r = Inl e) \<and> open_transactions log' = open_transactions log \<or>
      open_transactions log' = open_transactions log - 1)"
proof (induction rs arbitrary: bytes log)
  case (Cons r rs)
  show ?case
  proof (cases "mj r")
    case (Inl e1)
    with Cons.prems show ?thesis by simp
  next
    case (Inr s)
    let ?c = "Tx_Exec q [ANum (dr_Id r), ATime (dr_CreationDate r), AText s]"
    show ?thesis
    proof (cases "db log ?c")
      case None
      then have i: "insert_records mj db q rs (bytes + of_nat (length s)) (log @ [(?c, None)]) = (log', Inl e)"
        using Cons.prems Inr by (simp add: sql_def)
      from Cons.IH [OF i] show ?thesis
        by (cases "sql_state q log") auto
    next
      case (Some e2)
      with Cons.prems Inr show ?thesis
        by (cases "sql_state q log") (auto simp: sql_def)
    qed
  qed
qed simp

lemma update_is_not_insert: "update_query w \<noteq> insert_query w"
  by (simp add: update_query_def insert_query_def)

lemma sql_effect_update [simp]:
  "sql_effect q s (Tx_Exec q' [a1, a2, a3, a4, a5, a6, a7], r) = s"
  by (cases s; cases r) auto

lemma sql_effect_failed [simp]:
  "fst (sql_effect q s (Begin, r)) = fst s"
  "sql_effect q s (Commit, Some e) = s"
  "snd (sql_effect q s (Begin, None)) = []"
  "sql_effect q s (Commit, None) = (fst s @ snd s, [])"
  "sql_effect q s (Rollback, r) = (fst s, [])"
  by (cases s; cases r; simp)+

text \<open>What a call of \<^verbatim>\<open>Write\<close> does, on every path.\<close>

lemma mysql_Write_cases:
  assumes "mysql_Write mj db (i, w) rs = ((i', w'), err)" and "rs \<noteq> []"
  obtains
    (refused) e where "err = Some e" "i' = i" "fst (sql_state q (mw_log w')) = fst (sql_state q (mw_log w))"
      "mw_log w' = mw_log w @ [(Begin, Some e)]"
  | (failed) e where "err = Some e" "i' = i"
      "q = insert_query w \<Longrightarrow> fst (sql_state q (mw_log w')) = fst (sql_state q (mw_log w))"
      "open_transactions (mw_log w') = open_transactions (mw_log w)"
  | (abandoned) e where "err = Some e" "i' = i"
      "q = insert_query w \<Longrightarrow> fst (sql_state q (mw_log w')) = fst (sql_state q (mw_log w))"
      "(\<exists>r \<in> set rs. mj r = Inl e) \<or> (\<exists>log args. db log (Tx_Exec (update_query w) args) = Some e)"
      "open_transactions (mw_log w') = open_transactions (mw_log w) + 1"
  | (written) "err = None" "i' = count_batch (sum_list (map (json_size mj) rs)) rs i"
      "list_all (\<lambda>r. \<exists>s. mj r = Inr s) rs"
      "q = insert_query w \<Longrightarrow>
         fst (sql_state q (mw_log w')) = fst (sql_state q (mw_log w)) @ map (row_of mj) rs"
      "open_transactions (mw_log w') = open_transactions (mw_log w)"
proof -
  let ?q = "insert_query w"
  let ?st = "sql_state q"
  let ?l1 = "mw_log w @ [(Begin, None :: go_error option)]"
  let ?upd = "Tx_Exec (update_query w)"
  show ?thesis
  proof (cases "db (mw_log w) Begin")
    case (Some e)
    with assms show ?thesis by (intro refused [of e]) (auto simp: mysql_Write_def sql_def)
  next
    case b: None
    obtain log2 r2 where ins: "insert_records mj db ?q rs 0 ?l1 = (log2, r2)" by fastforce
    show ?thesis
    proof (cases r2)
      case (Inl e)
      with assms b ins have w: "err = Some e" "i' = i" "w' = w\<lparr>mw_log := log2\<rparr>"
        by (auto simp: mysql_Write_def sql_def Let_def)
      note ins' = insert_records_Inl [OF ins [unfolded Inl]]
      have q: "q = ?q \<Longrightarrow> fst (?st (mw_log w')) = fst (?st (mw_log w))" using ins' w by simp
      from ins' consider "\<exists>r \<in> set rs. mj r = Inl e" "open_transactions log2 = open_transactions ?l1"
        | "open_transactions log2 = open_transactions ?l1 - 1" by blast
      then show ?thesis
        by cases (rule abandoned [OF w(1,2) q], use w in \<open>simp_all add: failed\<close>,
          rule failed [OF w(1,2) q], use w in simp_all)
    next
      case (Inr bytes)
      note ins' = insert_records_Inr [OF ins [unfolded Inr]]
      obtain args where upd: "mw_SaveMetaInfo db w (si_UUID i) (CptMessages (ReadableMessages i) + of_nat (length rs))
          (SizeInBytes (ReadableMessages i) + bytes) (FirstMsgId (IngestedMessages i)) (dr_Id (last rs))
          (if CptMessages (ReadableMessages i) = 0 then dr_CreationDate (hd rs)
           else FirstMsgTimestamp (ReadableMessages i)) (dr_CreationDate (last rs)) log2 = sql db (?upd args) log2"
        and e: "\<And>s r. sql_effect ?q s (?upd args, r) = s"
        by (auto simp: mw_SaveMetaInfo_def)
      have o: "open_transactions (log2 @ [(?upd args, r)]) = open_transactions (mw_log w) + 1" for r
        using ins' by (cases r) simp_all
      have st: "sql_state ?q log2 = (fst (sql_state ?q (mw_log w)), map (row_of mj) rs)"
        using ins' by simp
      show ?thesis
      proof (cases "db log2 (?upd args)")
        case (Some e1)
        with assms b ins Inr upd have w: "err = Some e1" "i' = i" "w' = w\<lparr>mw_log := log2 @ [(?upd args, Some e1)]\<rparr>"
          by (auto simp: mysql_Write_def sql_def Let_def)
        show ?thesis
          by (rule abandoned [OF w(1,2)]) (use w o Some st e in \<open>auto\<close>)
      next
        case u: None
        let ?l3 = "log2 @ [(?upd args, None :: go_error option)]"
        show ?thesis
        proof (cases "db ?l3 Commit")
          case (Some e2)
          let ?l4 = "?l3 @ [(Commit, Some e2)]"
          from assms b ins Inr upd u Some have w: "err = Some e2" "i' = i"
            "w' = w\<lparr>mw_log := ?l4 @ [(Rollback, db ?l4 Rollback)]\<rparr>"
            by (auto simp: mysql_Write_def sql_def Let_def)
          show ?thesis
            by (rule failed [OF w(1,2)]) (use w o [of None] st e in auto)
        next
          case None
          from assms b ins Inr upd u None have w: "err = None" "i' = count_batch bytes rs i"
            "w' = w\<lparr>mw_log := ?l3 @ [(Commit, None)]\<rparr>"
            by (auto simp: mysql_Write_def sql_def Let_def)
          show ?thesis
            by (rule written [OF w(1)]) (use w o [of None] st e ins' in auto)
        qed
      qed
    qed
  qed
qed

lemma mysql_Write_nil [simp]: "mysql_Write mj db st [] = (st, None)"
  by (simp add: mysql_Write_def split: prod.splits)

lemma mysql_Write_names:
  "mysql_Write mj db (i, w) rs = ((i', w'), err) \<Longrightarrow> insert_query w' = insert_query w \<and> update_query w' = update_query w"
  by (auto simp: mysql_Write_def Let_def insert_query_def update_query_def
      split: if_splits option.splits prod.splits sum.splits)

text \<open>
  The rows of the stream's table are the records, in order: the contract of the writers, with all of
  the batch or nothing of it stored.
\<close>

definition my_rows :: "mysql_writer \<Rightarrow> sql_row list" where
  "my_rows w = committed (insert_query w) (mw_log w)"

definition my_holds :: "('x deferred \<Rightarrow> go_error + string) \<Rightarrow> mysql_writer \<Rightarrow> 'x deferred list \<Rightarrow> bool" where
  "my_holds mj w rs \<longleftrightarrow> my_rows w = map (row_of mj) rs \<and> list_all (\<lambda>r. \<exists>s. mj r = Inr s) rs"

lemma count_batch_frame [simp]:
  "si_UUID (count_batch n rs i) = si_UUID i" "IngestedMessages (count_batch n rs i) = IngestedMessages i"
  "si_Properties (count_batch n rs i) = si_Properties i"
  by (simp_all add: count_batch_def Let_def)

lemma first_readable_sum: "SizeInBytes (ReadableMessages (first_readable i rs)) = SizeInBytes (ReadableMessages i)"
  by (simp add: first_readable_def)

lemma describes_batch:
  assumes "describes w (ReadableMessages i) old" and "length old < 2 ^ 64" and "rs \<noteq> []"
  shows "describes w (ReadableMessages (count_batch (sum_list (map w rs)) rs i)) (old @ rs)"
proof -
  have "old = [] \<Longrightarrow> CptMessages (ReadableMessages i) = 0" using assms(1) by (simp add: describes_def)
  moreover have "old \<noteq> [] \<Longrightarrow> CptMessages (ReadableMessages i) \<noteq> 0"
    using assms(1,2) of_nat_u64_inj [of "length old" 0] by (auto simp: describes_def)
  ultimately show ?thesis
    using assms by (cases "old = []") (auto simp: describes_def count_batch_def Let_def first_readable_def)
qed

interpretation my_writer: closable_writer "mysql_Write mj db" "my_holds mj" "json_size mj" mw_Close
  for mj :: "'x deferred \<Rightarrow> go_error + string" and db
proof unfold_locales
  fix w w' :: mysql_writer and i i' :: "'x stream_info" and old rs :: "'x deferred list" and err
  assume h: "my_holds mj w old" and st: "mysql_Write mj db (i, w) rs = ((i', w'), err)"
  show "\<exists>k\<le>length rs. my_holds mj w' (old @ take k rs) \<and> (err = None \<longrightarrow> k = length rs) \<and>
      (length (old @ take k rs) < 2 ^ 64 \<longrightarrow> describes (json_size mj) (ReadableMessages i) old \<longrightarrow>
        describes (json_size mj) (ReadableMessages i') (old @ take k rs))"
  proof (cases "rs = []")
    case True
    with h st show ?thesis by auto
  next
    case False
    have iq: "insert_query w' = insert_query w" using mysql_Write_names [OF st] ..
    have none: ?thesis if "err \<noteq> None" "i' = i" "my_rows w' = my_rows w"
      by (rule exI [of _ 0]) (use h that in \<open>auto simp: my_holds_def\<close>)
    from st False show ?thesis
    proof (cases rule: mysql_Write_cases [where q = "insert_query w"])
      case written
      then have "my_holds mj w' (old @ rs)" using h by (simp add: my_holds_def my_rows_def committed_state iq)
      with written False show ?thesis by (intro exI [of _ "length rs"]) (auto intro!: describes_batch)
    qed (use none in \<open>simp_all add: my_rows_def committed_state iq\<close>)
  qed
next
  fix w w' :: mysql_writer and i i' :: "'x stream_info" and rs :: "'x deferred list" and err
  assume st: "mysql_Write mj db (i, w) rs = ((i', w'), err)"
  show "si_UUID i' = si_UUID i \<and> IngestedMessages i' = IngestedMessages i \<and> si_Properties i' = si_Properties i"
  proof (cases "rs = []")
    case False
    from st False show ?thesis by (cases rule: mysql_Write_cases) auto
  qed (use st in auto)
qed (simp add: mw_Close_def)

lemma insert_records_succeeds:
  "list_all (\<lambda>r. \<exists>s. mj r = Inr s) rs \<Longrightarrow> (\<And>log args. db log (Tx_Exec q args) = None) \<Longrightarrow>
     \<exists>log' bytes. insert_records mj db q rs n log = (log', Inr bytes)"
proof (induction rs arbitrary: n log)
  case (Cons r rs)
  from Cons.prems(1) obtain s where "mj r = Inr s" by auto
  with Cons show ?case by (simp add: sql_def)
qed simp

lemma failed_update_leaks:
  assumes "\<And>log. db log Begin = None" and "\<And>log args. db log (Tx_Exec (insert_query w) args) = None"
    and "\<And>log args. db log (Tx_Exec (update_query w) args) = Some e"
    and "list_all (\<lambda>r. \<exists>s. mj r = Inr s) rs" and "rs \<noteq> []"
  shows "\<exists>w'. mysql_Write mj db (i, w) rs = ((i, w'), Some e) \<and> insert_query w' = insert_query w \<and>
     update_query w' = update_query w \<and> my_rows w' = my_rows w \<and>
     open_transactions (mw_log w') = open_transactions (mw_log w) + 1"
proof -
  obtain i' w' err where w: "mysql_Write mj db (i, w) rs = ((i', w'), err)" by (metis surj_pair)
  obtain log' bytes where ins: "insert_records mj db (insert_query w) rs 0 (mw_log w @ [(Begin, None)]) = (log', Inr bytes)"
    using insert_records_succeeds [of mj rs db "insert_query w"] assms(2,4) by blast
  have o: "open_transactions log' = open_transactions (mw_log w) + 1" using insert_records_Inr [OF ins] by simp
  from w ins assms(1,3,5) have e: "err = Some e" "i' = i" "\<exists>args. mw_log w' = log' @ [(Tx_Exec (update_query w) args, Some e)]"
    by (auto simp: mysql_Write_def sql_def mw_SaveMetaInfo_def Let_def)
  note names = mysql_Write_names [OF w]
  have "my_rows w' = my_rows w"
    using w assms(5) by (cases rule: mysql_Write_cases [where q = "insert_query w"])
      (use e names in \<open>simp_all add: my_rows_def committed_state\<close>)
  with w e o names show ?thesis by auto
qed

section \<open>Properties\<close>


text \<open>A writer, a batch of two records and a database that refuses the second insertion.\<close>

definition sample_mysql_writer :: mysql_writer where
  "sample_mysql_writer = NewStreamWriterMySQL ''db'' ''streams'' ''stream_1'' []"

definition sample_mysql_mj :: "nat deferred \<Rightarrow> go_error + string" where
  "sample_mysql_mj r = Inr ''x''"

definition sample_mysql_db :: sql_db where
  "sample_mysql_db log c = (if length log = 2 then Some (Error ''duplicate entry'') else None)"

definition sample_mysql_batch :: "nat deferred list" where
  "sample_mysql_batch = [\<lparr>dr_Id = 1, dr_CreationDate = 0, dr_Msg = IOther 5\<rparr>, \<lparr>dr_Id = 2, dr_CreationDate = 0, dr_Msg = IOther 6\<rparr>]"


text \<open>
  A failing update of the catalog leaks transactions. While the database accepts the rows of a stream but
  refuses to update the stream's entry in the catalog, every save of the ingest buffer fails, keeps the
  buffer, stores nothing, and leaves one more transaction open: \<open>n\<close> saves take \<open>n\<close> connections of the pool.
\<close>

theorem failed_updates_leak:
  assumes "\<And>log. db log Begin = None" and "\<And>log args. db log (Tx_Exec (insert_query (ib_writer b)) args) = None"
    and "\<And>log args. db log (Tx_Exec (update_query (ib_writer b)) args) = Some e"
    and "list_all (\<lambda>r. \<exists>s. mj r = Inr s) (ib_msgBuffer b)" and "ib_msgBuffer b \<noteq> []"
  shows "\<exists>w. ((\<lambda>ib. fst (ib_Save (mysql_Write mj db) ib)) ^^ n) (i, b) = (i, b\<lparr>ib_writer := w\<rparr>) \<and>
     my_rows w = my_rows (ib_writer b) \<and>
     open_transactions (mw_log w) = open_transactions (mw_log (ib_writer b)) + int n"
proof -
  let ?save = "\<lambda>ib. fst (ib_Save (mysql_Write mj db) ib)"
  have "\<exists>w. (?save ^^ n) (i, b) = (i, b\<lparr>ib_writer := w\<rparr>) \<and> insert_query w = insert_query (ib_writer b) \<and>
     update_query w = update_query (ib_writer b) \<and> my_rows w = my_rows (ib_writer b) \<and>
     open_transactions (mw_log w) = open_transactions (mw_log (ib_writer b)) + int n"
  proof (induction n)
    case 0
    show ?case by (rule exI [of _ "ib_writer b"]) simp
  next
    case (Suc n)
    then obtain w where w: "(?save ^^ n) (i, b) = (i, b\<lparr>ib_writer := w\<rparr>)" "insert_query w = insert_query (ib_writer b)"
      "update_query w = update_query (ib_writer b)" "my_rows w = my_rows (ib_writer b)"
      "open_transactions (mw_log w) = open_transactions (mw_log (ib_writer b)) + int n" by blast
    obtain w' where w': "mysql_Write mj db (i, w) (ib_msgBuffer b) = ((i, w'), Some e)" "insert_query w' = insert_query w"
      "update_query w' = update_query w" "my_rows w' = my_rows w"
      "open_transactions (mw_log w') = open_transactions (mw_log w) + 1"
      using failed_update_leaks [of db w e mj "ib_msgBuffer b" i] assms w(2,3) by auto
    then have "(?save ^^ Suc n) (i, b) = (i, b\<lparr>ib_writer := w'\<rparr>)" using w(1) by (simp add: ib_Save_def)
    with w w' show ?case by (intro exI [of _ w']) simp
  qed
  then show ?thesis by blast
qed

definition sample_mysql_buf :: "(nat, mysql_writer) ingest_buffer" where
  "sample_mysql_buf = \<lparr>ib_bulkFlushFrequency = 0, ib_bulkMaxSize = 1, ib_channelSize = 1, ib_channelMsg = [],
     ib_msgBuffer = sample_mysql_batch, ib_writer = sample_mysql_writer\<rparr>"

definition sample_readonly_db :: sql_db where
  "sample_readonly_db log c =
     (case c of Tx_Exec q args \<Rightarrow> if q = update_query sample_mysql_writer then Some (Error ''denied'') else None | _ \<Rightarrow> None)"

lemma failed_updates_leak_witness:
  "open_transactions (mw_log (ib_writer (snd (((\<lambda>ib. fst (ib_Save (mysql_Write sample_mysql_mj sample_readonly_db) ib)) ^^ 3)
     (NewStreamInfo 0 7, sample_mysql_buf))))) = 3"
proof -
  have "\<exists>w. ((\<lambda>ib. fst (ib_Save (mysql_Write sample_mysql_mj sample_readonly_db) ib)) ^^ 3)
      (NewStreamInfo 0 7, sample_mysql_buf) = (NewStreamInfo 0 7, sample_mysql_buf\<lparr>ib_writer := w\<rparr>) \<and>
      my_rows w = my_rows (ib_writer sample_mysql_buf) \<and>
      open_transactions (mw_log w) = open_transactions (mw_log (ib_writer sample_mysql_buf)) + int 3"
    by (rule failed_updates_leak [where e = "Error ''denied''"])
      (use update_is_not_insert [of sample_mysql_writer] in
        \<open>auto simp: sample_readonly_db_def sample_mysql_buf_def sample_mysql_mj_def sample_mysql_batch_def\<close>)
  then show ?thesis
    by (auto simp: sample_mysql_buf_def sample_mysql_writer_def NewStreamWriterMySQL_def)
qed

end
