(* ===== verification/MySqlReader.thy ===== *)
theory MySqlReader
  imports MySqlWriter StreamIter
begin

text \<open>
  Reading streams stored in MySQL (storageprovider/mysqlprovider: streamindex.go,
  streamiteratorhandler.go): the lookups of a position by id or time, and the handler behind an
  iterator, which reads the table of the stream in chunks.
\<close>

section \<open>Queries\<close>

text \<open>
  The answers of the database to the queries of the code, by the type of what is scanned. A query
  for one row finds it, finds none (\<^verbatim>\<open>sql.ErrNoRows\<close>) or fails; a query for many rows fails or
  gives a sequence of rows of which each can be scanned or not. The code does not look at
  \<^verbatim>\<open>rows.Err()\<close>, so an error that ends the sequence early shows as a shorter sequence.
\<close>

datatype 'v scanned_row = Scanned 'v | No_Rows | Scan_Error go_error

record sql_queries =
  qr_number :: "string \<Rightarrow> sql_arg list \<Rightarrow> int scanned_row"
  qr_id :: "string \<Rightarrow> sql_arg list \<Rightarrow> u64 scanned_row"
  qr_id_date :: "string \<Rightarrow> sql_arg list \<Rightarrow> (u64 \<times> time) scanned_row"
  qr_rows :: "string \<Rightarrow> sql_arg list \<Rightarrow> go_error + (go_error + u64 \<times> string \<times> string) list"

section \<open>The index (streamindex.go)\<close>

text \<open>
  The index of a stream keeps no data of its own; \<open>info\<close> is the description it shares with the
  stream, and \<open>show_uuid\<close> is \<^verbatim>\<open>uuid.String\<close>.
\<close>

record mysql_index =
  mx_streamUUID :: uuid
  mx_schemaName :: string
  mx_tableName :: string

record mysql_index_stats =
  ms_CptMessages :: int
  ms_FirstMsgId :: u64
  ms_LastMsgId :: u64
  ms_FirstMsgTimestamp :: time
  ms_LastMsgTimestamp :: time

definition mx_NewStreamIndex :: "uuid \<Rightarrow> string \<Rightarrow> string \<Rightarrow> mysql_index" where
  "mx_NewStreamIndex streamUUID schemaName tableName =
     \<lparr>mx_streamUUID = streamUUID, mx_schemaName = schemaName, mx_tableName = tableName\<rparr>"

definition mx_Close :: "mysql_index \<Rightarrow> go_error option" where
  "mx_Close idx = None"

definition GetFullTableName :: "(uuid \<Rightarrow> string) \<Rightarrow> mysql_index \<Rightarrow> string" where
  "GetFullTableName show_uuid idx = mx_schemaName idx @ ''.stream_'' @ show_uuid (mx_streamUUID idx)"

definition no_message :: go_error where
  "no_message = Error ''no message found''"

definition err_no_rows :: go_error where
  "err_no_rows = Error ''sql: no rows in result set''"

definition unknown_id :: go_error where
  "unknown_id = Error ''message id not found''"

definition mx_GetStats :: "sql_queries \<Rightarrow> (uuid \<Rightarrow> string) \<Rightarrow> mysql_index \<Rightarrow> go_error + mysql_index_stats" where
  "mx_GetStats Q show_uuid idx =
     (let fullTableName = GetFullTableName show_uuid idx in
      case qr_number Q (''SELECT COUNT(*) FROM '' @ fullTableName) [] of
        Scan_Error e \<Rightarrow> Inl e
      | No_Rows \<Rightarrow> Inl err_no_rows
      | Scanned n \<Rightarrow>
          (case qr_id_date Q (''SELECT `id`, `creation_date` FROM '' @ fullTableName @ '' ORDER BY `id` ASC LIMIT 1'') [] of
             Scan_Error e \<Rightarrow> Inl e
           | No_Rows \<Rightarrow> Inl err_no_rows
           | Scanned (firstId, firstDate) \<Rightarrow>
               (case qr_id_date Q (''SELECT `id`, `creation_date` FROM '' @ fullTableName @ '' ORDER BY `id` DESC LIMIT 1'') [] of
                  Scan_Error e \<Rightarrow> Inl e
                | No_Rows \<Rightarrow> Inl err_no_rows
                | Scanned (lastId, lastDate) \<Rightarrow>
                    Inr \<lparr>ms_CptMessages = n, ms_FirstMsgId = firstId, ms_LastMsgId = lastId,
                      ms_FirstMsgTimestamp = firstDate, ms_LastMsgTimestamp = lastDate\<rparr>)))"

definition mx_BuildIndex ::
    "sql_db \<Rightarrow> sql_queries \<Rightarrow> (uuid \<Rightarrow> string) \<Rightarrow> mysql_index \<Rightarrow> sql_log \<Rightarrow> sql_log \<times> (go_error + mysql_index_stats)" where
  "mx_BuildIndex db Q show_uuid idx log =
     (case sql db (Exec (''OPTIMIZE TABLE '' @ GetFullTableName show_uuid idx) []) log of
        (log1, Some e) \<Rightarrow> (log1, Inl e)
      | (log1, None) \<Rightarrow> (log1, mx_GetStats Q show_uuid idx))"

definition mx_GetFirstMessageId :: "'x stream_info \<Rightarrow> go_error + u64" where
  "mx_GetFirstMessageId info = Inr (FirstMsgId (ReadableMessages info))"

definition mx_GetLastMessageId :: "'x stream_info \<Rightarrow> go_error + u64" where
  "mx_GetLastMessageId info = Inr (LastMsgId (ReadableMessages info))"

definition mx_GetMessageIdAfterLastMessage :: "'x stream_info \<Rightarrow> go_error + u64" where
  "mx_GetMessageIdAfterLastMessage info =
     Inr (if CptMessages (ReadableMessages info) = 0 then 0 else LastMsgId (ReadableMessages info) + 1)"

definition mx_GetMessageId ::
    "sql_queries \<Rightarrow> (uuid \<Rightarrow> string) \<Rightarrow> 'x stream_info \<Rightarrow> mysql_index \<Rightarrow> u64 \<Rightarrow> go_error + u64" where
  "mx_GetMessageId Q show_uuid info idx messageId =
     (if messageId > LastMsgId (ReadableMessages info) then Inl unknown_id
      else case qr_number Q (''SELECT EXISTS(SELECT 1 FROM '' @ GetFullTableName show_uuid idx @ '' WHERE `id` = ?)'')
             [ANum messageId] of
        No_Rows \<Rightarrow> Inl unknown_id
      | Scan_Error e \<Rightarrow> Inl e
      | Scanned e \<Rightarrow> if e = 0 then Inl unknown_id else Inr messageId)"

definition mx_GetMessageIdAfterMessageId ::
    "sql_queries \<Rightarrow> (uuid \<Rightarrow> string) \<Rightarrow> 'x stream_info \<Rightarrow> mysql_index \<Rightarrow> u64 \<Rightarrow> go_error + u64" where
  "mx_GetMessageIdAfterMessageId Q show_uuid info idx messageId =
     (if messageId > LastMsgId (ReadableMessages info) then Inl unknown_id
      else case qr_id Q (''SELECT `id` FROM '' @ GetFullTableName show_uuid idx @ '' WHERE `id` > ? ORDER BY `id` ASC LIMIT 1'')
             [ANum messageId] of
        No_Rows \<Rightarrow> Inl no_message
      | Scan_Error e \<Rightarrow> Inl e
      | Scanned i \<Rightarrow> Inr i)"

definition mx_GetMessageIdAtTimestamp ::
    "sql_queries \<Rightarrow> (uuid \<Rightarrow> string) \<Rightarrow> mysql_index \<Rightarrow> time \<Rightarrow> go_error + u64" where
  "mx_GetMessageIdAtTimestamp Q show_uuid idx timestamp =
     (case qr_id Q (''SELECT `id` FROM '' @ GetFullTableName show_uuid idx @
             '' WHERE `timestamp` >= ? ORDER BY `id` ASC LIMIT 1'') [ATime timestamp] of
        No_Rows \<Rightarrow> Inl no_message
      | Scan_Error e \<Rightarrow> Inl e
      | Scanned i \<Rightarrow> Inr i)"

section \<open>The handler (streamiteratorhandler.go)\<close>

text \<open>A row in the buffer keeps its id and the decoded record; the date is read and not used.\<close>

record 'r mysql_handler =
  mh_streamUUID :: uuid
  mh_itUUID :: uuid
  mh_initialized :: bool
  mh_nextRecordIdRead :: u64
  mh_index :: mysql_index
  mh_buffer :: "(u64 \<times> string \<times> 'r iface) list"
  mh_bufferSize :: nat
  mh_bufferIndex :: nat
  mh_bufferNextId :: u64
  mh_schemaName :: string
  mh_streamTableName :: string

definition NewStreamIteratorHandlerMySQL ::
    "uuid \<Rightarrow> uuid \<Rightarrow> mysql_index \<Rightarrow> string \<Rightarrow> string \<Rightarrow> nat \<Rightarrow> 'r mysql_handler" where
  "NewStreamIteratorHandlerMySQL streamUUID iteratorUUID idx schemaName streamTableName bufferSize =
     \<lparr>mh_streamUUID = streamUUID, mh_itUUID = iteratorUUID, mh_initialized = False, mh_nextRecordIdRead = 0,
      mh_index = idx, mh_buffer = [], mh_bufferSize = bufferSize, mh_bufferIndex = 0, mh_bufferNextId = 0,
      mh_schemaName = schemaName, mh_streamTableName = streamTableName\<rparr>"

definition mh_Open :: "'r mysql_handler \<Rightarrow> 'r mysql_handler \<times> go_error option" where
  "mh_Open h = (h, None)"

definition mh_Close :: "'r mysql_handler \<Rightarrow> 'r mysql_handler \<times> go_error option" where
  "mh_Close h = (h, None)"

definition mh_SaveSeek :: "'r mysql_handler \<Rightarrow> 'r mysql_handler \<times> go_error option" where
  "mh_SaveSeek h = (h, None)"

definition mh_target ::
    "sql_queries \<Rightarrow> (uuid \<Rightarrow> string) \<Rightarrow> 'x stream_info \<Rightarrow> mysql_index \<Rightarrow> iterator_request \<Rightarrow> go_error + u64" where
  "mh_target Q show_uuid info idx rq =
     (if rq_IteratorType rq = ''FIRST_MESSAGE'' then mx_GetFirstMessageId info
      else if rq_IteratorType rq = ''LAST_MESSAGE'' then mx_GetLastMessageId info
      else if rq_IteratorType rq = ''AFTER_LAST_MESSAGE'' then mx_GetMessageIdAfterLastMessage info
      else if rq_IteratorType rq = ''AT_MESSAGE_ID'' then mx_GetMessageId Q show_uuid info idx (rq_MessageId rq)
      else if rq_IteratorType rq = ''AFTER_MESSAGE_ID'' then mx_GetMessageIdAfterMessageId Q show_uuid info idx (rq_MessageId rq)
      else if rq_IteratorType rq = ''AT_TIMESTAMP'' then mx_GetMessageIdAtTimestamp Q show_uuid idx (rq_Timestamp rq)
      else Inl (Error ''invalid iterator type''))"

definition mh_Seek ::
    "sql_queries \<Rightarrow> (uuid \<Rightarrow> string) \<Rightarrow> 'x stream_info \<Rightarrow> iterator_request option \<Rightarrow> 'r mysql_handler \<Rightarrow>
       'r mysql_handler \<times> go_error option" where
  "mh_Seek Q show_uuid info request h =
     (if mh_initialized h then (h, None)
      else case request of
        None \<Rightarrow> (h, Some (Panic ''nil pointer dereference''))
      | Some rq \<Rightarrow>
          (case mh_target Q show_uuid info (mh_index h) rq of
             Inl e \<Rightarrow> (h, Some e)
           | Inr i \<Rightarrow> (h\<lparr>mh_initialized := True, mh_nextRecordIdRead := i, mh_bufferNextId := i, mh_bufferIndex := 0\<rparr>, None)))"

definition select_query :: "'r mysql_handler \<Rightarrow> string" where
  "select_query h = ''SELECT `id`, `timestamp`, `message` FROM '' @ mh_schemaName h @ ''.'' @ mh_streamTableName h @
     '' WHERE `id` >= ? ORDER BY `id` ASC LIMIT ?''"

text \<open>The loop over the rows; \<open>um\<close> is \<^verbatim>\<open>json.Unmarshal\<close> of a message. A message that cannot be decoded is dropped.\<close>

fun read_rows ::
    "(string \<Rightarrow> go_error + 'r iface) \<Rightarrow> (go_error + u64 \<times> string \<times> string) list \<Rightarrow> 'r mysql_handler \<Rightarrow>
       'r mysql_handler \<times> go_error option" where
  "read_rows um [] h = (h, None)"
| "read_rows um (Inl e # rows) h = (h, Some e)"
| "read_rows um (Inr (i, date, strMsg) # rows) h =
     (case um strMsg of
        Inl e \<Rightarrow> read_rows um rows h
      | Inr m \<Rightarrow> read_rows um rows (h\<lparr>mh_buffer := mh_buffer h @ [(i, date, m)], mh_bufferNextId := i + 1\<rparr>))"

definition fillBuffer ::
    "(string \<Rightarrow> go_error + 'r iface) \<Rightarrow> sql_queries \<Rightarrow> 'r mysql_handler \<Rightarrow> 'r mysql_handler \<times> go_error option" where
  "fillBuffer um Q h =
     (case qr_rows Q (select_query h) [ANum (mh_bufferNextId h), AInt (int (mh_bufferSize h))] of
        Inl e \<Rightarrow> (h, Some e)
      | Inr rows \<Rightarrow> read_rows um rows (h\<lparr>mh_buffer := []\<rparr>))"

text \<open>The result when no record is found, and the record at the place of the buffer where the handler stands.\<close>

definition buffered_record :: "'r mysql_handler \<Rightarrow> go_error + 'r mysql_handler \<times> 'r next_result" where
  "buffered_record h =
     (if mh_buffer h = [] then Inr (h, 0, INil, False, True, None)
      else case slice_get (mh_buffer h) (mh_bufferIndex h) of
        Inl e \<Rightarrow> Inl e
      | Inr (i, date, m) \<Rightarrow>
          Inr (h\<lparr>mh_bufferIndex := mh_bufferIndex h + 1, mh_nextRecordIdRead := i + 1\<rparr>, i, m, True, True, None))"

definition mh_GetNextRecord ::
    "(string \<Rightarrow> go_error + 'r iface) \<Rightarrow> sql_queries \<Rightarrow> 'r mysql_handler \<Rightarrow>
       go_error + 'r mysql_handler \<times> 'r next_result" where
  "mh_GetNextRecord um Q h =
     (if mh_bufferIndex h \<ge> length (mh_buffer h)
      then (case fillBuffer um Q h of
              (h1, Some e) \<Rightarrow> Inr (h1, 0, INil, False, True, Some e)
            | (h1, None) \<Rightarrow> buffered_record (h1\<lparr>mh_bufferIndex := 0\<rparr>))
      else buffered_record h)"

definition mh_ops ::
    "(string \<Rightarrow> go_error + 'r iface) \<Rightarrow> sql_queries \<Rightarrow> (uuid \<Rightarrow> string) \<Rightarrow> 'x stream_info \<Rightarrow>
       ('r mysql_handler, 'r) handler_ops" where
  "mh_ops um Q show_uuid info = \<lparr>ho_Open = mh_Open, ho_Close = mh_Close, ho_Seek = mh_Seek Q show_uuid info,
     ho_SaveSeek = mh_SaveSeek, ho_GetNextRecord = mh_GetNextRecord um Q\<rparr>"

section \<open>What the database answers\<close>

text \<open>
  The documented meaning of the statement that fills the buffer, over the rows of the stream's table:
  those with an id of at least the first argument, in the order of the ids, at most as many as the
  second argument. \<open>fmt\<close> is the text of a timestamp.
\<close>

definition chunk :: "u64 \<Rightarrow> nat \<Rightarrow> sql_row list \<Rightarrow> sql_row list" where
  "chunk i n table = take n (filter (\<lambda>r. i \<le> fst r) (sort_key fst table))"

definition select_rows ::
    "(time \<Rightarrow> string) \<Rightarrow> sql_row list \<Rightarrow> sql_arg list \<Rightarrow> go_error + (go_error + u64 \<times> string \<times> string) list" where
  "select_rows fmt table args =
     (case args of
        [ANum i, AInt n] \<Rightarrow> Inr (map (\<lambda>(j, t, s). Inr (j, fmt t, s)) (chunk i (nat n) table))
      | _ \<Rightarrow> Inl (Error ''wrong arguments''))"

definition table_queries :: "sql_queries \<Rightarrow> (time \<Rightarrow> string) \<Rightarrow> sql_row list \<Rightarrow> sql_queries" where
  "table_queries Q fmt table = Q\<lparr>qr_rows := \<lambda>q. select_rows fmt table\<rparr>"

text \<open>The handler over a table that other goroutines extend: its operations take the table beside the handler.\<close>

type_synonym 'r table_handler = "sql_row list \<times> 'r mysql_handler"

definition mt_GetNextRecord ::
    "(string \<Rightarrow> go_error + 'r iface) \<Rightarrow> sql_queries \<Rightarrow> (time \<Rightarrow> string) \<Rightarrow> 'r table_handler \<Rightarrow>
       go_error + 'r table_handler \<times> 'r next_result" where
  "mt_GetNextRecord um Q fmt th =
     (case th of (table, h) \<Rightarrow>
      (case mh_GetNextRecord um (table_queries Q fmt table) h of
         Inl e \<Rightarrow> Inl e
       | Inr (h', x) \<Rightarrow> Inr ((table, h'), x)))"

definition mt_ops ::
    "(string \<Rightarrow> go_error + 'r iface) \<Rightarrow> sql_queries \<Rightarrow> (time \<Rightarrow> string) \<Rightarrow> (uuid \<Rightarrow> string) \<Rightarrow> 'x stream_info \<Rightarrow>
       ('r table_handler, 'r) handler_ops" where
  "mt_ops um Q fmt show_uuid info = \<lparr>ho_Open = \<lambda>(t, h). map_prod (Pair t) id (mh_Open h),
     ho_Close = \<lambda>(t, h). map_prod (Pair t) id (mh_Close h),
     ho_Seek = \<lambda>rq (t, h). map_prod (Pair t) id (mh_Seek Q show_uuid info rq h),
     ho_SaveSeek = \<lambda>(t, h). map_prod (Pair t) id (mh_SaveSeek h),
     ho_GetNextRecord = mt_GetNextRecord um Q fmt\<rparr>"

section \<open>The handler as a source of records\<close>

text \<open>What is still to come: the rest of the buffer and the rows that no chunk has fetched.\<close>

definition decoded :: "(string \<Rightarrow> go_error + 'r iface) \<Rightarrow> sql_row \<Rightarrow> u64 \<times> (go_error + 'r iface)" where
  "decoded um r = (fst r, um (snd (snd r)))"

definition mt_pending :: "(string \<Rightarrow> go_error + 'r iface) \<Rightarrow> 'r table_handler \<Rightarrow> (u64 \<times> (go_error + 'r iface)) list" where
  "mt_pending um th = (case th of (table, h) \<Rightarrow>
     map (\<lambda>(i, d, m). (i, Inr m)) (drop (mh_bufferIndex h) (mh_buffer h)) @
     map (decoded um) (filter (\<lambda>r. mh_bufferNextId h \<le> fst r) table))"

text \<open>
  A table in the order of its ids, of which every message decodes and none has the largest number as
  its id, and a handler that has found its first position.
\<close>

definition good_table :: "(string \<Rightarrow> go_error + 'r iface) \<Rightarrow> sql_row list \<Rightarrow> bool" where
  "good_table um table \<longleftrightarrow> sorted_wrt (<) (map fst table) \<and>
     (\<forall>r \<in> set table. unat (fst r) + 1 < 2 ^ 64 \<and> (\<exists>m. um (snd (snd r)) = Inr m))"

definition mt_ok :: "(string \<Rightarrow> go_error + 'r iface) \<Rightarrow> 'r table_handler \<Rightarrow> bool" where
  "mt_ok um th \<longleftrightarrow> (case th of (table, h) \<Rightarrow> good_table um table \<and> mh_initialized h \<and> 0 < mh_bufferSize h)"

lemma sort_good_table: "sorted_wrt (<) (map fst table) \<Longrightarrow> sort_key fst table = (table :: sql_row list)"
  by (rule sort_key_id_if_sorted) (metis strict_sorted_imp_sorted)

lemma read_rows_decoded:
  "\<forall>r \<in> set rows. \<exists>m. um (snd (snd r)) = Inr m \<Longrightarrow>
     read_rows um (map (\<lambda>(j, t, s). Inr (j, fmt t, s)) rows) h =
       (h\<lparr>mh_buffer := mh_buffer h @ map (\<lambda>(j, t, s). (j, fmt t, projr (um s))) rows,
          mh_bufferNextId := (if rows = [] then mh_bufferNextId h else fst (last rows) + 1)\<rparr>, None)"
proof (induction rows arbitrary: h)
  case (Cons r rows)
  obtain j t s where r: "r = (j, t, s)" by (cases r)
  with Cons.prems obtain m where "um s = Inr m" by auto
  with Cons r show ?case by auto
qed simp

lemma filter_after_last:
  fixes T :: "sql_row list"
  assumes "sorted_wrt (<) (map fst T)" and "\<forall>r \<in> set T. unat (fst r) + 1 < 2 ^ 64"
    and "filter (\<lambda>r. n \<le> fst r) T = ys @ zs" and "ys \<noteq> []"
  shows "filter (\<lambda>r. fst (last ys) + 1 \<le> fst r) T = zs"
proof -
  let ?l = "fst (last ys)"
  have l: "last ys \<in> set (filter (\<lambda>r. n \<le> fst r) T)" using assms(3,4) by simp
  then have n: "n \<le> ?l" and m: "unat ?l + 1 < 2 ^ 64" using assms(2) by auto
  have up: "?l + 1 \<le> x \<longleftrightarrow> ?l < x" for x
    using unat_Suc_small [OF m] by (simp add: word_le_nat_alt word_less_nat_alt Suc_le_eq)
  have ys: "ys = butlast ys @ [last ys]" using assms(4) by simp
  have "sorted_wrt (\<lambda>x y. fst x < fst y) (ys @ zs)"
    unfolding assms(3) [symmetric] using assms(1) by (simp add: sorted_wrt_map sorted_wrt_filter)
  then have "sorted_wrt (\<lambda>x y. fst x < fst y) (butlast ys @ last ys # zs)"
    using ys by (metis append.assoc append_Cons append_Nil)
  then have "\<forall>y \<in> set (butlast ys). fst y < ?l" "\<forall>z \<in> set zs. ?l < fst z"
    by (simp_all add: sorted_wrt_append)
  then have s: "\<forall>y \<in> set ys. fst y \<le> ?l" "\<forall>z \<in> set zs. ?l < fst z"
    using ys by (metis Un_iff empty_iff insert_iff less_imp_le list.set(1,2) order_refl set_append, blast)
  have "filter (\<lambda>r. ?l + 1 \<le> fst r) T = filter (\<lambda>r. ?l < fst r) (filter (\<lambda>r. n \<le> fst r) T)"
    using n by (auto simp: up intro!: filter_cong)
  also have "\<dots> = zs" unfolding assms(3) using s by (simp add: filter_empty_conv not_less)
  finally show ?thesis .
qed

lemma good_table_order: "good_table um T \<Longrightarrow> sort_key fst T = T"
  by (simp add: good_table_def sort_good_table)

text \<open>A fill takes the next chunk of a good table into the buffer.\<close>

lemma fill_good:
  assumes "good_table um T"
  shows "\<exists>h'. fillBuffer um (table_queries Q fmt T) h = (h', None) \<and>
     mh_buffer h' = map (\<lambda>(j, t, s). (j, fmt t, projr (um s))) (chunk (mh_bufferNextId h) (mh_bufferSize h) T) \<and>
     filter (\<lambda>r. mh_bufferNextId h' \<le> fst r) T =
       drop (mh_bufferSize h) (filter (\<lambda>r. mh_bufferNextId h \<le> fst r) T) \<and>
     mh_bufferIndex h' = mh_bufferIndex h \<and> mh_bufferSize h' = mh_bufferSize h \<and> mh_initialized h' = mh_initialized h"
proof -
  let ?P = "filter (\<lambda>r. mh_bufferNextId h \<le> fst r) T"
  let ?c = "chunk (mh_bufferNextId h) (mh_bufferSize h) T"
  have c: "?c = take (mh_bufferSize h) ?P" by (simp add: chunk_def good_table_order [OF assms])
  then have "set ?c \<subseteq> set T" by (auto dest: in_set_takeD)
  then have d: "\<forall>r \<in> set ?c. \<exists>m. um (snd (snd r)) = Inr m" using assms by (auto simp: good_table_def)
  let ?h' = "h\<lparr>mh_buffer := map (\<lambda>(j, t, s). (j, fmt t, projr (um s))) ?c,
     mh_bufferNextId := (if ?c = [] then mh_bufferNextId h else fst (last ?c) + 1)\<rparr>"
  have "fillBuffer um (table_queries Q fmt T) h = (?h', None)"
    using read_rows_decoded [OF d, of fmt "h\<lparr>mh_buffer := []\<rparr>"]
    by (simp add: fillBuffer_def table_queries_def select_rows_def)
  moreover have "filter (\<lambda>r. mh_bufferNextId ?h' \<le> fst r) T = drop (mh_bufferSize h) ?P"
  proof (cases "?c = []")
    case True
    then have "mh_bufferSize h = 0 \<or> ?P = []" using c by simp
    with True show ?thesis by auto
  next
    case False
    have "?P = ?c @ drop (mh_bufferSize h) ?P" by (simp add: c)
    from filter_after_last [OF _ _ this False] assms False show ?thesis by (simp add: good_table_def)
  qed
  ultimately show ?thesis by (intro exI [of _ ?h']) simp
qed

lemma buffered_record_next:
  assumes "mh_bufferIndex h < length (mh_buffer h)"
  shows "\<exists>i d m. mh_buffer h ! mh_bufferIndex h = (i, d, m) \<and> buffered_record h =
     Inr (h\<lparr>mh_bufferIndex := mh_bufferIndex h + 1, mh_nextRecordIdRead := i + 1\<rparr>, i, m, True, True, None)"
  using assms by (cases "mh_buffer h ! mh_bufferIndex h") (auto simp: buffered_record_def)

lemma buffer_pending:
  assumes "mt_ok um (T, h)" and "mh_bufferIndex h < length (mh_buffer h)"
  shows "\<exists>h' i m ps. mt_pending um (T, h) = (i, Inr m) # ps \<and>
     buffered_record h = Inr (h', i, m, True, True, None) \<and> mt_ok um (T, h') \<and> mt_pending um (T, h') = ps"
proof -
  from buffered_record_next [OF assms(2)] obtain i d m where
    r: "mh_buffer h ! mh_bufferIndex h = (i, d, m)" "buffered_record h =
      Inr (h\<lparr>mh_bufferIndex := mh_bufferIndex h + 1, mh_nextRecordIdRead := i + 1\<rparr>, i, m, True, True, None)" by blast
  have "drop (mh_bufferIndex h) (mh_buffer h) = (i, d, m) # drop (mh_bufferIndex h + 1) (mh_buffer h)"
    using assms(2) r(1) by (simp add: Cons_nth_drop_Suc [symmetric])
  with r(2) assms(1) show ?thesis by (auto simp: mt_pending_def mt_ok_def)
qed

text \<open>One step of the handler over a good table.\<close>

lemma mt_next:
  assumes "mt_ok um th"
  shows "(\<exists>h'. mt_pending um th = [] \<and> mt_GetNextRecord um Q fmt th = Inr (h', 0, INil, False, True, None) \<and>
        mt_ok um h' \<and> mt_pending um h' = []) \<or>
     (\<exists>h' i m ps. mt_pending um th = (i, Inr m) # ps \<and>
        mt_GetNextRecord um Q fmt th = Inr (h', i, m, True, True, None) \<and> mt_ok um h' \<and> mt_pending um h' = ps)"
proof -
  obtain T h where th: "th = (T, h)" by (cases th)
  have g: "good_table um T" using assms by (simp add: th mt_ok_def)
  show ?thesis
  proof (cases "mh_bufferIndex h < length (mh_buffer h)")
    case True
    from buffer_pending [OF assms [unfolded th] True] True show ?thesis
      by (auto simp: th mt_GetNextRecord_def mh_GetNextRecord_def)
  next
    case False
    from fill_good [OF g, of Q fmt h] obtain h1 where
      f: "fillBuffer um (table_queries Q fmt T) h = (h1, None)"
      "mh_buffer h1 = map (\<lambda>(j, t, s). (j, fmt t, projr (um s))) (chunk (mh_bufferNextId h) (mh_bufferSize h) T)"
      "filter (\<lambda>r. mh_bufferNextId h1 \<le> fst r) T = drop (mh_bufferSize h) (filter (\<lambda>r. mh_bufferNextId h \<le> fst r) T)"
      "mh_bufferSize h1 = mh_bufferSize h" "mh_initialized h1 = mh_initialized h" by blast
    let ?h1 = "h1\<lparr>mh_bufferIndex := 0\<rparr>"
    let ?P = "filter (\<lambda>r. mh_bufferNextId h \<le> fst r) T"
    have c: "chunk (mh_bufferNextId h) (mh_bufferSize h) T = take (mh_bufferSize h) ?P"
      by (simp add: chunk_def good_table_order [OF g])
    have pj: "Inr (projr (um s)) = um s" if "(j, t, s) \<in> set T" for j t s
      using g that by (fastforce simp: good_table_def)
    have "map (\<lambda>(i, d, m). (i, Inr m)) (mh_buffer h1) = map (decoded um) (take (mh_bufferSize h) ?P)"
      unfolding f(2) c by (auto simp: decoded_def pj dest!: in_set_takeD)
    then have "mt_pending um (T, ?h1) = map (decoded um) (take (mh_bufferSize h) ?P @ drop (mh_bufferSize h) ?P)"
      unfolding map_append by (simp add: mt_pending_def f(3))
    then have p: "mt_pending um (T, ?h1) = mt_pending um th"
      using False by (simp add: mt_pending_def th)
    have ok: "mt_ok um (T, ?h1)" using assms f(4,5) by (simp add: th mt_ok_def)
    have n: "mt_GetNextRecord um Q fmt th = (case buffered_record ?h1 of Inl e \<Rightarrow> Inl e | Inr (h', x) \<Rightarrow> Inr ((T, h'), x))"
      using False f(1) by (simp add: th mt_GetNextRecord_def mh_GetNextRecord_def)
    show ?thesis
    proof (cases "mh_buffer h1 = []")
      case True
      then have "take (mh_bufferSize h) ?P = []" using f(2) c by simp
      then have "?P = []" using assms by (simp add: th mt_ok_def)
      then have "mt_pending um th = []" using False by (simp add: mt_pending_def th)
      with p ok n True show ?thesis by (auto simp: buffered_record_def)
    next
      case False
      then have "mh_bufferIndex ?h1 < length (mh_buffer ?h1)" by simp
      from buffer_pending [OF ok this] p n show ?thesis by auto
    qed
  qed
qed

interpretation mt_source: positioned_source "mt_GetNextRecord um Q fmt" "mt_pending um" "mt_ok um"
    "mt_ops um Q fmt show_uuid info" "mt_ok um"
  for um :: "string \<Rightarrow> go_error + 'r iface" and Q fmt show_uuid and info :: "'x stream_info"
proof unfold_locales
  fix th :: "'r table_handler"
  assume ok: "mt_ok um th"
  note nx = mt_next [OF ok, of Q fmt]
  show "mt_pending um th = [] \<Longrightarrow> \<exists>h' i v c err. mt_GetNextRecord um Q fmt th = Inr (h', i, v, False, c, err) \<and>
      mt_ok um h' \<and> mt_pending um h' = []" using nx by auto
  show "\<exists>h' c. mt_GetNextRecord um Q fmt th = Inr (h', i, r, True, c, None) \<and> mt_ok um h' \<and> mt_pending um h' = ps"
    if "mt_pending um th = (i, Inr r) # ps" for i r ps using nx that by auto
  show "\<exists>h' v. mt_GetNextRecord um Q fmt th = Inr (h', i, v, True, True, Some e) \<and> mt_ok um h' \<and> mt_pending um h' = ps"
    if "mt_pending um th = (i, Inl e) # ps" for i e ps using nx that by auto
  show "\<exists>h'. ho_Seek (mt_ops um Q fmt show_uuid info) rq th = (h', None) \<and> mt_ok um h' \<and> mt_pending um h' = mt_pending um th" for rq
    using ok by (cases th) (auto simp: mt_ops_def mh_Seek_def mt_ok_def)
  show "\<exists>h'. ho_SaveSeek (mt_ops um Q fmt show_uuid info) th = (h', None) \<and> mt_ok um h' \<and> mt_pending um h' = mt_pending um th"
    using ok by (cases th) (auto simp: mt_ops_def mh_SaveSeek_def)
qed (simp add: mt_ops_def)

section \<open>Other goroutines commit rows\<close>

text \<open>The writer adds rows with larger ids, whose messages decode.\<close>

definition mt_appends ::
    "(string \<Rightarrow> go_error + 'r iface) \<Rightarrow> (nat \<Rightarrow> 'r table_handler \<Rightarrow> 'r table_handler) \<Rightarrow> bool" where
  "mt_appends um env \<longleftrightarrow>
     (\<forall>k T h. \<exists>U. env k (T, h) = (T @ U, h) \<and> (good_table um T \<longrightarrow> good_table um (T @ U)))"

lemma mt_appends_source: "mt_appends um env \<Longrightarrow> record_source.appends (mt_pending um) (mt_ok um) env"
  unfolding mt_source.appends_def
proof (intro allI impI)
  fix k th
  assume e: "mt_appends um env" and ok: "mt_ok um th"
  obtain T h where th: "th = (T, h)" by (cases th)
  from e obtain U where "env k (T, h) = (T @ U, h)" "good_table um T \<longrightarrow> good_table um (T @ U)"
    unfolding mt_appends_def by blast
  with ok th show "mt_ok um (env k th) \<and> (\<exists>more. mt_pending um (env k th) = mt_pending um th @ more)"
    by (auto simp: mt_ok_def mt_pending_def)
qed

text \<open>
  Reading a stream in MySQL loses nothing: while the writer commits rows, a call has examined records which,
  followed by those not yet read, are those unread before followed by those committed meanwhile.
\<close>

theorem mysql_GetRecords_loses_nothing:
  assumes "idle (mt_ok um) it" and "mt_appends um env"
    and "it_GetRecords (mt_ops um Q fmt show_uuid info) run now d elapsed env fuel maxRecords it = Some res"
  shows "\<exists>it' p taken more. res = Inr (it', p, None) \<and> idle (mt_ok um) it' \<and>
     mt_pending um (it_handler it) @ more = taken @ mt_pending um (it_handler it') \<and>
     gr_Records p = List.map_filter (filtered run (it_jqFilter it)) (good taken) \<and>
     gr_LastRecordIdRead p = last_id 0 taken"
  using mt_source.GetRecords_scans [OF assms(1) mt_appends_source [OF assms(2)] assms(3)] by blast

section \<open>Properties\<close>

lemma good_decoded:
  "\<forall>r \<in> set rs. um (projr (mj r)) = Inr (rec r) \<Longrightarrow>
     good (map (decoded um) (filter (\<lambda>x. i \<le> fst x) (map (row_of mj) rs))) = map rec (filter (\<lambda>r. i \<le> dr_Id r) rs)"
  by (induction rs) (auto simp: decoded_def row_of_def good_def)


fun polls ::
    "(string \<Rightarrow> go_error + 'r iface) \<Rightarrow> sql_queries \<Rightarrow> (time \<Rightarrow> string) \<Rightarrow> sql_row list list \<Rightarrow> 'r mysql_handler \<Rightarrow> 'r iface list"
where
  \<comment> \<open>the records found by one call for each table in turn\<close>
  "polls um Q fmt [] h = []"
| "polls um Q fmt (T # Ts) h =
     (case mh_GetNextRecord um (table_queries Q fmt T) h of
        Inl e \<Rightarrow> []
      | Inr (h', i, m, found, go_on, err) \<Rightarrow> (if found then [m] else []) @ polls um Q fmt Ts h')"

lemma read_rows_skips:
  "\<forall>r \<in> set rows. \<exists>e. um (snd (snd r)) = Inl e \<Longrightarrow>
     read_rows um (map (\<lambda>(j, t, s). Inr (j, fmt t, s)) rows) h = (h, None)"
proof (induction rows)
  case (Cons r rows)
  obtain j t s where r: "r = (j, t, s)" by (cases r)
  with Cons.prems obtain e where "um s = Inl e" by auto
  with Cons r show ?case by auto
qed simp

lemma stalled_call:
  assumes "length (mh_buffer h) \<le> mh_bufferIndex h"
    and "\<forall>r \<in> set (chunk (mh_bufferNextId h) (mh_bufferSize h) T). \<exists>e. um (snd (snd r)) = Inl e"
  shows "mh_GetNextRecord um (table_queries Q fmt T) h =
     Inr (h\<lparr>mh_buffer := [], mh_bufferIndex := 0\<rparr>, 0, INil, False, True, None)"
  using assms(1) read_rows_skips [OF assms(2)]
  by (simp add: mh_GetNextRecord_def fillBuffer_def table_queries_def select_rows_def buffered_record_def)

lemma chunk_append:
  "sorted_wrt (<) (map fst (T @ U)) \<Longrightarrow> length (chunk i n T) = n \<Longrightarrow> chunk i n (T @ U) = chunk i n T"
  by (auto simp: chunk_def sort_good_table sorted_wrt_append min_def split: if_splits)

text \<open>
  One chunk of rows that do not decode stops a reader for ever. When the chunk from the reader's id on is
  full and none of its messages can be decoded, no later call finds a record, whatever is committed behind
  those rows: the reader skips the rows and does not move its id past them.
\<close>

theorem undecodable_chunk_stalls:
  assumes "length (mh_buffer h) \<le> mh_bufferIndex h"
    and "length (chunk (mh_bufferNextId h) (mh_bufferSize h) T) = mh_bufferSize h"
    and "\<forall>r \<in> set (chunk (mh_bufferNextId h) (mh_bufferSize h) T). \<exists>e. um (snd (snd r)) = Inl e"
    and "\<forall>T' \<in> set Ts. \<exists>U. T' = T @ U \<and> sorted_wrt (<) (map fst T')"
  shows "polls um Q fmt Ts h = []"
  using assms
proof (induction Ts arbitrary: h)
  case (Cons T' Ts)
  from Cons.prems(4) obtain U where "T' = T @ U" "sorted_wrt (<) (map fst (T @ U))" by auto
  with Cons.prems(2,3) have "\<forall>r \<in> set (chunk (mh_bufferNextId h) (mh_bufferSize h) T'). \<exists>e. um (snd (snd r)) = Inl e"
    by (simp add: chunk_append)
  from stalled_call [OF Cons.prems(1) this] Cons.prems
    Cons.IH [of "h\<lparr>mh_buffer := [], mh_bufferIndex := 0\<rparr>"] show ?case by simp
qed simp

text \<open>
  A row that cannot be scanned ends a fill with an error. The rows that were read before it stand in the buffer
  at places the handler has already passed, and the next fill starts behind them: they are never delivered.
\<close>

lemma scan_error_loses_rows:
  assumes "length (mh_buffer h) \<le> mh_bufferIndex h" and "length rows \<le> mh_bufferIndex h"
    and "\<forall>r \<in> set rows. \<exists>m. um (snd (snd r)) = Inr m" and "rows \<noteq> []"
    and "qr_rows Q (select_query h) [ANum (mh_bufferNextId h), AInt (int (mh_bufferSize h))] =
           Inr (map (\<lambda>(j, t, s). Inr (j, fmt t, s)) rows @ Inl e # rest)"
  shows "\<exists>h'. mh_GetNextRecord um Q h = Inr (h', 0, INil, False, True, Some e) \<and>
     length (mh_buffer h') \<le> mh_bufferIndex h' \<and> mh_bufferNextId h' = fst (last rows) + 1"
proof -
  have "read_rows um (map (\<lambda>(j, t, s). Inr (j, fmt t, s)) rows @ Inl e # rest) k =
      (fst (read_rows um (map (\<lambda>(j, t, s). Inr (j, fmt t, s)) rows) k), Some e)" for k
    using assms(3)
  proof (induction rows arbitrary: k)
    case (Cons r rows)
    obtain j t s where r: "r = (j, t, s)" by (cases r)
    with Cons.prems obtain m where "um s = Inr m" by auto
    with Cons r show ?case by auto
  qed simp
  with assms read_rows_decoded [OF assms(3), of fmt "h\<lparr>mh_buffer := []\<rparr>"] show ?thesis
    by (simp add: mh_GetNextRecord_def fillBuffer_def)
qed

text \<open>A database without answers, a table of two records and a reader of it.\<close>

definition sample_queries :: sql_queries where
  "sample_queries = \<lparr>qr_number = \<lambda>_ _. No_Rows, qr_id = \<lambda>_ _. No_Rows, qr_id_date = \<lambda>_ _. No_Rows,
     qr_rows = \<lambda>_ _. Inr []\<rparr>"

definition sample_index :: mysql_index where
  "sample_index = mx_NewStreamIndex 7 ''db'' ''stream_1''"

definition sample_table_writer :: mysql_writer where
  "sample_table_writer = sample_mysql_writer\<lparr>mw_log := [(Begin, None),
     (Tx_Exec (insert_query sample_mysql_writer) [ANum 1, ATime 0, AText ''x''], None),
     (Tx_Exec (insert_query sample_mysql_writer) [ANum 2, ATime 0, AText ''x''], None), (Commit, None)]\<rparr>"

lemma sample_table: "my_holds sample_mysql_mj sample_table_writer sample_mysql_batch"
  by (simp add: my_holds_def my_rows_def committed_def sample_table_writer_def sample_mysql_batch_def
      row_of_def sample_mysql_mj_def insert_query_def sample_mysql_writer_def NewStreamWriterMySQL_def)

definition sample_mysql_handler :: "nat mysql_handler" where
  "sample_mysql_handler = fst (mh_Seek sample_queries (\<lambda>_. ''u'') (NewStreamInfo 0 7 :: nat stream_info)
     (Some (sample_request ''FIRST_MESSAGE'' 0)) (NewStreamIteratorHandlerMySQL 7 8 sample_index ''db'' ''stream_1'' 1))"

definition sample_mysql_it :: "(nat table_handler, string) stream_iterator" where
  "sample_mysql_it = \<lparr>it_streamUUID = 7, it_itUUID = 8, it_request = Some (sample_request ''FIRST_MESSAGE'' 0),
     it_jqFilter = None, it_LastRecordIdRead = 0, it_Stats = no_stats_yet,
     it_handler = (my_rows sample_table_writer, sample_mysql_handler), it_busy = False\<rparr>"

lemma sample_seek:
  "mh_Seek sample_queries (\<lambda>_. ''u'') (NewStreamInfo 0 7 :: nat stream_info)
     (Some (sample_request ''FIRST_MESSAGE'' 0)) (NewStreamIteratorHandlerMySQL 7 8 sample_index ''db'' ''stream_1'' 1) =
     (sample_mysql_handler, None)"
  "mh_nextRecordIdRead sample_mysql_handler = 0" "mh_buffer sample_mysql_handler = []"
  "mh_bufferNextId sample_mysql_handler = 0" "mh_bufferSize sample_mysql_handler = 1"
  by (simp_all add: sample_mysql_handler_def mh_Seek_def NewStreamIteratorHandlerMySQL_def mh_target_def
      sample_request_def mx_GetFirstMessageId_def NewStreamInfo_def no_msgs_def)


lemma undecodable_chunk_stalls_witness:
  "polls (\<lambda>s. if s = ''bad'' then Inl (Error ''syntax'') else Inr (IStr s) :: go_error + nat iface) sample_queries
     (\<lambda>_. []) [[(1, 0, ''bad'')], [(1, 0, ''bad''), (2, 0, ''good'')]] sample_mysql_handler = []"
  by (rule undecodable_chunk_stalls [where T = "[(1, 0, ''bad'')]"]) (simp_all add: sample_seek chunk_def)

end
