(* ===== verification/ApiError.thy ===== *)
theory ApiError
  imports Prelude
begin

text \<open>
  The errors and answers of the HTTP interface (web/apierror/apierror.go, constants/constants.go).
\<close>

section \<open>Error codes\<close>

definition ErrorInvalidStreamUuid :: nat where "ErrorInvalidStreamUuid = 1000"
definition ErrorStreamUuidNotFound :: nat where "ErrorStreamUuidNotFound = 1001"
definition ErrorCantCreateStream :: nat where "ErrorCantCreateStream = 1002"
definition ErrorCantDeleteStream :: nat where "ErrorCantDeleteStream = 1003"
definition ErrorInvalidJQFilter :: nat where "ErrorInvalidJQFilter = 1004"
definition ErrorInvalidIteratorUuid :: nat where "ErrorInvalidIteratorUuid = 1005"
definition ErrorInvalidParameterValue :: nat where "ErrorInvalidParameterValue = 1006"
definition ErrorCantDeserializeJson :: nat where "ErrorCantDeserializeJson = 1007"
definition ErrorDuplicatedBatchId :: nat where "ErrorDuplicatedBatchId = 1008"
definition ErrorCantPutMessageIntoStream :: nat where "ErrorCantPutMessageIntoStream = 1010"
definition ErrorCantPutMessagesIntoStream :: nat where "ErrorCantPutMessagesIntoStream = 1011"
definition ErrorCantDeserializeJsonRecords :: nat where "ErrorCantDeserializeJsonRecords = 1012"
definition ErrorInvalidCreateRecordsIteratorRequest :: nat where "ErrorInvalidCreateRecordsIteratorRequest = 1013"
definition ErrorCantCreateRecordsIterator :: nat where "ErrorCantCreateRecordsIterator = 1014"
definition ErrorCantGetMessagesFromStream :: nat where "ErrorCantGetMessagesFromStream = 1020"
definition ErrorCantCloseStreamIterator :: nat where "ErrorCantCloseStreamIterator = 1030"
definition ErrorStreamIteratorNotFound :: nat where "ErrorStreamIteratorNotFound = 1031"
definition ErrorStreamIteratorIsBusy :: nat where "ErrorStreamIteratorIsBusy = 1032"
definition ErrorCantRebuildStreamIndex :: nat where "ErrorCantRebuildStreamIndex = 1040"
definition ErrorJWTMissingOrMalformed :: nat where "ErrorJWTMissingOrMalformed = 1200"
definition ErrorJWTInvalidOrExpired :: nat where "ErrorJWTInvalidOrExpired = 1201"
definition ErrorJWTNotEnabled :: nat where "ErrorJWTNotEnabled = 1202"
definition ErrorJWTRBACUnknownRole :: nat where "ErrorJWTRBACUnknownRole = 1210"
definition ErrorRBACInvalidRule :: nat where "ErrorRBACInvalidRule = 1211"
definition ErrorRBACForbidden :: nat where "ErrorRBACForbidden = 1212"
definition ErrorRBACNotEnabled :: nat where "ErrorRBACNotEnabled = 1213"
definition ErrorAuthInternalError :: nat where "ErrorAuthInternalError = 1220"
definition ErrorWrongCredentials :: nat where "ErrorWrongCredentials = 1230"

lemmas error_codes =
  ErrorInvalidStreamUuid_def
  ErrorStreamUuidNotFound_def
  ErrorCantCreateStream_def
  ErrorCantDeleteStream_def
  ErrorInvalidJQFilter_def
  ErrorInvalidIteratorUuid_def
  ErrorInvalidParameterValue_def
  ErrorCantDeserializeJson_def
  ErrorDuplicatedBatchId_def
  ErrorCantPutMessageIntoStream_def
  ErrorCantPutMessagesIntoStream_def
  ErrorCantDeserializeJsonRecords_def
  ErrorInvalidCreateRecordsIteratorRequest_def
  ErrorCantCreateRecordsIterator_def
  ErrorCantGetMessagesFromStream_def
  ErrorCantCloseStreamIterator_def
  ErrorStreamIteratorNotFound_def
  ErrorStreamIteratorIsBusy_def
  ErrorCantRebuildStreamIndex_def
  ErrorJWTMissingOrMalformed_def
  ErrorJWTInvalidOrExpired_def
  ErrorJWTNotEnabled_def
  ErrorJWTRBACUnknownRole_def
  ErrorRBACInvalidRule_def
  ErrorRBACForbidden_def
  ErrorRBACNotEnabled_def
  ErrorAuthInternalError_def
  ErrorWrongCredentials_def

section \<open>API errors\<close>

text \<open>
  A validation error is a field, a tag and a value; the low-level error \<^verbatim>\<open>Err\<close> stands in
  \<open>ae_Details\<close>, whose text it is.
\<close>

record api_error =
  ae_HttpCode :: nat
  ae_Code :: nat
  ae_Message :: string
  ae_Details :: "go_error option"
  ae_StreamUUID :: uuid
  ae_ValidationErrors :: "(string \<times> string \<times> string) list"

definition simple_error :: "nat \<Rightarrow> nat \<Rightarrow> string \<Rightarrow> go_error option \<Rightarrow> api_error" where
  "simple_error http code msg details = \<lparr>ae_HttpCode = http, ae_Code = code, ae_Message = msg,
     ae_Details = details, ae_StreamUUID = 0, ae_ValidationErrors = []\<rparr>"

text \<open>
  What a handler of a route answers: a status with a JSON value, an error (\<^verbatim>\<open>HTTPResponse\<close> sends its
  status and itself), or nothing because it panicked.
\<close>

datatype 'b response = Reply nat 'b | HTTPResponse api_error | Crash go_error

fun status_of :: "'b response \<Rightarrow> nat option" where
  "status_of (Reply s b) = Some s"
| "status_of (HTTPResponse e) = Some (ae_HttpCode e)"
| "status_of (Crash e) = None"

end
