(* ===== verification/InMemoryProvider.thy ===== *)
theory InMemoryProvider
  imports InMemory
begin

text \<open>
  The in-memory storage provider (storageprovider/inmemoryprovider: streamcataloginmemory.go,
  inmemoryprovider.go): the catalog of stream descriptions and the table of in-memory streams,
  which the provider keeps in step with each other.
\<close>

section \<open>The catalog (streamcataloginmemory.go)\<close>

text \<open>
  The map is nil (\<open>None\<close>) until \<^verbatim>\<open>Init\<close> runs. It stores pointers to descriptions, of the
  type variable \<open>'p\<close>; \<^verbatim>\<open>streamInfo.UUID\<close> is passed beside the pointer.
\<close>

record 'p im_catalog =
  imc_streams :: "(uuid \<rightharpoonup> 'p) option"

definition NewStreamCatalogInMemory :: "'p im_catalog" where
  "NewStreamCatalogInMemory = \<lparr>imc_streams = None\<rparr>"

definition imc_Init :: "'p im_catalog \<Rightarrow> 'p im_catalog" where
  "imc_Init c = c\<lparr>imc_streams := Some Map.empty\<rparr>"

text \<open>\<^verbatim>\<open>Stop\<close> and \<^verbatim>\<open>SaveStreamCatalog\<close> have nothing to do.\<close>

definition imc_Stop :: "'p im_catalog \<Rightarrow> 'p im_catalog \<times> go_error option" where
  "imc_Stop c = (c, None)"

definition imc_SaveStreamCatalog :: "'p im_catalog \<Rightarrow> 'p im_catalog \<times> go_error option" where
  "imc_SaveStreamCatalog c = (c, None)"

definition imc_LoadStreamCatalog :: "'p im_catalog \<Rightarrow> 'p im_catalog \<times> uuid list" where
  "imc_LoadStreamCatalog c = (c\<lparr>imc_streams := Some Map.empty\<rparr>, [])"

definition imc_find :: "'p im_catalog \<Rightarrow> uuid \<Rightarrow> 'p option" where
  "imc_find c u = (case imc_streams c of None \<Rightarrow> None | Some m \<Rightarrow> m u)"

definition imc_StreamExists :: "'p im_catalog \<Rightarrow> uuid \<Rightarrow> bool" where
  "imc_StreamExists c u = (case imc_find c u of Some p \<Rightarrow> True | None \<Rightarrow> False)"

definition imc_OnCreateStream :: "'p im_catalog \<Rightarrow> uuid \<Rightarrow> 'p \<Rightarrow> go_error + 'p im_catalog" where
  "imc_OnCreateStream c u p =
     (case imc_streams c of
        None \<Rightarrow> Inl (Panic ''assignment to entry in nil map'')
      | Some m \<Rightarrow> Inr (c\<lparr>imc_streams := Some (m(u \<mapsto> p))\<rparr>))"

text \<open>Deleting from a nil map is allowed and does nothing.\<close>

definition imc_OnDeleteStream :: "'p im_catalog \<Rightarrow> uuid \<Rightarrow> go_error + 'p im_catalog" where
  "imc_OnDeleteStream c u = Inr (c\<lparr>imc_streams := map_option (\<lambda>m. m(u := None)) (imc_streams c)\<rparr>)"

definition imc_GetStreamsUUIDs :: "'p im_catalog \<Rightarrow> uuid list \<Rightarrow> bool" where
  \<comment> \<open>\<open>ks\<close> is a possible result: the keys in the order the runtime visits them\<close>
  "imc_GetStreamsUUIDs c ks = range_order (imc_find c) ks"

definition imc_GetStreamInfo :: "'p im_catalog \<Rightarrow> uuid \<Rightarrow> go_error + 'p" where
  "imc_GetStreamInfo c u =
     (case imc_find c u of Some p \<Rightarrow> Inr p | None \<Rightarrow> Inl (Error ''stream not found''))"

interpretation im_cat: stream_catalog imc_find imc_OnCreateStream imc_OnDeleteStream
    imc_StreamExists imc_GetStreamInfo
proof unfold_locales
  show "imc_find c' = (imc_find c)(u \<mapsto> p)" if "imc_OnCreateStream c u p = Inr c'"
    for c c' :: "'p im_catalog" and u p
    using that by (auto simp: imc_OnCreateStream_def imc_find_def split: option.splits)
  show "imc_find c' = (imc_find c)(u := None)" if "imc_OnDeleteStream c u = Inr c'"
    for c c' :: "'p im_catalog" and u
    using that by (auto simp: imc_OnDeleteStream_def imc_find_def split: option.splits)
qed (auto simp: imc_StreamExists_def imc_GetStreamInfo_def split: option.splits)

section \<open>The provider (inmemoryprovider.go)\<close>

record ('x, 'p) im_storage =
  imp_catalog :: "'p im_catalog"
  imp_streams :: "uuid \<rightharpoonup> 'x in_memory_stream"
  imp_maxRecordsByStream :: u64
  imp_maxSizeInBytes :: u64

text \<open>
  \<open>parsed\<close> is the result of \<^verbatim>\<open>humanize.ParseBytes\<close> on the configured maximal size.
\<close>

definition NewInMemoryStorageProvider :: "go_error + u64 \<Rightarrow> u64 \<Rightarrow> go_error + ('x, 'p) im_storage" where
  "NewInMemoryStorageProvider parsed maxRecords =
     (case parsed of
        Inl e \<Rightarrow> Inl (Error ''cannot parse value for configuration storage.inmemory.maxSize'')
      | Inr maxSize \<Rightarrow> Inr \<lparr>imp_catalog = NewStreamCatalogInMemory, imp_streams = Map.empty,
          imp_maxRecordsByStream = maxRecords, imp_maxSizeInBytes = maxSize\<rparr>)"

definition imp_ClearStreams :: "('x, 'p) im_storage \<Rightarrow> ('x, 'p) im_storage" where
  "imp_ClearStreams s = s\<lparr>imp_streams := Map.empty\<rparr>"

definition imp_Init :: "('x, 'p) im_storage \<Rightarrow> ('x, 'p) im_storage" where
  "imp_Init s = (let s' = imp_ClearStreams s in s'\<lparr>imp_catalog := imc_Init (imp_catalog s')\<rparr>)"

definition imp_Stop :: "('x, 'p) im_storage \<Rightarrow> ('x, 'p) im_storage \<times> go_error option" where
  "imp_Stop s =
     (case imc_Stop (imp_catalog s) of
        (c, Some e) \<Rightarrow> (s\<lparr>imp_catalog := c\<rparr>, Some e)
      | (c, None) \<Rightarrow> (imp_ClearStreams (s\<lparr>imp_catalog := c\<rparr>), None))"

definition imp_StreamExists :: "('x, 'p) im_storage \<Rightarrow> uuid \<Rightarrow> bool" where
  "imp_StreamExists s u = (case imp_streams s u of Some st \<Rightarrow> True | None \<Rightarrow> False)"

definition imp_GenerateNewStreamUuid :: "('x, 'p) im_storage \<Rightarrow> uuid list \<Rightarrow> uuid option" where
  "imp_GenerateNewStreamUuid s ds = fresh_uuid (imp_StreamExists s) ds"

definition imp_GetStreamInfo :: "('x, 'p) im_storage \<Rightarrow> uuid \<Rightarrow> go_error + 'p" where
  "imp_GetStreamInfo s u = imc_GetStreamInfo (imp_catalog s) u"

definition imp_LoadStreamsFromUUIDs :: "('x, 'p) im_storage \<Rightarrow> uuid list \<Rightarrow> go_error + 'p list" where
  "imp_LoadStreamsFromUUIDs s us = collect (imp_GetStreamInfo s) us"

definition imp_LoadStreams :: "('x, 'p) im_storage \<Rightarrow> ('x, 'p) im_storage \<times> (go_error + 'p list)" where
  "imp_LoadStreams s =
     (case imc_LoadStreamCatalog (imp_catalog s) of (c, us) \<Rightarrow>
        (let s' = s\<lparr>imp_catalog := c\<rparr> in (s', imp_LoadStreamsFromUUIDs s' us)))"

definition imp_SaveStreamCatalog :: "('x, 'p) im_storage \<Rightarrow> ('x, 'p) im_storage \<times> go_error option" where
  "imp_SaveStreamCatalog s =
     (case imc_SaveStreamCatalog (imp_catalog s) of (c, err) \<Rightarrow> (s\<lparr>imp_catalog := c\<rparr>, err))"

text \<open>
  The stream enters the table before the catalog is asked; a catalog that refuses leaves it there.
\<close>

definition imp_OnCreateStream ::
    "('x, 'p) im_storage \<Rightarrow> uuid \<Rightarrow> 'p \<Rightarrow> ('x, 'p) im_storage \<times> go_error option" where
  "imp_OnCreateStream s u p =
     (let s1 = s\<lparr>imp_streams := (imp_streams s)
                (u \<mapsto> NewInMemoryStream u (imp_maxRecordsByStream s) (imp_maxSizeInBytes s))\<rparr> in
      case imc_OnCreateStream (imp_catalog s1) u p of
        Inl e \<Rightarrow> (s1, Some e)
      | Inr c \<Rightarrow> (s1\<lparr>imp_catalog := c\<rparr>, None))"

definition imp_DeleteStream :: "('x, 'p) im_storage \<Rightarrow> uuid \<Rightarrow> ('x, 'p) im_storage \<times> go_error option" where
  "imp_DeleteStream s u =
     (let s1 = s\<lparr>imp_streams := (imp_streams s)(u := None)\<rparr> in
      case imc_OnDeleteStream (imp_catalog s1) u of
        Inl e \<Rightarrow> (s1, Some e)
      | Inr c \<Rightarrow> (s1\<lparr>imp_catalog := c\<rparr>, None))"

definition imp_NewStreamIteratorHandler ::
    "('x, 'p) im_storage \<Rightarrow> uuid \<Rightarrow> uuid \<Rightarrow> go_error + 'x in_memory_stream \<times> im_handler" where
  "imp_NewStreamIteratorHandler s u itu =
     (case imp_streams s u of
        None \<Rightarrow> Inl (Error ''stream not found'')
      | Some st \<Rightarrow> Inr (st, NewStreamIteratorHandlerInMemory u itu))"

definition imp_NewStreamWriter :: "('x, 'p) im_storage \<Rightarrow> uuid \<Rightarrow> go_error + 'x in_memory_stream" where
  "imp_NewStreamWriter s u =
     (case imp_streams s u of None \<Rightarrow> Inl (Error ''stream not found'') | Some st \<Rightarrow> Inr st)"

text \<open>There is no index in memory: \<^verbatim>\<open>BuildIndex\<close> returns an empty string.\<close>

definition imp_BuildIndex :: "('x, 'p) im_storage \<Rightarrow> uuid \<Rightarrow> go_error + 'x iface" where
  "imp_BuildIndex s u = Inr (IStr [])"

section \<open>The table and the catalog stay in step\<close>

definition imp_inv :: "('x, 'p) im_storage \<Rightarrow> bool" where
  "imp_inv s \<longleftrightarrow> imc_streams (imp_catalog s) \<noteq> None \<and>
     (\<forall>u. imp_streams s u = None \<longleftrightarrow> imc_find (imp_catalog s) u = None) \<and>
     (\<forall>u st. imp_streams s u = Some st \<longrightarrow> ims_streamUUID st = u)"

lemmas imp_defs = imp_Init_def imp_ClearStreams_def imp_Stop_def imp_OnCreateStream_def
  imp_DeleteStream_def imp_LoadStreams_def imp_SaveStreamCatalog_def imp_LoadStreamsFromUUIDs_def
  imc_Init_def imc_Stop_def imc_SaveStreamCatalog_def imc_LoadStreamCatalog_def
  imc_OnCreateStream_def imc_OnDeleteStream_def imc_find_def Let_def

lemma imp_Init_inv: "imp_inv (imp_Init s)"
  by (simp add: imp_inv_def imp_defs)

lemma imp_OnCreate_inv [keeps]:
  "imp_inv s \<Longrightarrow> imp_OnCreateStream s u p = (s', err) \<Longrightarrow> imp_inv s' \<and> err = None"
  by (auto simp: imp_inv_def imp_defs NewInMemoryStream_def split: option.splits if_splits)

lemma imp_Delete_inv [keeps]:
  "imp_inv s \<Longrightarrow> imp_DeleteStream s u = (s', err) \<Longrightarrow> imp_inv s' \<and> err = None"
  by (auto simp: imp_inv_def imp_defs split: option.splits if_splits)

lemma imp_Save_inv [keeps]:
  "imp_inv s \<Longrightarrow> imp_SaveStreamCatalog s = (s', err) \<Longrightarrow> imp_inv s' \<and> err = None"
  by (auto simp: imp_inv_def imp_defs)

lemma imp_Load_inv [keeps]:
  "imp_inv s \<Longrightarrow> imp_streams s = Map.empty \<Longrightarrow> imp_LoadStreams s = (s', r) \<Longrightarrow> imp_inv s' \<and> r = Inr []"
  by (auto simp: imp_inv_def imp_defs)

lemma imp_create_ready:
  assumes "imp_OnCreateStream s u p = (s', None)"
  shows "imp_NewStreamWriter s' u =
           Inr (NewInMemoryStream u (imp_maxRecordsByStream s) (imp_maxSizeInBytes s))"
    and "imp_NewStreamIteratorHandler s' u itu =
           Inr (NewInMemoryStream u (imp_maxRecordsByStream s) (imp_maxSizeInBytes s),
                NewStreamIteratorHandlerInMemory u itu)"
    and "imp_GetStreamInfo s' u = Inr p"
    and "imp_StreamExists s' u"
  using assms
  by (auto simp: imp_defs imp_NewStreamWriter_def imp_NewStreamIteratorHandler_def
      imp_GetStreamInfo_def imc_GetStreamInfo_def imp_StreamExists_def split: option.splits)

lemma imp_delete_gone:
  assumes "imp_DeleteStream s u = (s', None)"
  shows "\<not> imp_StreamExists s' u \<and> imp_GetStreamInfo s' u = Inl (Error ''stream not found'')"
  using assms
  by (auto simp: imp_defs imp_GetStreamInfo_def imc_GetStreamInfo_def imp_StreamExists_def
      split: option.splits)

lemma imp_fresh_uuid:
  "imp_inv s \<Longrightarrow> imp_GenerateNewStreamUuid s ds = Some u \<Longrightarrow>
     imp_streams s u = None \<and> imc_find (imp_catalog s) u = None"
  using fresh_uuid_free [of "imp_StreamExists s" ds u]
  by (auto simp: imp_GenerateNewStreamUuid_def imp_StreamExists_def imp_inv_def split: option.splits)

section \<open>Properties\<close>

text \<open>
  The storage states the service can reach: it initialises the provider, then creates, deletes
  and saves in any order. A creation uses a UUID the provider drew as free.
\<close>

inductive imp_reach :: "('x, 'p) im_storage \<Rightarrow> ('x, 'p) im_storage \<Rightarrow> bool" for s0 where
  imp_reach_init: "imp_reach s0 (imp_Init s0)"
| imp_reach_create: "imp_reach s0 s \<Longrightarrow> imp_GenerateNewStreamUuid s ds = Some u \<Longrightarrow>
     imp_OnCreateStream s u p = (s', err) \<Longrightarrow> imp_reach s0 s'"
| imp_reach_delete: "imp_reach s0 s \<Longrightarrow> imp_DeleteStream s u = (s', err) \<Longrightarrow> imp_reach s0 s'"
| imp_reach_save: "imp_reach s0 s \<Longrightarrow> imp_SaveStreamCatalog s = (s', err) \<Longrightarrow> imp_reach s0 s'"

lemma imp_reach_inv: "imp_reach s0 s \<Longrightarrow> imp_inv s"
  by (induction rule: imp_reach.induct) (auto simp: imp_Init_inv dest: keeps)

text \<open>
  C21: the table of streams and the catalog of the in-memory provider never disagree. In every
  reachable state a stream exists in the table exactly when the catalog describes it, each entry
  carries its own UUID, and a UUID drawn for a new stream is unused in both.
\<close>

theorem imp_table_and_catalog_agree:
  assumes "imp_reach s0 s"
  shows "(imp_StreamExists s u \<longleftrightarrow> (\<exists>p. imp_GetStreamInfo s u = Inr p)) \<and>
     (\<forall>st. imp_NewStreamWriter s u = Inr st \<longrightarrow> ims_streamUUID st = u) \<and>
     (imp_GenerateNewStreamUuid s ds = Some u \<longrightarrow>
        \<not> imp_StreamExists s u \<and> imp_GetStreamInfo s u = Inl (Error ''stream not found''))"
proof -
  note inv = imp_reach_inv [OF assms]
  have "imp_StreamExists s u \<longleftrightarrow> (\<exists>p. imp_GetStreamInfo s u = Inr p)"
    using inv unfolding imp_GetStreamInfo_def im_cat.get_info_find
    by (auto simp: imp_inv_def imp_StreamExists_def split: option.splits) (metis not_None_eq)+
  moreover have "\<forall>st. imp_NewStreamWriter s u = Inr st \<longrightarrow> ims_streamUUID st = u"
    using inv by (auto simp: imp_inv_def imp_NewStreamWriter_def split: option.splits)
  ultimately show ?thesis
    using imp_fresh_uuid [OF inv, of ds u]
    by (auto simp: imp_StreamExists_def imp_GetStreamInfo_def imc_GetStreamInfo_def)
qed

definition sample_storage :: "(unit, nat) im_storage" where
  "sample_storage = \<lparr>imp_catalog = NewStreamCatalogInMemory, imp_streams = Map.empty,
     imp_maxRecordsByStream = 2, imp_maxSizeInBytes = 0\<rparr>"

lemma imp_table_and_catalog_agree_witness:
  "\<exists>s err. imp_OnCreateStream (imp_Init sample_storage) 5 (1 :: nat) = (s, err) \<and>
     (imp_StreamExists s 5 \<longleftrightarrow> (\<exists>p. imp_GetStreamInfo s 5 = Inr p))"
proof -
  obtain s err where c: "imp_OnCreateStream (imp_Init sample_storage) 5 1 = (s, err)" by fastforce
  have "imp_GenerateNewStreamUuid (imp_Init sample_storage) [5] = Some 5"
    by (simp add: imp_GenerateNewStreamUuid_def imp_StreamExists_def imp_defs)
  from imp_reach_create [OF imp_reach_init this c] have "imp_reach sample_storage s" .
  from imp_table_and_catalog_agree [OF this, of 5] c show ?thesis by blast
qed

text \<open>
  The life of a stream in the in-memory provider. After a successful creation the stream
  exists, its description is the one given, and its writer and a new iterator both work on the
  same empty stream with the configured limits; deleting it afterwards leaves no stream, no
  description and no writer, and touches no other stream.
\<close>

theorem imp_stream_life:
  assumes "imp_OnCreateStream s u p = (s1, None)" and "imp_DeleteStream s1 u = (s2, err)"
  shows "imp_GetStreamInfo s1 u = Inr p \<and>
     imp_NewStreamWriter s1 u =
       Inr (NewInMemoryStream u (imp_maxRecordsByStream s) (imp_maxSizeInBytes s)) \<and>
     map_sum id fst (imp_NewStreamIteratorHandler s1 u itu) = imp_NewStreamWriter s1 u \<and>
     err = None \<and> \<not> imp_StreamExists s2 u \<and>
     imp_GetStreamInfo s2 u = Inl (Error ''stream not found'') \<and>
     imp_NewStreamWriter s2 u = Inl (Error ''stream not found'') \<and>
     (\<forall>v. v \<noteq> u \<longrightarrow> imp_NewStreamWriter s2 v = imp_NewStreamWriter s v)"
proof -
  have err: "err = None" using assms(2) by (auto simp: imp_defs)
  note made = imp_create_ready [OF assms(1)]
  note gone = imp_delete_gone [OF assms(2) [unfolded err]]
  have frame: "imp_streams s1 = (imp_streams s)(u \<mapsto>
      NewInMemoryStream u (imp_maxRecordsByStream s) (imp_maxSizeInBytes s))"
    "imp_streams s2 = (imp_streams s1)(u := None)"
    using assms by (auto simp: imp_defs split: option.splits)
  show ?thesis
    using made gone err by (simp add: imp_NewStreamWriter_def frame)
qed

lemma imp_stream_life_witness:
  "\<exists>s1 s2. imp_OnCreateStream (imp_Init sample_storage) 5 1 = (s1, None) \<and>
     imp_DeleteStream s1 5 = (s2, None) \<and> \<not> imp_StreamExists s2 5"
proof -
  obtain s1 where c: "imp_OnCreateStream (imp_Init sample_storage) 5 1 = (s1, None)"
    by (simp add: imp_defs)
  obtain s2 err where d: "imp_DeleteStream s1 5 = (s2, err)" by fastforce
  from imp_stream_life [OF c d] c d show ?thesis by auto
qed

end
