(* ===== verification/Service.thy ===== *)
theory Service
  imports ApiError InMemoryProvider Streams StreamIter
begin

text \<open>
  The stream service (service/service.go) over the interface of storage providers
  (storageprovider/storageprovider.go): the table of running streams, their creation, deletion
  and start, the listing of streams and the creation of record iterators.
\<close>

section \<open>The interfaces\<close>

text \<open>
  The Go interface \<^verbatim>\<open>IStorageProvider\<close> over a provider state \<open>'p\<close>. The second argument of
  \<open>po_GenerateNewStreamUuid\<close> lists what \<^verbatim>\<open>uuid.New\<close> returns, as in \<open>fresh_uuid\<close>.
\<close>

record ('x, 'p, 'w, 'h) provider_ops =
  po_Init :: "'p \<Rightarrow> 'p \<times> go_error option"
  po_Stop :: "'p \<Rightarrow> 'p \<times> go_error option"
  po_GenerateNewStreamUuid :: "'p \<Rightarrow> uuid list \<Rightarrow> uuid option"
  po_StreamExists :: "'p \<Rightarrow> uuid \<Rightarrow> bool"
  po_SaveStreamCatalog :: "'p \<Rightarrow> 'p \<times> go_error option"
  po_LoadStreams :: "'p \<Rightarrow> 'p \<times> (go_error + 'x stream_info list)"
  po_OnCreateStream :: "'x stream_info \<Rightarrow> 'p \<Rightarrow> 'p \<times> go_error option"
  po_GetStreamInfo :: "uuid \<Rightarrow> 'p \<Rightarrow> go_error + 'x stream_info"
  po_BuildIndex :: "uuid \<Rightarrow> 'p \<Rightarrow> 'p \<times> (go_error + 'x iface)"
  po_NewStreamIteratorHandler :: "uuid \<Rightarrow> uuid \<Rightarrow> 'p \<Rightarrow> go_error + 'h"
  po_NewStreamWriter :: "'x stream_info \<Rightarrow> 'p \<Rightarrow> go_error + 'w"
  po_DeleteStream :: "uuid \<Rightarrow> 'p \<Rightarrow> 'p \<times> go_error option"

text \<open>The Go interface \<^verbatim>\<open>IStreamWriter\<close>.\<close>

record ('x, 'w) writer_ops =
  wo_Init :: "'w \<Rightarrow> 'w \<times> go_error option"
  wo_Open :: "'w \<Rightarrow> 'w \<times> go_error option"
  wo_Close :: "'w \<Rightarrow> 'w \<times> go_error option"
  wo_Write :: "('x, 'w) write_op"

section \<open>The service\<close>

text \<open>The part \<^verbatim>\<open>Streams\<close> of the configuration, as far as the service and the handlers read it.\<close>

record streams_config =
  cf_BulkFlushFrequency :: int
  cf_BulkMaxSize :: int
  cf_ChannelBufferSize :: int
  cf_MaxIteratorsPerStream :: int
  cf_MaxMessagePerGetOperation :: nat
  cf_MaxAllowedStreams :: nat

type_synonym ('x, 'w, 'h, 'q) svc_stream = "('x, 'w, ('h, 'q) stream_iterator) stream"

text \<open>
  The Go map holds pointers to the streams; here it holds the streams, and an operation on one of
  them updates its entry.
\<close>

record ('x, 'p, 'w, 'h, 'q) service =
  sv_Hashmap :: "uuid \<rightharpoonup> ('x, 'w, 'h, 'q) svc_stream"
  sv_sp :: 'p
  sv_conf :: streams_config

definition NewStreamService :: "go_error + 'p \<Rightarrow> streams_config \<Rightarrow> go_error + ('x, 'p, 'w, 'h, 'q) service" where
  "NewStreamService new_provider conf =
     (case new_provider of
        Inl e \<Rightarrow> Inl e
      | Inr sp \<Rightarrow> Inr \<lparr>sv_Hashmap = Map.empty, sv_sp = sp, sv_conf = conf\<rparr>)"

definition svc_Init ::
    "('x, 'p, 'w, 'h) provider_ops \<Rightarrow> ('x, 'p, 'w, 'h, 'q) service \<Rightarrow>
       ('x, 'p, 'w, 'h, 'q) service \<times> go_error option" where
  "svc_Init po svc = (case po_Init po (sv_sp svc) of (p, err) \<Rightarrow> (svc\<lparr>sv_sp := p\<rparr>, err))"

definition GetStreamsCount :: "('x, 'p, 'w, 'h, 'q) service \<Rightarrow> nat" where
  "GetStreamsCount svc = card (dom (sv_Hashmap svc))"

definition setStreamMap ::
    "uuid \<Rightarrow> ('x, 'w, 'h, 'q) svc_stream option \<Rightarrow> ('x, 'p, 'w, 'h, 'q) service \<Rightarrow>
       ('x, 'p, 'w, 'h, 'q) service" where
  "setStreamMap u s svc =
     (case s of
        None \<Rightarrow> svc\<lparr>sv_Hashmap := (sv_Hashmap svc)(u := None)\<rparr>
      | Some st \<Rightarrow> svc\<lparr>sv_Hashmap := (sv_Hashmap svc)(u \<mapsto> st)\<rparr>)"

definition GetStream :: "uuid \<Rightarrow> ('x, 'p, 'w, 'h, 'q) service \<Rightarrow> ('x, 'w, 'h, 'q) svc_stream option" where
  "GetStream u svc = (case sv_Hashmap svc u of Some s \<Rightarrow> Some s | None \<Rightarrow> None)"

text \<open>
  \<^verbatim>\<open>startStream\<close>: a writer is made, initialised and opened, then the stream enters the table and
  is started. A configuration with a negative capacity panics when the buffer is made.
\<close>

definition startStream ::
    "('x, 'p, 'w, 'h) provider_ops \<Rightarrow> ('x, 'w) writer_ops \<Rightarrow> 'x stream_info \<Rightarrow>
       ('x, 'p, 'w, 'h, 'q) service \<Rightarrow> ('x, 'p, 'w, 'h, 'q) service \<times> go_error option" where
  "startStream po wo info svc =
     (case po_NewStreamWriter po info (sv_sp svc) of
        Inl e \<Rightarrow> (svc, Some e)
      | Inr w0 \<Rightarrow>
          (case wo_Init wo w0 of
             (_, Some e) \<Rightarrow> (svc, Some e)
           | (w1, None) \<Rightarrow>
               (case wo_Open wo w1 of
                  (_, Some e) \<Rightarrow> (svc, Some e)
                | (w2, None) \<Rightarrow>
                    (case NewStreamIngestBuffer (seconds (cf_BulkFlushFrequency (sv_conf svc)))
                            (cf_BulkMaxSize (sv_conf svc)) (cf_ChannelBufferSize (sv_conf svc)) w2 of
                       Inl e \<Rightarrow> (svc, Some e)
                     | Inr b \<Rightarrow>
                         (let s = NewStream info b; svc1 = setStreamMap (GetUUID s) (Some s) svc in
                          case st_Start s of
                            Inl e \<Rightarrow> (svc1, Some e)
                          | Inr s' \<Rightarrow> (setStreamMap (GetUUID s) (Some s') svc, None))))))"

text \<open>
  \<^verbatim>\<open>LoadStreams\<close> starts every stream in a goroutine of its own. The table is locked for each
  entry and the writers are separate, so the goroutines are the streams in some order (\<open>order\<close>, a
  permutation of the list); the error variable they share keeps the last error.
\<close>

fun start_each ::
    "('x stream_info \<Rightarrow> 's \<Rightarrow> 's \<times> go_error option) \<Rightarrow> 'x stream_info list \<Rightarrow> 's \<Rightarrow> go_error option \<Rightarrow>
       's \<times> go_error option" where
  "start_each start [] svc err = (svc, err)"
| "start_each start (info # infos) svc err =
     (case start info svc of
        (svc', Some e) \<Rightarrow> start_each start infos svc' (Some e)
      | (svc', None) \<Rightarrow> start_each start infos svc' err)"

definition svc_LoadStreams ::
    "('x, 'p, 'w, 'h) provider_ops \<Rightarrow> ('x, 'w) writer_ops \<Rightarrow> ('x stream_info list \<Rightarrow> 'x stream_info list) \<Rightarrow>
       ('x, 'p, 'w, 'h, 'q) service \<Rightarrow>
       ('x, 'p, 'w, 'h, 'q) service \<times> 'x stream_info list \<times> go_error option" where
  "svc_LoadStreams po wo order svc =
     (case po_LoadStreams po (sv_sp svc) of
        (p, Inl e) \<Rightarrow> (svc\<lparr>sv_sp := p\<rparr>, [], Some e)
      | (p, Inr infos) \<Rightarrow>
          (case start_each (startStream po wo) (order infos) (svc\<lparr>sv_sp := p\<rparr>) None of
             (svc', err) \<Rightarrow> (svc', infos, err)))"

definition saveStreamCatalog ::
    "('x, 'p, 'w, 'h) provider_ops \<Rightarrow> ('x, 'p, 'w, 'h, 'q) service \<Rightarrow>
       ('x, 'p, 'w, 'h, 'q) service \<times> go_error option" where
  "saveStreamCatalog po svc = (case po_SaveStreamCatalog po (sv_sp svc) of (p, err) \<Rightarrow> (svc\<lparr>sv_sp := p\<rparr>, err))"

text \<open>
  \<^verbatim>\<open>CreateStream\<close>. The check of the limit and the rest are two definitions, since nothing locks the
  table in between. \<open>now\<close> is the clock and \<open>ds\<close> the candidates of \<^verbatim>\<open>GenerateNewStreamUuid\<close>; the
  result is \<open>None\<close> while it still looks for a free one. The pointer to the stream is given back by
  its UUID.
\<close>

definition too_many_streams :: "('x, 'p, 'w, 'h, 'q) service \<Rightarrow> bool" where
  "too_many_streams svc \<longleftrightarrow> cf_MaxAllowedStreams (sv_conf svc) > 0 \<and>
     GetStreamsCount svc \<ge> cf_MaxAllowedStreams (sv_conf svc)"

definition create_stream ::
    "('x, 'p, 'w, 'h) provider_ops \<Rightarrow> ('x, 'w) writer_ops \<Rightarrow> time \<Rightarrow> uuid list \<Rightarrow> 'x props \<Rightarrow>
       ('x, 'p, 'w, 'h, 'q) service \<Rightarrow> (('x, 'p, 'w, 'h, 'q) service \<times> uuid option \<times> go_error option) option" where
  "create_stream po wo now ds properties svc =
     (case po_GenerateNewStreamUuid po (sv_sp svc) ds of
        None \<Rightarrow> None
      | Some u \<Rightarrow> Some
          (let info = (NewStreamInfo now u)\<lparr>si_Properties := properties\<rparr> in
           case po_OnCreateStream po info (sv_sp svc) of
             (p, Some e) \<Rightarrow> (svc\<lparr>sv_sp := p\<rparr>, None, Some e)
           | (p, None) \<Rightarrow>
               (case startStream po wo info (svc\<lparr>sv_sp := p\<rparr>) of
                  (svc1, Some e) \<Rightarrow> (svc1, None, Some e)
                | (svc1, None) \<Rightarrow> (case saveStreamCatalog po svc1 of (svc2, err) \<Rightarrow> (svc2, Some u, err)))))"

definition svc_CreateStream ::
    "('x, 'p, 'w, 'h) provider_ops \<Rightarrow> ('x, 'w) writer_ops \<Rightarrow> time \<Rightarrow> uuid list \<Rightarrow> 'x props \<Rightarrow>
       ('x, 'p, 'w, 'h, 'q) service \<Rightarrow> (('x, 'p, 'w, 'h, 'q) service \<times> uuid option \<times> go_error option) option" where
  "svc_CreateStream po wo now ds properties svc =
     (if too_many_streams svc then Some (svc, None, Some (Error ''cannot create stream, limit reached''))
      else create_stream po wo now ds properties svc)"

text \<open>
  Closing a stream in one piece: \<^verbatim>\<open>Close\<close>, then the loop of the stream until it has ended. Before
  it takes the branch \<^verbatim>\<open>done\<close> the loop may still receive messages; \<open>n\<close> says how many, and \<open>ks\<close> is
  the order in which it closes the iterators.
\<close>

definition close_stream ::
    "('x, 'w) writer_ops \<Rightarrow> ('h, 'r) handler_ops \<Rightarrow> nat \<times> uuid list \<Rightarrow> ('x, 'w, 'h, 'q) svc_stream \<Rightarrow>
       ('x, 'w, 'h, 'q) svc_stream \<times> go_error option" where
  "close_stream wo ho c s =
     (case st_Close s of
        Inl e \<Rightarrow> (s, Some e)
      | Inr s1 \<Rightarrow>
          (let s2 = ((\<lambda>t. fst (run_message (wo_Write wo) t)) ^^ fst c) s1;
               s3 = fst (run_done (wo_Write wo) (wo_Close wo) (it_Close ho) (snd c) s2) in
           (st_Close_wait s3, None)))"

definition svc_DeleteStream ::
    "('x, 'p, 'w, 'h) provider_ops \<Rightarrow> ('x, 'w) writer_ops \<Rightarrow> ('h, 'r) handler_ops \<Rightarrow> nat \<times> uuid list \<Rightarrow>
       uuid \<Rightarrow> ('x, 'p, 'w, 'h, 'q) service \<Rightarrow> ('x, 'p, 'w, 'h, 'q) service \<times> go_error option" where
  "svc_DeleteStream po wo ho c u svc =
     (case GetStream u svc of
        None \<Rightarrow> (svc, Some (Error ''stream not found''))
      | Some s \<Rightarrow>
          (case close_stream wo ho c s of
             (s', Some e) \<Rightarrow> (setStreamMap u (Some s') svc, Some e)
           | (s', None) \<Rightarrow>
               (let svc1 = setStreamMap u (Some s') svc in
                case po_DeleteStream po u (sv_sp svc1) of
                  (p, Some e) \<Rightarrow> (svc1\<lparr>sv_sp := p\<rparr>, Some e)
                | (p, None) \<Rightarrow> saveStreamCatalog po (setStreamMap u None (svc1\<lparr>sv_sp := p\<rparr>)))))"

text \<open>\<^verbatim>\<open>Stop\<close> closes every stream, whatever the errors, then the provider, and empties the table.\<close>

definition svc_Stop ::
    "('x, 'p, 'w, 'h) provider_ops \<Rightarrow> ('x, 'p, 'w, 'h, 'q) service \<Rightarrow> ('x, 'p, 'w, 'h, 'q) service" where
  "svc_Stop po svc = svc\<lparr>sv_sp := fst (po_Stop po (sv_sp svc)), sv_Hashmap := Map.empty\<rparr>"

definition svc_closed_streams ::
    "('x, 'w) writer_ops \<Rightarrow> ('h, 'r) handler_ops \<Rightarrow> (uuid \<Rightarrow> nat \<times> uuid list) \<Rightarrow>
       ('x, 'p, 'w, 'h, 'q) service \<Rightarrow> uuid \<rightharpoonup> ('x, 'w, 'h, 'q) svc_stream" where
  \<comment> \<open>the streams of the table as \<open>Stop\<close> leaves them\<close>
  "svc_closed_streams wo ho c svc = (\<lambda>u. map_option (\<lambda>s. fst (close_stream wo ho (c u) s)) (sv_Hashmap svc u))"

text \<open>
  \<^verbatim>\<open>NewService\<close> makes the service, initialises its provider and loads the streams; any error ends the
  process.
\<close>

definition NewService ::
    "('x, 'p, 'w, 'h) provider_ops \<Rightarrow> ('x, 'w) writer_ops \<Rightarrow> ('x stream_info list \<Rightarrow> 'x stream_info list) \<Rightarrow>
       go_error + 'p \<Rightarrow> streams_config \<Rightarrow> go_error + ('x, 'p, 'w, 'h, 'q) service" where
  "NewService po wo order new_provider conf =
     (case NewStreamService new_provider conf of
        Inl e \<Rightarrow> Inl fatal
      | Inr svc \<Rightarrow>
          (case svc_Init po svc of
             (_, Some e) \<Rightarrow> Inl fatal
           | (svc1, None) \<Rightarrow>
               (case svc_LoadStreams po wo order svc1 of
                  (_, _, Some e) \<Rightarrow> Inl fatal
                | (svc2, _, None) \<Rightarrow> Inr svc2)))"

section \<open>Listing\<close>

definition svc_GetStreamsUUIDs :: "('x, 'p, 'w, 'h, 'q) service \<Rightarrow> uuid list \<Rightarrow> bool" where
  \<comment> \<open>\<open>ks\<close> is a possible result: the keys in the order the runtime visits them\<close>
  "svc_GetStreamsUUIDs svc ks = range_order (sv_Hashmap svc) ks"

text \<open>
  The filters: nil ones (\<open>None\<close>) are skipped, an error counts as no match. \<open>run\<close> is the jq
  library, as in \<open>MatchFilterProperties\<close>.
\<close>

fun match_filters ::
    "('q \<Rightarrow> 'x props \<Rightarrow> 'x iface list) \<Rightarrow> 'q option list \<Rightarrow> ('x, 'w, 'it) stream \<Rightarrow> bool" where
  "match_filters run [] s = True"
| "match_filters run (None # jqs) s = match_filters run jqs s"
| "match_filters run (Some jq # jqs) s =
     (case st_MatchFilterProperties run jq s of
        Inl e \<Rightarrow> False
      | Inr b \<Rightarrow> if b then match_filters run jqs s else False)"

definition GetStreamsFiltered ::
    "('q \<Rightarrow> 'x props \<Rightarrow> 'x iface list) \<Rightarrow> 'q option list \<Rightarrow> uuid list \<Rightarrow> ('x, 'p, 'w, 'h, 'r) service \<Rightarrow>
       ('x, 'w, 'h, 'r) svc_stream list" where
  "GetStreamsFiltered run jqs ks svc =
     filter (match_filters run jqs) (List.map_filter (sv_Hashmap svc) ks)"

text \<open>
  \<^verbatim>\<open>GetStreamsUUIDsFiltered\<close> holds the write lock of the table and calls \<^verbatim>\<open>GetStream\<close>, which takes the
  read lock. A \<^verbatim>\<open>sync.RWMutex\<close> is not reentrant: the call blocks for ever (\<open>None\<close>) as soon as the
  loop is entered.
\<close>

datatype lock_state = Unlocked | Locked

definition GetStream_locked ::
    "lock_state \<Rightarrow> uuid \<Rightarrow> ('x, 'p, 'w, 'h, 'q) service \<Rightarrow> ('x, 'w, 'h, 'q) svc_stream option option" where
  "GetStream_locked l u svc = (case l of Locked \<Rightarrow> None | Unlocked \<Rightarrow> Some (GetStream u svc))"

fun uuids_loop ::
    "('q \<Rightarrow> 'x props \<Rightarrow> 'x iface list) \<Rightarrow> 'q option list \<Rightarrow> lock_state \<Rightarrow> ('x, 'p, 'w, 'h, 'r) service \<Rightarrow>
       uuid list \<Rightarrow> uuid list option" where
  "uuids_loop run jqs l svc [] = Some []"
| "uuids_loop run jqs l svc (u # us) =
     (case GetStream_locked l u svc of
        None \<Rightarrow> None
      | Some st \<Rightarrow>
          (case uuids_loop run jqs l svc us of
             None \<Rightarrow> None
           | Some uuids \<Rightarrow> Some
               (case st of
                  None \<Rightarrow> uuids
                | Some s \<Rightarrow> if match_filters run jqs s then u # uuids else uuids)))"

definition GetStreamsUUIDsFiltered ::
    "('q \<Rightarrow> 'x props \<Rightarrow> 'x iface list) \<Rightarrow> 'q option list \<Rightarrow> uuid list \<Rightarrow> ('x, 'p, 'w, 'h, 'r) service \<Rightarrow>
       uuid list option" where
  "GetStreamsUUIDsFiltered run jqs ks svc = uuids_loop run jqs Locked svc ks"

section \<open>Record iterators\<close>

definition errorCreateRecordsIterator :: "uuid \<Rightarrow> nat \<Rightarrow> go_error \<Rightarrow> api_error" where
  "errorCreateRecordsIterator streamUUID errorCode err =
     \<lparr>ae_HttpCode = 400, ae_Code = errorCode, ae_Message = ''cannot create stream iterator'',
      ae_Details = Some err, ae_StreamUUID = streamUUID, ae_ValidationErrors = []\<rparr>"

text \<open>
  \<open>itu\<close> is the UUID drawn for the iterator, \<open>parse\<close> is \<^verbatim>\<open>gojq.Parse\<close>. The iterator is opened after it
  was added to the stream, and the stream keeps it when that fails.
\<close>

definition CreateRecordsIterator ::
    "('x, 'p, 'w, 'h) provider_ops \<Rightarrow> ('h, 'r) handler_ops \<Rightarrow> (string \<Rightarrow> go_error + 'q) \<Rightarrow> uuid \<Rightarrow>
       iterator_request \<Rightarrow> ('x, 'p, 'w, 'h, 'q) service \<Rightarrow> ('x, 'w, 'h, 'q) svc_stream \<Rightarrow>
       ('x, 'w, 'h, 'q) svc_stream \<times> (api_error + uuid)" where
  "CreateRecordsIterator po ho parse itu req svc s =
     (let u = GetUUID s;
          cant = (\<lambda>e. errorCreateRecordsIterator u ErrorCantCreateRecordsIterator e) in
      if cf_MaxIteratorsPerStream (sv_conf svc) > 0 \<and>
         int (GetIteratorsCount s) > cf_MaxIteratorsPerStream (sv_conf svc)
      then (s, Inl (cant (Error ''too many iterators opened for this stream'')))
      else case po_NewStreamIteratorHandler po u itu (sv_sp svc) of
        Inl e \<Rightarrow> (s, Inl (cant e))
      | Inr h \<Rightarrow>
          (case NewStreamIterator parse u itu req h of
             Inl e \<Rightarrow> (s, Inl (errorCreateRecordsIterator u ErrorInvalidCreateRecordsIteratorRequest e))
           | Inr it \<Rightarrow>
               (case AddIterator itu it s of
                  Inl e \<Rightarrow> (s, Inl (cant e))
                | Inr s1 \<Rightarrow>
                    (case it_Open ho it of
                       (it', Some e) \<Rightarrow> (s1\<lparr>st_iterators := (st_iterators s1)(itu \<mapsto> it')\<rparr>, Inl (cant e))
                     | (it', None) \<Rightarrow> (s1\<lparr>st_iterators := (st_iterators s1)(itu \<mapsto> it')\<rparr>, Inr itu)))))"

definition svc_BuildIndex ::
    "('x, 'p, 'w, 'h) provider_ops \<Rightarrow> uuid \<Rightarrow> ('x, 'p, 'w, 'h, 'q) service \<Rightarrow>
       ('x, 'p, 'w, 'h, 'q) service \<times> (go_error + 'x iface)" where
  "svc_BuildIndex po u svc = (case po_BuildIndex po u (sv_sp svc) of (p, r) \<Rightarrow> (svc\<lparr>sv_sp := p\<rparr>, r))"

section \<open>What the service relies on\<close>

text \<open>The laws of a provider, in terms of the streams it says it knows.\<close>

locale storage_provider =
  fixes po :: "('x, 'p, 'w, 'h) provider_ops"
  assumes create_known:
      "po_OnCreateStream po i p = (p', None) \<Longrightarrow>
         po_StreamExists po p' u \<longleftrightarrow> u = si_UUID i \<or> po_StreamExists po p u"
    and create_keeps:
      "po_OnCreateStream po i p = (p', err) \<Longrightarrow> po_StreamExists po p u \<Longrightarrow> po_StreamExists po p' u"
    and delete_known:
      "po_DeleteStream po v p = (p', None) \<Longrightarrow>
         po_StreamExists po p' u \<longleftrightarrow> u \<noteq> v \<and> po_StreamExists po p u"
    and delete_fails:
      "po_DeleteStream po v p = (p', Some e) \<Longrightarrow> po_StreamExists po p' u = po_StreamExists po p u"
    and save_known:
      "po_SaveStreamCatalog po p = (p', err) \<Longrightarrow> po_StreamExists po p' u = po_StreamExists po p u"
    and index_known:
      "po_BuildIndex po v p = (p', r) \<Longrightarrow> po_StreamExists po p' u = po_StreamExists po p u"
    and draw_fresh: "po_GenerateNewStreamUuid po p ds = Some u \<Longrightarrow> \<not> po_StreamExists po p u"

text \<open>A provider together with the writers it makes.\<close>

locale stream_service = storage_provider po + closable_writer "wo_Write wo" holds wsize "wo_Close wo"
  for po :: "('x, 'p, 'w, 'h) provider_ops" and wo :: "('x, 'w) writer_ops" and holds wsize

section \<open>The operations on one stream keep its place in the table\<close>

text \<open>
  What happens to a stream between two operations of the service: producers and consumers call it,
  and its loop receives and saves.
\<close>

inductive stream_op ::
    "('x, 'w) writer_ops \<Rightarrow> ('h, 'r) handler_ops \<Rightarrow> ('x, 'w, 'h, 'q) svc_stream \<Rightarrow>
       ('x, 'w, 'h, 'q) svc_stream \<Rightarrow> bool"
  for wo ho where
  op_put: "PutMessages sz now records s = Some (s', r) \<Longrightarrow> stream_op wo ho s s'"
| op_put_one: "PutMessage sz now m s = Some (s', r1) \<Longrightarrow> stream_op wo ho s s'"
| op_receive: "run_message (wo_Write wo) s = (s', err) \<Longrightarrow> stream_op wo ho s s'"
| op_flush: "st_Save (wo_Write wo) s = (s', err) \<Longrightarrow> stream_op wo ho s s'"
| op_read: "st_GetRecords (get :: _ \<Rightarrow> nat \<Rightarrow> _ \<times> (go_error + 'r records_response)) itu n s = (s', r2) \<Longrightarrow> stream_op wo ho s s'"
| op_close_iterator: "CloseIterator (it_Close ho) itu s = (s', err) \<Longrightarrow> stream_op wo ho s s'"
| op_close_iterators: "CloseIterators (it_Close ho) ks s = (s', err) \<Longrightarrow> stream_op wo ho s s'"
| op_set: "st_SetProperties ps s = Inr s' \<Longrightarrow> stream_op wo ho s s'"
| op_update: "st_UpdateProperties ps s = Inr s' \<Longrightarrow> stream_op wo ho s s'"

lemma close_each_dom: "close_each cl its ks = (its', err) \<Longrightarrow> dom its' = dom its"
proof (induction ks arbitrary: its)
  case Nil
  then show ?case by simp
next
  case (Cons k ks)
  show ?case
  proof (cases "its k")
    case None
    with Cons show ?thesis by simp
  next
    case (Some it)
    then have d: "dom (its(k \<mapsto> x)) = dom its" for x by auto
    obtain it' e where "cl it = (it', e)" by fastforce
    with Cons Some d show ?thesis by (cases e) (fastforce simp del: dom_fun_upd)+
  qed
qed

lemma put_all_uuid: "put_all sz now (i, b) ms = Some ((i', b'), ids) \<Longrightarrow> si_UUID i' = si_UUID i"
  by (induction ms arbitrary: i b ids)
    (fastforce simp: ingest_one_def Let_def split: if_splits option.splits prod.splits)+

lemma first_ingested_uuid [simp]: "si_UUID (first_ingested now i) = si_UUID i"
  by (simp add: first_ingested_def)

context closable_writer
begin

lemma st_Save_uuid:
  "st_Save store s = (s', err) \<Longrightarrow> GetUUID s' = GetUUID s \<and> st_iterators s' = st_iterators s \<and>
     st_state s' = st_state s"
  by (auto simp: st_Save_def GetUUID_def Save_frame(2) split: prod.splits)

lemma run_message_uuid:
  "run_message store s = (s', err) \<Longrightarrow> GetUUID s' = GetUUID s \<and> st_iterators s' = st_iterators s \<and>
     st_state s' = st_state s"
  by (auto simp: run_message_def bufferizeMessage_def Let_def split: list.splits if_splits dest!: st_Save_uuid)
    (auto simp: GetUUID_def)

lemma run_messages_uuid:
  "GetUUID (((\<lambda>t. fst (run_message store t)) ^^ n) s) = GetUUID s \<and>
   st_iterators (((\<lambda>t. fst (run_message store t)) ^^ n) s) = st_iterators s"
proof (induction n)
  case 0
  then show ?case by simp
next
  case (Suc n)
  let ?t = "((\<lambda>t. fst (run_message store t)) ^^ n) s"
  obtain t' err where "run_message store ?t = (t', err)" by fastforce
  with run_message_uuid [OF this] Suc show ?case by simp
qed

end

text \<open>An operation on a stream keeps its UUID and adds no iterator.\<close>

definition same_place :: "('x, 'w, 'it) stream \<Rightarrow> ('x, 'w, 'it) stream \<Rightarrow> bool" where
  "same_place s s' \<longleftrightarrow> GetUUID s' = GetUUID s \<and> dom (st_iterators s') \<subseteq> dom (st_iterators s)"

context closable_writer
begin

lemma put_place:
  "PutMessages sz now records s = Some (s', r) \<Longrightarrow> same_place s s'"
  "PutMessage sz now m s = Some (s', r1) \<Longrightarrow> same_place s s'"
  by (auto simp: same_place_def PutMessages_def PutMessage_def GetUUID_def ingest_one_def Let_def
      split: if_splits option.splits prod.splits dest: put_all_uuid)

lemma iterators_place:
  "st_GetRecords get itu n s = (s', r2) \<Longrightarrow> same_place s s'"
  "CloseIterator cl itu s = (s', err) \<Longrightarrow> same_place s s'"
  "CloseIterators cl ks s = (s', err) \<Longrightarrow> same_place s s'"
  by (auto simp: same_place_def st_GetRecords_def CloseIterator_def CloseIterators_def GetUUID_def
      split: if_splits option.splits prod.splits dest!: close_each_dom)

lemma properties_place:
  "st_SetProperties ps s = Inr s' \<Longrightarrow> same_place s s'"
  "st_UpdateProperties ps s = Inr s' \<Longrightarrow> same_place s s'"
  by (cases "SetProperties ps (st_info s)"; cases "UpdateProperties ps (st_info s)";
      auto simp: same_place_def st_SetProperties_def st_UpdateProperties_def GetUUID_def
        dest: SetProperties_keeps_info UpdateProperties_keeps_info)+

lemma run_done_place: "run_done store cl itcl ks s = (s', err) \<Longrightarrow> same_place s s'"
  by (auto simp: run_done_def same_place_def GetUUID_def ib_Close_def CloseIterators_def
      split: prod.splits option.splits dest!: st_Save_uuid close_each_dom) (metis domI domD)

lemma close_stream_place:
  "close_stream (wo\<lparr>wo_Write := store, wo_Close := wclose\<rparr>) ho c s = (s', err) \<Longrightarrow> same_place s s'"
proof -
  assume h: "close_stream (wo\<lparr>wo_Write := store, wo_Close := wclose\<rparr>) ho c s = (s', err)"
  show ?thesis
  proof (cases "st_Close s")
    case (Inl e)
    with h show ?thesis by (simp add: close_stream_def same_place_def)
  next
    case (Inr s1)
    then have s1: "same_place s s1" and g: "GetUUID s1 = GetUUID s" "st_iterators s1 = st_iterators s"
      by (auto simp: st_Close_def same_place_def GetUUID_def setState_def split: if_splits)
    let ?s2 = "((\<lambda>t. fst (run_message store t)) ^^ fst c) s1"
    obtain s3 e where d: "run_done store wclose (it_Close ho) (snd c) ?s2 = (s3, e)" by fastforce
    from run_done_place [OF d] run_messages_uuid [of "fst c" s1] g have "same_place s s3"
      by (simp add: same_place_def)
    moreover have "s' = st_Close_wait s3" using h Inr d by (simp add: close_stream_def Let_def)
    ultimately show ?thesis by (simp add: st_Close_wait_def setState_def same_place_def GetUUID_def)
  qed
qed

end

section \<open>What the service does\<close>

text \<open>
  One operation of the service, or an operation on one of its streams. \<open>pm\<close> are the parameters of the
  iterators: the parser of filters.
\<close>

inductive svc_step ::
    "('x, 'p, 'w, 'h) provider_ops \<Rightarrow> ('x, 'w) writer_ops \<Rightarrow> ('h, 'r) handler_ops \<Rightarrow>
       (string \<Rightarrow> go_error + 'q) \<Rightarrow> ('x, 'p, 'w, 'h, 'q) service \<Rightarrow> ('x, 'p, 'w, 'h, 'q) service \<Rightarrow> bool"
  for po wo ho parse where
  svc_create: "svc_CreateStream po wo now ds ps svc = Some (svc', made, err) \<Longrightarrow> svc_step po wo ho parse svc svc'"
| svc_delete: "svc_DeleteStream po wo ho c u svc = (svc', err) \<Longrightarrow> svc_step po wo ho parse svc svc'"
| svc_iterator: "GetStream u svc = Some s \<Longrightarrow> CreateRecordsIterator po ho parse itu req svc s = (s', res) \<Longrightarrow>
     svc_step po wo ho parse svc (setStreamMap u (Some s') svc)"
| svc_stream: "GetStream u svc = Some s \<Longrightarrow> stream_op wo ho s s' \<Longrightarrow>
     svc_step po wo ho parse svc (setStreamMap u (Some s') svc)"
| svc_index: "svc_BuildIndex po u svc = (svc', stats) \<Longrightarrow> svc_step po wo ho parse svc svc'"

text \<open>
  The invariant of the table: it is finite, every entry is a stream of that UUID which the provider
  knows, the limit of streams holds unless the program started with more, and no stream has more
  iterators than one above the limit.
\<close>

definition svc_inv :: "('x, 'p, 'w, 'h) provider_ops \<Rightarrow> nat \<Rightarrow> ('x, 'p, 'w, 'h, 'q) service \<Rightarrow> bool" where
  "svc_inv po n0 svc \<longleftrightarrow>
     finite (dom (sv_Hashmap svc)) \<and>
     (\<forall>u s. sv_Hashmap svc u = Some s \<longrightarrow> po_StreamExists po (sv_sp svc) u \<and> GetUUID s = u \<and>
        finite (dom (st_iterators s)) \<and>
        (cf_MaxIteratorsPerStream (sv_conf svc) > 0 \<longrightarrow>
           int (GetIteratorsCount s) \<le> cf_MaxIteratorsPerStream (sv_conf svc) + 1)) \<and>
     (cf_MaxAllowedStreams (sv_conf svc) > 0 \<longrightarrow>
        GetStreamsCount svc \<le> max n0 (cf_MaxAllowedStreams (sv_conf svc)))"

lemma same_place_count:
  "same_place s s' \<Longrightarrow> finite (dom (st_iterators s)) \<Longrightarrow>
     finite (dom (st_iterators s')) \<and> GetIteratorsCount s' \<le> GetIteratorsCount s"
  by (auto simp: same_place_def GetIteratorsCount_def card_mono dest: finite_subset)

lemma GetStream_Some: "GetStream u svc = Some s \<longleftrightarrow> sv_Hashmap svc u = Some s"
  by (simp add: GetStream_def split: option.splits)

lemma GetStream_None: "GetStream u svc = None \<longleftrightarrow> sv_Hashmap svc u = None"
  by (simp add: GetStream_def split: option.splits)

lemma setStreamMap_simps [simp]:
  "sv_Hashmap (setStreamMap u (Some s) svc) = (sv_Hashmap svc)(u \<mapsto> s)"
  "sv_Hashmap (setStreamMap u None svc) = (sv_Hashmap svc)(u := None)"
  "sv_sp (setStreamMap u x svc) = sv_sp svc" "sv_conf (setStreamMap u x svc) = sv_conf svc"
  by (simp_all add: setStreamMap_def split: option.splits)

text \<open>A started stream is the only change that \<^verbatim>\<open>startStream\<close> makes, and only on success.\<close>

lemma startStream_law:
  assumes "startStream po wo info svc = (svc', err)"
  shows "err \<noteq> None \<and> svc' = svc \<or>
    err = None \<and> (\<exists>w0 w1 w2 b. po_NewStreamWriter po info (sv_sp svc) = Inr w0 \<and> wo_Init wo w0 = (w1, None) \<and>
      wo_Open wo w1 = (w2, None) \<and>
      NewStreamIngestBuffer (seconds (cf_BulkFlushFrequency (sv_conf svc)))
        (cf_BulkMaxSize (sv_conf svc)) (cf_ChannelBufferSize (sv_conf svc)) w2 = Inr b \<and>
      svc' = setStreamMap (si_UUID info)
        (Some (setState STREAM_STATE_RUNNING (setState STREAM_STATE_STARTING (NewStream info b)))) svc)"
proof -
  have st: "st_Start (NewStream info b) =
      Inr (setState STREAM_STATE_RUNNING (setState STREAM_STATE_STARTING (NewStream info b)))"
    for b :: "('a, 'c) ingest_buffer"
    by (simp add: st_Start_def NewStream_def)
  have u: "GetUUID (NewStream info b) = si_UUID info" for b :: "('a, 'c) ingest_buffer"
    by (simp add: NewStream_def GetUUID_def)
  show ?thesis
    using assms by (auto simp: startStream_def Let_def st u split: sum.splits prod.splits option.splits)
qed

lemma CreateRecordsIterator_place:
  assumes "CreateRecordsIterator po ho parse itu req svc s = (s', res)"
  shows "GetUUID s' = GetUUID s \<and> dom (st_iterators s') \<subseteq> insert itu (dom (st_iterators s)) \<and>
     (st_iterators s' \<noteq> st_iterators s \<longrightarrow> cf_MaxIteratorsPerStream (sv_conf svc) > 0 \<longrightarrow>
        int (GetIteratorsCount s) \<le> cf_MaxIteratorsPerStream (sv_conf svc))"
  using assms
  by (auto simp: CreateRecordsIterator_def Let_def AddIterator_def GetUUID_def
      split: if_splits sum.splits prod.splits option.splits)

lemma svc_inv_put:
  assumes "svc_inv po n0 svc" and "sv_Hashmap svc u = Some s" and "GetUUID s' = GetUUID s"
    and "finite (dom (st_iterators s'))"
    and "cf_MaxIteratorsPerStream (sv_conf svc) > 0 \<Longrightarrow>
           int (GetIteratorsCount s') \<le> cf_MaxIteratorsPerStream (sv_conf svc) + 1"
  shows "svc_inv po n0 (setStreamMap u (Some s') svc)"
proof -
  have "dom ((sv_Hashmap svc)(u \<mapsto> s')) = dom (sv_Hashmap svc)" using assms(2) by auto
  then show ?thesis
    using assms by (auto simp: svc_inv_def GetStreamsCount_def simp del: dom_fun_upd)
qed

lemma svc_inv_same_place:
  assumes "svc_inv po n0 svc" and "sv_Hashmap svc u = Some s" and "same_place s s'"
  shows "svc_inv po n0 (setStreamMap u (Some s') svc)"
proof (rule svc_inv_put [OF assms(1,2)])
  have f: "finite (dom (st_iterators s))"
    and m: "cf_MaxIteratorsPerStream (sv_conf svc) > 0 \<Longrightarrow>
       int (GetIteratorsCount s) \<le> cf_MaxIteratorsPerStream (sv_conf svc) + 1"
    using assms(1,2) by (auto simp: svc_inv_def)
  show "GetUUID s' = GetUUID s" using assms(3) by (simp add: same_place_def)
  from same_place_count [OF assms(3) f] m
  show "finite (dom (st_iterators s'))" "cf_MaxIteratorsPerStream (sv_conf svc) > 0 \<Longrightarrow>
      int (GetIteratorsCount s') \<le> cf_MaxIteratorsPerStream (sv_conf svc) + 1" by auto
qed

lemma svc_inv_iterator:
  assumes "svc_inv po n0 svc" and "sv_Hashmap svc u = Some s"
    and "CreateRecordsIterator po ho parse itu req svc s = (s', res)"
  shows "svc_inv po n0 (setStreamMap u (Some s') svc)"
proof (cases "st_iterators s' = st_iterators s")
  case True
  with CreateRecordsIterator_place [OF assms(3)] have "same_place s s'" by (simp add: same_place_def)
  then show ?thesis by (rule svc_inv_same_place [OF assms(1,2)])
next
  case False
  note place = CreateRecordsIterator_place [OF assms(3)]
  have f: "finite (dom (st_iterators s))" using assms(1,2) by (auto simp: svc_inv_def)
  have "card (dom (st_iterators s')) \<le> card (insert itu (dom (st_iterators s)))"
    using place f by (intro card_mono) auto
  also have "\<dots> \<le> card (dom (st_iterators s)) + 1" using f by (simp add: card_insert_if)
  finally have c: "GetIteratorsCount s' \<le> GetIteratorsCount s + 1" by (simp add: GetIteratorsCount_def)
  show ?thesis
  proof (rule svc_inv_put [OF assms(1,2)])
    show "GetUUID s' = GetUUID s" using place by simp
    show "finite (dom (st_iterators s'))" using place f by (meson finite.insertI finite_subset)
    show "int (GetIteratorsCount s') \<le> cf_MaxIteratorsPerStream (sv_conf svc) + 1"
      if "cf_MaxIteratorsPerStream (sv_conf svc) > 0"
      using that place False c by linarith
  qed
qed

context stream_service
begin

lemma stream_op_place: "stream_op wo ho s s' \<Longrightarrow> same_place s s'"
proof (induction rule: stream_op.induct)
  case (op_receive s s' err)
  then show ?case by (simp add: same_place_def run_message_uuid [OF op_receive])
next
  case (op_flush s s' err)
  then show ?case by (simp add: same_place_def st_Save_uuid [OF op_flush])
qed (simp_all add: put_place iterators_place properties_place)

lemma close_stream_same: "close_stream wo ho c s = (s', err) \<Longrightarrow> same_place s s'"
  using close_stream_place [of wo ho c s s' err] by simp

lemma create_inv:
  assumes inv: "svc_inv po n0 svc" and c: "svc_CreateStream po wo now ds ps svc = Some (svc', made, err)"
  shows "svc_inv po n0 svc'"
proof (cases "too_many_streams svc")
  case True
  with c inv show ?thesis by (simp add: svc_CreateStream_def)
next
  case False
  with c obtain u where u: "po_GenerateNewStreamUuid po (sv_sp svc) ds = Some u"
    by (auto simp: svc_CreateStream_def create_stream_def split: option.splits)
  define info where "info = (NewStreamInfo now u)\<lparr>si_Properties := ps\<rparr>"
  have iu: "si_UUID info = u" by (simp add: info_def NewStreamInfo_def)
  obtain p e where o: "po_OnCreateStream po info (sv_sp svc) = (p, e)" by fastforce
  let ?svc1 = "svc\<lparr>sv_sp := p\<rparr>"
  have keeps: "po_StreamExists po (sv_sp svc) v \<Longrightarrow> po_StreamExists po p v" for v
    by (rule create_keeps [OF o])
  have inv1: "svc_inv po n0 ?svc1"
    using inv keeps by (auto simp: svc_inv_def GetStreamsCount_def)
  show ?thesis
  proof (cases e)
    case (Some x)
    with False u o c inv1 show ?thesis
      by (simp add: svc_CreateStream_def create_stream_def info_def)
  next
    case None
    obtain svc2 e2 where st: "startStream po wo info ?svc1 = (svc2, e2)" by fastforce
    have inv2: "svc_inv po n0 svc2"
    proof (cases e2)
      case (Some x)
      with startStream_law [OF st] inv1 show ?thesis by auto
    next
      case N: None
      with startStream_law [OF st] obtain b where
        s2: "svc2 = setStreamMap u (Some (setState STREAM_STATE_RUNNING
          (setState STREAM_STATE_STARTING (NewStream info b)))) ?svc1" by (auto simp: iu)
      have ex: "po_StreamExists po p u" using o None create_known [of info "sv_sp svc" p u] iu by simp
      have fin: "finite (dom (sv_Hashmap svc))" using inv by (simp add: svc_inv_def)
      have "GetStreamsCount svc2 \<le> Suc (GetStreamsCount svc)"
        using fin by (simp add: s2 GetStreamsCount_def card_insert_if)
      then have "GetStreamsCount svc2 \<le> max n0 (cf_MaxAllowedStreams (sv_conf svc))"
        if "cf_MaxAllowedStreams (sv_conf svc) > 0"
        using that False by (simp add: too_many_streams_def)
      with inv1 ex fin show ?thesis
        by (auto simp: svc_inv_def s2 setState_def NewStream_def GetUUID_def iu GetIteratorsCount_def)
    qed
    show ?thesis
    proof (cases e2)
      case (Some x)
      with False u o None st c inv2 show ?thesis
        by (simp add: svc_CreateStream_def create_stream_def info_def)
    next
      case N: None
      obtain q e3 where sv: "po_SaveStreamCatalog po (sv_sp svc2) = (q, e3)" by fastforce
      have "svc' = svc2\<lparr>sv_sp := q\<rparr>"
        using False u o None st c N sv
        by (simp add: svc_CreateStream_def create_stream_def info_def saveStreamCatalog_def)
      with inv2 save_known [OF sv] show ?thesis by (simp add: svc_inv_def GetStreamsCount_def)
    qed
  qed
qed

lemma delete_inv:
  assumes inv: "svc_inv po n0 svc" and d: "svc_DeleteStream po wo ho c u svc = (svc', err)"
  shows "svc_inv po n0 svc'"
proof (cases "sv_Hashmap svc u")
  case None
  with d inv show ?thesis by (simp add: svc_DeleteStream_def GetStream_def)
next
  case (Some s)
  obtain s' e where cl: "close_stream wo ho c s = (s', e)" by fastforce
  let ?svc1 = "setStreamMap u (Some s') svc"
  have inv1: "svc_inv po n0 ?svc1"
    by (rule svc_inv_same_place [OF inv Some close_stream_same [OF cl]])
  show ?thesis
  proof (cases e)
    case (Some x)
    with d cl inv1 \<open>sv_Hashmap svc u = Some s\<close> show ?thesis
      by (simp add: svc_DeleteStream_def GetStream_def)
  next
    case None
    obtain p e2 where pd: "po_DeleteStream po u (sv_sp svc) = (p, e2)" by fastforce
    show ?thesis
    proof (cases e2)
      case (Some x)
      with d cl None pd \<open>sv_Hashmap svc u = Some s\<close>
      have "svc' = ?svc1\<lparr>sv_sp := p\<rparr>" by (simp add: svc_DeleteStream_def GetStream_def Let_def)
      with inv1 delete_fails [OF pd [unfolded Some]] show ?thesis
        by (simp add: svc_inv_def GetStreamsCount_def)
    next
      case N: None
      let ?svc2 = "setStreamMap u None (?svc1\<lparr>sv_sp := p\<rparr>)"
      obtain q e3 where sv: "po_SaveStreamCatalog po p = (q, e3)" by fastforce
      have "svc' = ?svc2\<lparr>sv_sp := q\<rparr>"
        using d cl None pd N sv \<open>sv_Hashmap svc u = Some s\<close>
        by (simp add: svc_DeleteStream_def GetStream_def Let_def saveStreamCatalog_def)
      moreover have "card (dom (sv_Hashmap ?svc2)) \<le> card (dom (sv_Hashmap svc))"
        using inv by (intro card_mono) (auto simp: svc_inv_def)
      ultimately show ?thesis
        using inv delete_known [OF pd [unfolded N]] save_known [OF sv]
        by (auto simp: svc_inv_def GetStreamsCount_def)
    qed
  qed
qed

lemma step_inv:
  "svc_step po wo ho parse svc svc' \<Longrightarrow> svc_inv po n0 svc \<Longrightarrow> svc_inv po n0 svc' \<and> sv_conf svc' = sv_conf svc"
proof (induction rule: svc_step.induct)
  case (svc_create now ds ps svc svc' made err)
  have "sv_conf svc' = sv_conf svc"
    using svc_create(1) startStream_law
    by (fastforce simp: svc_CreateStream_def create_stream_def Let_def saveStreamCatalog_def
        split: if_splits option.splits prod.splits)
  with create_inv [OF svc_create(2,1)] show ?case by simp
next
  case (svc_delete c u svc svc' err)
  have "sv_conf svc' = sv_conf svc"
    using svc_delete(1)
    by (auto simp: svc_DeleteStream_def Let_def saveStreamCatalog_def split: if_splits option.splits prod.splits)
  with delete_inv [OF svc_delete(2,1)] show ?case by simp
next
  case (svc_iterator u svc s itu req s' res)
  with svc_inv_iterator show ?case by (simp add: GetStream_Some)
next
  case (svc_stream u svc s s')
  from svc_stream(1) have "sv_Hashmap svc u = Some s" by (simp add: GetStream_Some)
  from svc_inv_same_place [OF svc_stream(3) this stream_op_place [OF svc_stream(2)]] show ?case by simp
next
  case (svc_index u svc svc' stats)
  then show ?case
    using index_known by (auto simp: svc_BuildIndex_def svc_inv_def GetStreamsCount_def split: prod.splits)
qed

lemma steps_inv:
  "(svc_step po wo ho parse)\<^sup>*\<^sup>* svc svc' \<Longrightarrow> svc_inv po n0 svc \<Longrightarrow>
     svc_inv po n0 svc' \<and> sv_conf svc' = sv_conf svc"
  by (induction rule: rtranclp_induct) (auto dest: step_inv)

end

section \<open>The in-memory provider under the service\<close>

definition im_provider_ops ::
    "('x, ('x, 'x stream_info) im_storage, 'x in_memory_stream, 'x in_memory_stream \<times> im_handler) provider_ops" where
  "im_provider_ops = \<lparr>
     po_Init = (\<lambda>s. (imp_Init s, None)), po_Stop = imp_Stop,
     po_GenerateNewStreamUuid = imp_GenerateNewStreamUuid, po_StreamExists = imp_StreamExists,
     po_SaveStreamCatalog = imp_SaveStreamCatalog, po_LoadStreams = imp_LoadStreams,
     po_OnCreateStream = (\<lambda>i s. imp_OnCreateStream s (si_UUID i) i),
     po_GetStreamInfo = (\<lambda>u s. imp_GetStreamInfo s u), po_BuildIndex = (\<lambda>u s. (s, imp_BuildIndex s u)),
     po_NewStreamIteratorHandler = (\<lambda>u itu s. imp_NewStreamIteratorHandler s u itu),
     po_NewStreamWriter = (\<lambda>i s. imp_NewStreamWriter s (si_UUID i)),
     po_DeleteStream = (\<lambda>u s. imp_DeleteStream s u)\<rparr>"

definition im_writer_ops :: "('x iface \<Rightarrow> u64) \<Rightarrow> ('x, 'x in_memory_stream) writer_ops" where
  "im_writer_ops sz = \<lparr>wo_Init = InMemory_Init, wo_Open = InMemory_Open, wo_Close = InMemory_Close,
     wo_Write = InMemory_Write sz\<rparr>"

lemmas im_po_simps = im_provider_ops_def im_writer_ops_def

lemma im_po_sel:
  "po_GenerateNewStreamUuid im_provider_ops = imp_GenerateNewStreamUuid"
  "po_StreamExists im_provider_ops = imp_StreamExists"
  "po_SaveStreamCatalog im_provider_ops = imp_SaveStreamCatalog"
  "po_OnCreateStream im_provider_ops i s = imp_OnCreateStream s (si_UUID i) i"
  "po_DeleteStream im_provider_ops u s = imp_DeleteStream s u"
  "po_NewStreamIteratorHandler im_provider_ops u itu s = imp_NewStreamIteratorHandler s u itu"
  by (simp_all add: im_provider_ops_def)

interpretation im_provider: storage_provider im_provider_ops
proof unfold_locales
  show "\<not> po_StreamExists im_provider_ops p u" if "po_GenerateNewStreamUuid im_provider_ops p ds = Some u"
    for p :: "('x, 'x stream_info) im_storage" and ds u
    using that fresh_uuid_free by (auto simp: im_po_simps imp_GenerateNewStreamUuid_def)
qed (auto simp: im_po_simps imp_defs imp_StreamExists_def split: option.splits if_splits)

interpretation im_service: stream_service im_provider_ops "im_writer_ops sz" im_holds "\<lambda>r. sz (dr_Msg r)"
  for sz :: "'x iface \<Rightarrow> u64"
  by (intro stream_service.intro im_provider.storage_provider_axioms)
    (simp add: im_writer_ops_def im_closable.closable_writer_axioms)

section \<open>Properties\<close>

lemma im_NewService:
  assumes "NewService im_provider_ops (im_writer_ops sz) order (NewInMemoryStorageProvider parsed maxRecords) conf = Inr svc"
    and "order [] = []"
  shows "sv_Hashmap svc = Map.empty \<and> sv_conf svc = conf"
  using assms
  by (auto simp: NewService_def NewStreamService_def svc_Init_def svc_LoadStreams_def im_po_simps
      imp_LoadStreams_def imp_LoadStreamsFromUUIDs_def imc_LoadStreamCatalog_def Let_def
      split: sum.splits prod.splits option.splits)

text \<open>
  In every state that the service over the in-memory provider reaches, whatever producers,
  consumers and administrators do: each entry of the table is the stream with that UUID, the
  provider knows it, the limit of streams holds, and no stream has more iterators than one above
  the configured limit.
\<close>

theorem service_invariant:
  assumes "NewService im_provider_ops (im_writer_ops sz) order (NewInMemoryStorageProvider parsed maxRecords) conf = Inr svc0"
    and "order [] = []"
    and "(svc_step im_provider_ops (im_writer_ops sz) ho parse)\<^sup>*\<^sup>* svc0 svc"
  shows "(\<forall>u s. GetStream u svc = Some s \<longrightarrow> imp_StreamExists (sv_sp svc) u \<and> GetUUID s = u \<and>
       (cf_MaxIteratorsPerStream conf > 0 \<longrightarrow> int (GetIteratorsCount s) \<le> cf_MaxIteratorsPerStream conf + 1)) \<and>
     (cf_MaxAllowedStreams conf > 0 \<longrightarrow> GetStreamsCount svc \<le> cf_MaxAllowedStreams conf)"
proof -
  note start = im_NewService [OF assms(1,2)]
  then have "svc_inv im_provider_ops 0 svc0" by (simp add: svc_inv_def GetStreamsCount_def)
  from im_service.steps_inv [OF assms(3) this] start
  have inv: "svc_inv im_provider_ops 0 svc" and "sv_conf svc = conf" by auto
  then show ?thesis
    by (auto simp: svc_inv_def GetStream_Some im_po_simps)
qed

definition sample_conf :: streams_config where
  "sample_conf = \<lparr>cf_BulkFlushFrequency = 1, cf_BulkMaxSize = 2, cf_ChannelBufferSize = 2,
     cf_MaxIteratorsPerStream = 1, cf_MaxMessagePerGetOperation = 5, cf_MaxAllowedStreams = 1\<rparr>"

definition new_sample_service ::
    "go_error + (nat, (nat, nat stream_info) im_storage, nat in_memory_stream,
       nat in_memory_stream \<times> im_handler, nat) service" where
  "new_sample_service = NewService im_provider_ops (im_writer_ops (\<lambda>_. 1)) id
     (NewInMemoryStorageProvider (Inr 0) 0) sample_conf"

lemmas sample_service_defs = new_sample_service_def NewService_def NewStreamService_def svc_Init_def
  svc_LoadStreams_def im_po_simps imp_defs NewInMemoryStorageProvider_def NewStreamCatalogInMemory_def
  sample_conf_def

definition sample_service ::
    "(nat, (nat, nat stream_info) im_storage, nat in_memory_stream,
       nat in_memory_stream \<times> im_handler, nat) service" where
  "sample_service = \<lparr>sv_Hashmap = Map.empty,
     sv_sp = \<lparr>imp_catalog = \<lparr>imc_streams = Some Map.empty\<rparr>, imp_streams = Map.empty,
       imp_maxRecordsByStream = 0, imp_maxSizeInBytes = 0\<rparr>, sv_conf = sample_conf\<rparr>"

lemma new_sample_service: "new_sample_service = Inr sample_service"
  by (simp add: sample_service_defs sample_service_def)

lemmas create_defs = svc_CreateStream_def create_stream_def too_many_streams_def GetStreamsCount_def
  imp_GenerateNewStreamUuid_def imp_StreamExists_def imp_NewStreamWriter_def startStream_def
  InMemory_Init_def InMemory_Open_def NewStreamIngestBuffer_def saveStreamCatalog_def st_Start_def

text \<open>The service after one creation.\<close>

lemma sample_create:
  "\<exists>svc. svc_CreateStream im_provider_ops (im_writer_ops (\<lambda>_. 1)) 0 [7] (Some Map.empty) sample_service =
     Some (svc, Some 7, None) \<and> sv_Hashmap svc 7 \<noteq> None"
  by (simp add: create_defs sample_service_def sample_conf_def im_po_simps imp_defs NewStreamInfo_def
      setState_def NewStream_def GetUUID_def)

lemma service_invariant_witness:
  "\<exists>svc. svc_CreateStream im_provider_ops (im_writer_ops (\<lambda>_. 1)) 0 [7] (Some Map.empty) sample_service =
     Some (svc, Some 7, None) \<and> GetStreamsCount svc \<le> 1"
proof -
  obtain svc where c: "svc_CreateStream im_provider_ops (im_writer_ops (\<lambda>_. 1)) 0 [7] (Some Map.empty) sample_service =
     Some (svc, Some 7, None)" using sample_create by blast
  have "(svc_step im_provider_ops (im_writer_ops (\<lambda>_. 1)) im_ops (\<lambda>_. Inr 0))\<^sup>*\<^sup>* sample_service svc"
    by (rule r_into_rtranclp) (rule svc_create [OF c])
  from service_invariant [OF new_sample_service [unfolded new_sample_service_def] _ this] have "GetStreamsCount svc \<le> 1" by (simp add: sample_conf_def)
  with c show ?thesis by blast
qed

text \<open>
  C28: what \<^verbatim>\<open>CreateStream\<close> does, on every branch. On success the stream is new to the provider, and
  it is in the table: running, with the given properties, nothing ingested, an empty channel and
  buffer, and a writer on an empty in-memory stream. On failure the table is as before. No other
  entry changes either way.
\<close>

theorem CreateStream_result:
  assumes "svc_CreateStream im_provider_ops (im_writer_ops sz) now ds ps svc = Some (svc', made, err)"
  shows "case (made, err) of
      (Some u, None) \<Rightarrow> \<not> imp_StreamExists (sv_sp svc) u \<and> imp_StreamExists (sv_sp svc') u \<and>
        (\<forall>v. v \<noteq> u \<longrightarrow> GetStream v svc' = GetStream v svc) \<and>
        (\<exists>s. GetStream u svc' = Some s \<and> st_state s = STREAM_STATE_RUNNING \<and>
           st_info s = (NewStreamInfo now u)\<lparr>si_Properties := ps\<rparr> \<and> st_iterators s = Map.empty \<and>
           ib_channelMsg (st_ingestBuffer s) = [] \<and> ib_msgBuffer (st_ingestBuffer s) = [] \<and>
           im_stored (ib_writer (st_ingestBuffer s)) = [])
    | _ \<Rightarrow> err \<noteq> None \<and> made = None \<and> (\<forall>v. GetStream v svc' = GetStream v svc)"
proof (cases "too_many_streams svc")
  case True
  with assms have "made = None" "err \<noteq> None" "svc' = svc" by (auto simp: svc_CreateStream_def)
  then show ?thesis by (auto split: option.splits)
next
  case False
  with assms obtain u where u: "imp_GenerateNewStreamUuid (sv_sp svc) ds = Some u"
    by (auto simp: svc_CreateStream_def create_stream_def im_po_simps split: option.splits)
  let ?info = "(NewStreamInfo now u)\<lparr>si_Properties := ps\<rparr>"
  have iu: "si_UUID ?info = u" by (simp add: NewStreamInfo_def)
  obtain p e where o: "imp_OnCreateStream (sv_sp svc) u ?info = (p, e)" by fastforce
  have fresh: "\<not> imp_StreamExists (sv_sp svc) u"
    using u fresh_uuid_free by (auto simp: imp_GenerateNewStreamUuid_def)
  obtain svc2 e2 where st: "startStream im_provider_ops (im_writer_ops sz) ?info (svc\<lparr>sv_sp := p\<rparr>) = (svc2, e2)"
    by fastforce
  have r: "(svc', made, err) = (case e of Some x \<Rightarrow> (svc\<lparr>sv_sp := p\<rparr>, None, Some x)
      | None \<Rightarrow> (case e2 of Some x \<Rightarrow> (svc2, None, Some x) | None \<Rightarrow> (svc2, Some u, None)))"
    using assms False u o st iu
    by (auto simp: svc_CreateStream_def create_stream_def im_po_sel saveStreamCatalog_def
        imp_SaveStreamCatalog_def imc_SaveStreamCatalog_def split: option.splits)
  show ?thesis
  proof (cases "e = None \<and> e2 = None")
    case False
    with r startStream_law [OF st] show ?thesis by (auto simp: GetStream_def split: option.splits)
  next
    case True
    with startStream_law [OF st] obtain w b where
      w: "imp_NewStreamWriter p u = Inr w"
      and b: "NewStreamIngestBuffer (seconds (cf_BulkFlushFrequency (sv_conf svc))) (cf_BulkMaxSize (sv_conf svc))
          (cf_ChannelBufferSize (sv_conf svc)) w = Inr b"
      and s2: "svc2 = setStreamMap u (Some (setState STREAM_STATE_RUNNING (setState STREAM_STATE_STARTING
          (NewStream ?info b)))) (svc\<lparr>sv_sp := p\<rparr>)"
      by (auto simp: im_po_simps InMemory_Init_def InMemory_Open_def iu)
    note made = imp_create_ready [OF o [unfolded conjunct1 [OF True]]]
    have "im_stored (ib_writer b) = []" "ib_channelMsg b = []" "ib_msgBuffer b = []"
      using b w made(1) by (auto simp: NewStreamIngestBuffer_def NewInMemoryStream_def im_stored_def split: if_splits)
    with True r fresh made(4) s2 show ?thesis
      by (simp add: GetStream_def setState_def NewStream_def)
  qed
qed

lemma CreateStream_result_witness:
  "\<exists>svc s. svc_CreateStream im_provider_ops (im_writer_ops (\<lambda>_. 1)) 0 [7] (Some Map.empty) sample_service =
     Some (svc, Some 7, None) \<and> GetStream 7 svc = Some s \<and> st_state s = STREAM_STATE_RUNNING"
proof -
  obtain svc where c: "svc_CreateStream im_provider_ops (im_writer_ops (\<lambda>_. 1)) 0 [7] (Some Map.empty) sample_service =
     Some (svc, Some 7, None)" using sample_create by blast
  from CreateStream_result [OF c] c show ?thesis by auto
qed

lemma close_stream_ok:
  "close_stream wo ho c s = (s', None) \<longleftrightarrow> (\<exists>s1. st_Close s = Inr s1) \<and> s' = fst (close_stream wo ho c s)"
  by (auto simp: close_stream_def Let_def split: sum.splits)

lemma close_stream_state:
  "close_stream wo ho c s = (s', None) \<Longrightarrow> st_state s = STREAM_STATE_RUNNING \<and> st_state s' = STREAM_STATE_NONE"
  by (auto simp: close_stream_def Let_def st_Close_def st_Close_wait_def setState_def split: sum.splits if_splits)

lemma close_stream_stopped:
  "st_state s \<noteq> STREAM_STATE_RUNNING \<Longrightarrow> close_stream wo ho c s = (s, Some (Error ''stream state is not running''))"
  by (simp add: close_stream_def st_Close_def)

text \<open>
  C29: a successful \<^verbatim>\<open>DeleteStream\<close> was called on a running stream; afterwards the stream is neither
  in the table nor in the provider, every other entry is as before and every other stream of the
  provider is still known.
\<close>

theorem DeleteStream_removes:
  assumes "svc_DeleteStream im_provider_ops (im_writer_ops sz) ho c u svc = (svc', None)"
  shows "(\<exists>s. GetStream u svc = Some s \<and> st_state s = STREAM_STATE_RUNNING) \<and>
     GetStream u svc' = None \<and> \<not> imp_StreamExists (sv_sp svc') u \<and>
     (\<forall>v. v \<noteq> u \<longrightarrow> GetStream v svc' = GetStream v svc \<and>
        imp_StreamExists (sv_sp svc') v = imp_StreamExists (sv_sp svc) v)"
proof -
  from assms obtain s where s: "GetStream u svc = Some s"
    by (auto simp: svc_DeleteStream_def split: option.splits)
  obtain s' e where cl: "close_stream (im_writer_ops sz) ho c s = (s', e)" by fastforce
  obtain p e2 where pd: "imp_DeleteStream (sv_sp svc) u = (p, e2)" by fastforce
  from assms s cl pd have e: "e = None" "e2 = None"
    and svc': "svc' = (setStreamMap u None ((setStreamMap u (Some s') svc)\<lparr>sv_sp := p\<rparr>))
         \<lparr>sv_sp := fst (imp_SaveStreamCatalog p)\<rparr>"
    by (auto simp: svc_DeleteStream_def Let_def im_po_sel saveStreamCatalog_def
        split: option.splits prod.splits)
  obtain q e3 where sv: "imp_SaveStreamCatalog p = (q, e3)" by fastforce
  have known: "imp_StreamExists q v \<longleftrightarrow> v \<noteq> u \<and> imp_StreamExists (sv_sp svc) v" for v
    using im_provider.delete_known [of u "sv_sp svc" p v] im_provider.save_known [of p q e3 v] pd e sv
    by (simp add: im_po_sel)
  have "svc' = svc\<lparr>sv_Hashmap := (sv_Hashmap svc)(u := None), sv_sp := q\<rparr>"
    using svc' sv by (simp add: setStreamMap_def)
  with s close_stream_state [OF cl [unfolded e]] known show ?thesis
    by (auto simp: GetStream_def)
qed

lemma DeleteStream_removes_witness:
  "\<exists>svc svc'. svc_CreateStream im_provider_ops (im_writer_ops (\<lambda>_. 1)) 0 [7] (Some Map.empty) sample_service =
       Some (svc, Some 7, None) \<and>
     svc_DeleteStream im_provider_ops (im_writer_ops (\<lambda>_. 1)) im_ops (0, []) 7 svc = (svc', None) \<and>
     GetStream 7 svc' = None"
proof -
  obtain svc where c: "svc_CreateStream im_provider_ops (im_writer_ops (\<lambda>_. 1)) 0 [7] (Some Map.empty) sample_service =
     Some (svc, Some 7, None)" using sample_create by blast
  obtain svc' e where d: "svc_DeleteStream im_provider_ops (im_writer_ops (\<lambda>_. 1)) im_ops (0, []) 7 svc = (svc', e)"
    by fastforce
  have "e = None"
    using c d
    by (auto simp: create_defs sample_service_def sample_conf_def im_po_simps imp_defs NewStreamInfo_def
        setState_def NewStream_def GetUUID_def setStreamMap_def svc_DeleteStream_def GetStream_def
        close_stream_def st_Close_def split: prod.splits)
  with d DeleteStream_removes [of "\<lambda>_. 1" im_ops "(0, [])" 7 svc svc'] c show ?thesis by blast
qed

text \<open>
  A deletion that the provider refuses is final. The stream was closed before the provider was
  asked, and it stays in the table; every later deletion, with whatever provider and schedule,
  fails because the stream is not running, and changes nothing.
\<close>

theorem failed_delete_is_final:
  assumes "GetStream u svc = Some s" and "st_Close s = Inr s1"
    and "po_DeleteStream po u (sv_sp svc) = (p, Some e)"
    and "svc_DeleteStream po wo ho c u svc = (svc', err)"
  shows "err = Some e \<and>
     (\<exists>s'. GetStream u svc' = Some s' \<and> st_state s' = STREAM_STATE_NONE \<and>
       svc_DeleteStream po2 wo2 ho2 c2 u svc' = (svc', Some (Error ''stream state is not running'')) \<and>
       PutMessages sz now (m # ms) s' = Some (s', Inl (Error ''stream state is not running'')))"
proof -
  obtain s' where cl: "close_stream wo ho c s = (s', None)" using assms(2) by (simp add: close_stream_def Let_def)
  with assms have svc': "svc' = (setStreamMap u (Some s') svc)\<lparr>sv_sp := p\<rparr>" and "err = Some e"
    by (auto simp: svc_DeleteStream_def Let_def)
  moreover have st: "st_state s' = STREAM_STATE_NONE" using close_stream_state [OF cl] by simp
  moreover have g: "GetStream u svc' = Some s'" by (simp add: svc' GetStream_def)
  moreover have "setStreamMap u (Some s') svc' = svc'"
    by (simp add: svc' setStreamMap_def)
  ultimately show ?thesis
    using close_stream_stopped [of s' wo2 ho2 c2] by (simp add: svc_DeleteStream_def PutMessages_def)
qed

lemma failed_delete_is_final_witness:
  "\<exists>svc svc'. svc_CreateStream im_provider_ops (im_writer_ops (\<lambda>_. 1)) 0 [7] (Some Map.empty) sample_service =
       Some (svc, Some 7, None) \<and>
     svc_DeleteStream (im_provider_ops\<lparr>po_DeleteStream := \<lambda>u p. (p, Some (Error ''io''))\<rparr>)
       (im_writer_ops (\<lambda>_. 1)) im_ops (0, []) 7 svc = (svc', Some (Error ''io'')) \<and>
     svc_DeleteStream im_provider_ops (im_writer_ops (\<lambda>_. 1)) im_ops (0, []) 7 svc' =
       (svc', Some (Error ''stream state is not running''))"
proof -
  obtain svc where c: "svc_CreateStream im_provider_ops (im_writer_ops (\<lambda>_. 1)) 0 [7] (Some Map.empty) sample_service =
     Some (svc, Some 7, None)" using sample_create by blast
  then obtain s s1 where s: "GetStream 7 svc = Some s" "st_Close s = Inr s1"
    by (auto simp: create_defs sample_service_def sample_conf_def im_po_simps imp_defs NewStreamInfo_def
        setState_def NewStream_def GetUUID_def setStreamMap_def GetStream_def st_Close_def)
  obtain svc' e where d: "svc_DeleteStream (im_provider_ops\<lparr>po_DeleteStream := \<lambda>u p. (p, Some (Error ''io''))\<rparr>)
       (im_writer_ops (\<lambda>_. 1)) im_ops (0, []) 7 svc = (svc', e)" by fastforce
  have p: "po_DeleteStream (im_provider_ops\<lparr>po_DeleteStream := \<lambda>u p. (p, Some (Error ''io''))\<rparr>) 7 (sv_sp svc) =
      (sv_sp svc, Some (Error ''io''))" by simp
  from failed_delete_is_final [OF s p d, of im_provider_ops "im_writer_ops (\<lambda>_. 1)" im_ops "(0, [])"] c d
  show ?thesis by blast
qed

text \<open>
  The limit of iterators is off by one. With exactly the configured number of iterators a
  further one is still created; only when the limit is exceeded is the call refused, and then it
  changes nothing.
\<close>

theorem iterator_limit_off_by_one:
  assumes "cf_MaxIteratorsPerStream (sv_conf svc) > 0" and "st_state s = STREAM_STATE_RUNNING"
    and "finite (dom (st_iterators s))" and "itu \<notin> dom (st_iterators s)"
    and "imp_StreamExists (sv_sp svc) (GetUUID s)" and "rq_JqFilter req = []"
  shows "(int (GetIteratorsCount s) = cf_MaxIteratorsPerStream (sv_conf svc) \<longrightarrow>
       (\<exists>s'. CreateRecordsIterator im_provider_ops im_ops parse itu req svc s = (s', Inr itu) \<and>
          int (GetIteratorsCount s') = cf_MaxIteratorsPerStream (sv_conf svc) + 1)) \<and>
     (int (GetIteratorsCount s) > cf_MaxIteratorsPerStream (sv_conf svc) \<longrightarrow>
       (\<exists>e. CreateRecordsIterator im_provider_ops im_ops parse itu req svc s = (s, Inl e) \<and>
          ae_Code e = ErrorCantCreateRecordsIterator))"
proof (intro conjI impI)
  assume c: "int (GetIteratorsCount s) = cf_MaxIteratorsPerStream (sv_conf svc)"
  obtain h where h: "imp_NewStreamIteratorHandler (sv_sp svc) (GetUUID s) itu = Inr h"
    using assms(5) by (auto simp: imp_NewStreamIteratorHandler_def imp_StreamExists_def split: option.splits)
  obtain h' where o: "ho_Open im_ops h = (h', None)" by (simp add: im_ops_def im_Open_def split_beta)
  let ?it = "\<lambda>h. \<lparr>it_streamUUID = GetUUID s, it_itUUID = itu, it_request = Some req, it_jqFilter = None,
      it_LastRecordIdRead = 0, it_Stats = no_stats_yet, it_handler = h, it_busy = False\<rparr>"
  have "CreateRecordsIterator im_provider_ops im_ops parse itu req svc s =
      (s\<lparr>st_iterators := (st_iterators s)(itu \<mapsto> ?it h')\<rparr>, Inr itu)"
    using assms c h o
    by (simp add: CreateRecordsIterator_def Let_def im_po_sel NewStreamIterator_def AddIterator_def it_Open_def)
  moreover have "int (GetIteratorsCount (s\<lparr>st_iterators := (st_iterators s)(itu \<mapsto> ?it h')\<rparr>)) =
      cf_MaxIteratorsPerStream (sv_conf svc) + 1"
    using assms(3,4) c by (simp add: GetIteratorsCount_def card_insert_if domIff)
  ultimately show "\<exists>s'. CreateRecordsIterator im_provider_ops im_ops parse itu req svc s = (s', Inr itu) \<and>
      int (GetIteratorsCount s') = cf_MaxIteratorsPerStream (sv_conf svc) + 1" by blast
next
  assume "int (GetIteratorsCount s) > cf_MaxIteratorsPerStream (sv_conf svc)"
  with assms show "\<exists>e. CreateRecordsIterator im_provider_ops im_ops parse itu req svc s = (s, Inl e) \<and>
      ae_Code e = ErrorCantCreateRecordsIterator"
    by (simp add: CreateRecordsIterator_def Let_def errorCreateRecordsIterator_def)
qed

lemma iterator_limit_off_by_one_witness:
  "\<exists>svc s s'. GetStream 7 svc = Some s \<and> int (GetIteratorsCount s) = cf_MaxIteratorsPerStream (sv_conf svc) \<and>
     CreateRecordsIterator im_provider_ops im_ops (\<lambda>_. Inr 0) 2 (sample_request ''FIRST_MESSAGE'' 0) svc s = (s', Inr 2) \<and>
     GetIteratorsCount (s' :: (nat, nat in_memory_stream, nat in_memory_stream \<times> im_handler, nat) svc_stream) = 2"
proof -
  obtain svc where c: "svc_CreateStream im_provider_ops (im_writer_ops (\<lambda>_. 1)) 0 [7] (Some Map.empty) sample_service =
     Some (svc, Some 7, None)" using sample_create by blast
  from CreateStream_result [OF c] obtain s where s: "GetStream 7 svc = Some s" "st_state s = STREAM_STATE_RUNNING"
    "imp_StreamExists (sv_sp svc) 7" "GetUUID s = 7" "st_iterators s = Map.empty"
    by (auto simp: GetUUID_def NewStreamInfo_def)
  have conf: "sv_conf svc = sample_conf"
    using c by (auto simp: create_defs sample_service_def sample_conf_def im_po_simps imp_defs NewStreamInfo_def
        setState_def NewStream_def GetUUID_def setStreamMap_def)
  obtain it :: "(nat in_memory_stream \<times> im_handler, nat) stream_iterator" where True by simp
  let ?s = "s\<lparr>st_iterators := [1 \<mapsto> it]\<rparr>"
  let ?svc = "setStreamMap 7 (Some ?s) svc"
  have "GetUUID ?s = 7" using s(4) by (simp add: GetUUID_def)
  with iterator_limit_off_by_one [of ?svc ?s 2 "sample_request ''FIRST_MESSAGE'' 0" "\<lambda>_. Inr 0"] s conf
  obtain s' where "CreateRecordsIterator im_provider_ops im_ops (\<lambda>_. Inr 0) 2 (sample_request ''FIRST_MESSAGE'' 0) ?svc ?s = (s', Inr 2)"
    "GetIteratorsCount s' = 2"
    by (auto simp: sample_conf_def GetIteratorsCount_def sample_request_def)
  moreover have "GetStream 7 ?svc = Some ?s" by (simp add: GetStream_def)
  ultimately show ?thesis
    using conf by (intro exI [of _ ?svc] exI [of _ ?s] exI [of _ s']) (simp add: GetIteratorsCount_def sample_conf_def)
qed

text \<open>
  \<^verbatim>\<open>GetStreamsUUIDsFiltered\<close> blocks for ever unless there is no stream, since it asks for the
  read lock while it holds the write lock.
\<close>

theorem filtered_uuids_deadlock:
  assumes "range_order (sv_Hashmap svc) ks"
  shows "GetStreamsUUIDsFiltered run jqs ks svc = (if sv_Hashmap svc = Map.empty then Some [] else None)"
proof (cases ks)
  case Nil
  with assms have "sv_Hashmap svc = Map.empty" by (auto simp: range_order_def)
  with Nil show ?thesis by (simp add: GetStreamsUUIDsFiltered_def)
next
  case (Cons u us)
  with assms have "sv_Hashmap svc \<noteq> Map.empty" by (auto simp: range_order_def)
  with Cons show ?thesis by (simp add: GetStreamsUUIDsFiltered_def GetStream_locked_def)
qed

lemma filtered_uuids_deadlock_witness:
  "\<exists>svc. svc_CreateStream im_provider_ops (im_writer_ops (\<lambda>_. 1)) 0 [7] (Some Map.empty) sample_service =
       Some (svc, Some 7, None) \<and>
     GetStreamsUUIDsFiltered (\<lambda>(q::nat) p. []) [None] [7] svc = None"
proof -
  have "\<exists>svc. svc_CreateStream im_provider_ops (im_writer_ops (\<lambda>_. 1)) 0 [7] (Some Map.empty) sample_service =
     Some (svc, Some 7, None) \<and> range_order (sv_Hashmap svc) [7] \<and> sv_Hashmap svc \<noteq> Map.empty"
    by (simp add: create_defs sample_service_def sample_conf_def im_po_simps imp_defs NewStreamInfo_def
      setState_def NewStream_def GetUUID_def range_order_def)
  then obtain svc where c: "svc_CreateStream im_provider_ops (im_writer_ops (\<lambda>_. 1)) 0 [7] (Some Map.empty) sample_service =
       Some (svc, Some 7, None)" and r: "range_order (sv_Hashmap svc) [7]" "sv_Hashmap svc \<noteq> Map.empty" by blast
  from filtered_uuids_deadlock [OF r(1), of "\<lambda>(q::nat) p. []" "[None]"] r(2) c show ?thesis by auto
qed

lemma match_filters_iff:
  "match_filters run jqs s \<longleftrightarrow> (\<forall>q. Some q \<in> set jqs \<longrightarrow> st_MatchFilterProperties run q s = Inr True)"
proof (induction jqs)
  case Nil
  then show ?case by simp
next
  case (Cons j jqs)
  show ?case
  proof (cases j)
    case None
    with Cons show ?thesis by simp
  next
    case (Some q)
    with Cons show ?thesis by (cases "st_MatchFilterProperties run q s") auto
  qed
qed



text \<open>
  The limit of streams is checked without a lock, so two creations that both pass the check
  before either has added its stream exceed it by one.
\<close>

theorem racing_creates_exceed_limit:
  assumes "\<not> too_many_streams svc" and "GetStreamsCount svc + 1 = cf_MaxAllowedStreams (sv_conf svc)"
    and "finite (dom (sv_Hashmap svc))" and "\<forall>u. sv_Hashmap svc u \<noteq> None \<longrightarrow> imp_StreamExists (sv_sp svc) u"
    and "create_stream im_provider_ops (im_writer_ops sz) now ds ps svc = Some (svc1, Some u1, None)"
    and "create_stream im_provider_ops (im_writer_ops sz) now2 ds2 ps2 svc1 = Some (svc2, Some u2, None)"
  shows "GetStreamsCount svc2 = cf_MaxAllowedStreams (sv_conf svc2) + 1"
proof -
  have made: "u \<notin> dom (sv_Hashmap sv) \<and> sv_conf sv' = sv_conf sv \<and>
      (\<exists>s. sv_Hashmap sv' = (sv_Hashmap sv)(u \<mapsto> s)) \<and> (\<forall>v. sv_Hashmap sv' v \<noteq> None \<longrightarrow> imp_StreamExists (sv_sp sv') v)"
    if c: "create_stream im_provider_ops (im_writer_ops sz) t d q sv = Some (sv', Some u, None)"
      and k: "\<forall>v. sv_Hashmap sv v \<noteq> None \<longrightarrow> imp_StreamExists (sv_sp sv) v" for sv sv' t d q u
  proof -
    from c have g: "imp_GenerateNewStreamUuid (sv_sp sv) d = Some u"
      by (auto simp: create_stream_def im_po_sel Let_def split: option.splits prod.splits)
    let ?info = "(NewStreamInfo t u)\<lparr>si_Properties := q\<rparr>"
    have iu: "si_UUID ?info = u" by (simp add: NewStreamInfo_def)
    obtain p e where o: "imp_OnCreateStream (sv_sp sv) u ?info = (p, e)" by fastforce
    obtain sv2 e2 where st: "startStream im_provider_ops (im_writer_ops sz) ?info (sv\<lparr>sv_sp := p\<rparr>) = (sv2, e2)"
      by fastforce
    obtain r e3 where sv: "imp_SaveStreamCatalog (sv_sp sv2) = (r, e3)" by fastforce
    from c g o st iu sv have e: "e = None" "e2 = None" "sv' = sv2\<lparr>sv_sp := r\<rparr>"
      by (auto simp: create_stream_def im_po_sel Let_def saveStreamCatalog_def split: option.splits)
    from startStream_law [OF st] e(2) obtain s where s2: "sv2 = setStreamMap u (Some s) (sv\<lparr>sv_sp := p\<rparr>)"
      by (auto simp: iu)
    have "\<not> imp_StreamExists (sv_sp sv) u"
      using g fresh_uuid_free by (auto simp: imp_GenerateNewStreamUuid_def)
    moreover have "imp_StreamExists r v \<longleftrightarrow> v = u \<or> imp_StreamExists (sv_sp sv) v" for v
      using im_provider.create_known [of ?info "sv_sp sv" p v] im_provider.save_known [of "sv_sp sv2" r e3 v]
        o e(1) sv s2 iu by (simp add: im_po_sel)
    ultimately show ?thesis using k e(3) s2 by auto
  qed
  from made [OF assms(5,4)] obtain s where 1: "u1 \<notin> dom (sv_Hashmap svc)" "sv_conf svc1 = sv_conf svc"
    "sv_Hashmap svc1 = (sv_Hashmap svc)(u1 \<mapsto> s)" "\<forall>v. sv_Hashmap svc1 v \<noteq> None \<longrightarrow> imp_StreamExists (sv_sp svc1) v"
    by auto
  from made [OF assms(6) 1(4)] obtain s' where 2: "u2 \<notin> dom (sv_Hashmap svc1)" "sv_conf svc2 = sv_conf svc1"
    "sv_Hashmap svc2 = (sv_Hashmap svc1)(u2 \<mapsto> s')" by auto
  from 1 2 assms(2,3) show ?thesis by (simp add: GetStreamsCount_def card_insert_if domIff)
qed

lemma racing_creates_exceed_limit_witness:
  "\<exists>svc1 svc2. create_stream im_provider_ops (im_writer_ops (\<lambda>_. 1)) 0 [7] (Some Map.empty) sample_service =
       Some (svc1, Some 7, None) \<and>
     create_stream im_provider_ops (im_writer_ops (\<lambda>_. 1)) 0 [7, 8] (Some Map.empty) svc1 = Some (svc2, Some 8, None) \<and>
     GetStreamsCount svc2 = cf_MaxAllowedStreams (sv_conf svc2) + 1"
proof -
  have "\<exists>svc1 svc2. create_stream im_provider_ops (im_writer_ops (\<lambda>_. 1)) 0 [7] (Some Map.empty) sample_service =
       Some (svc1, Some 7, None) \<and>
     create_stream im_provider_ops (im_writer_ops (\<lambda>_. 1)) 0 [7, 8] (Some Map.empty) svc1 = Some (svc2, Some 8, None)"
    by (simp add: create_defs sample_service_def sample_conf_def im_po_simps imp_defs NewStreamInfo_def
      setState_def NewStream_def GetUUID_def setStreamMap_def)
  then obtain svc1 svc2 where c:
    "create_stream im_provider_ops (im_writer_ops (\<lambda>_. 1)) 0 [7] (Some Map.empty) sample_service = Some (svc1, Some 7, None)"
    "create_stream im_provider_ops (im_writer_ops (\<lambda>_. 1)) 0 [7, 8] (Some Map.empty) svc1 = Some (svc2, Some 8, None)"
    by blast
  have "\<not> too_many_streams sample_service" "GetStreamsCount sample_service + 1 = cf_MaxAllowedStreams (sv_conf sample_service)"
    "finite (dom (sv_Hashmap sample_service))"
    "\<forall>u. sv_Hashmap sample_service u \<noteq> None \<longrightarrow> imp_StreamExists (sv_sp sample_service) u"
    by (simp_all add: too_many_streams_def GetStreamsCount_def sample_service_def sample_conf_def)
  from racing_creates_exceed_limit [OF this c] c show ?thesis by blast
qed

end
