(* ===== verification/MySqlProvider.thy ===== *)
theory MySqlProvider
  imports MySqlReader Service
begin

text \<open>
  The provider of streams stored in MySQL (storageprovider/mysqlprovider: streamcatalog.go,
  provider.go): the catalog table with one row per stream, one table per stream, and the maps of
  descriptions and indexes in memory.
\<close>

section \<open>The catalog (streamcatalog.go)\<close>

text \<open>
  \<open>cm_pool\<close> is the conversation with the database. The map is nil until \<^verbatim>\<open>Init\<close>. \<^verbatim>\<open>logger.Fatal\<close>
  ends the process: the result is \<open>fatal\<close>, and what the state would have been is not kept where an
  operation returns a sum.
\<close>

record 'x mysql_catalog =
  cm_pool :: sql_log
  cm_schemaName :: string
  cm_catalogTableName :: string
  cm_streamTablePrefix :: string
  cm_streams :: "(uuid \<rightharpoonup> 'x stream_info) option"

definition NewStreamCatalogMySQL :: "sql_log \<Rightarrow> string \<Rightarrow> string \<Rightarrow> string \<Rightarrow> 'x mysql_catalog" where
  "NewStreamCatalogMySQL pool schemaName catalogTableName prefix =
     \<lparr>cm_pool = pool, cm_schemaName = schemaName, cm_catalogTableName = catalogTableName,
      cm_streamTablePrefix = prefix, cm_streams = None\<rparr>"

definition quoted :: "string \<Rightarrow> string" where
  "quoted s = CHR 0x27 # s @ [CHR 0x27]"

text \<open>\<open>qn\<close> answers the queries that look for a name.\<close>

definition cm_SchemaExists :: "(string \<Rightarrow> string scanned_row) \<Rightarrow> 'x mysql_catalog \<Rightarrow> go_error + bool" where
  "cm_SchemaExists qn c =
     (case qn (''SHOW SCHEMAS LIKE '' @ quoted (cm_schemaName c)) of
        No_Rows \<Rightarrow> Inr False | Scan_Error e \<Rightarrow> Inl fatal | Scanned name \<Rightarrow> Inr True)"

definition cm_exec :: "sql_db \<Rightarrow> sql_call \<Rightarrow> 'x mysql_catalog \<Rightarrow> 'x mysql_catalog \<times> go_error option" where
  "cm_exec db call c = (case sql db call (cm_pool c) of (log, err) \<Rightarrow> (c\<lparr>cm_pool := log\<rparr>, err))"

definition cm_CreateSchema :: "sql_db \<Rightarrow> 'x mysql_catalog \<Rightarrow> 'x mysql_catalog \<times> go_error option" where
  "cm_CreateSchema db c =
     (case cm_exec db (Exec (''CREATE SCHEMA '' @ cm_schemaName c) []) c of
        (c1, Some e) \<Rightarrow> (c1, Some fatal) | (c1, None) \<Rightarrow> (c1, None))"

definition cm_CatalogExists :: "(string \<Rightarrow> string scanned_row) \<Rightarrow> 'x mysql_catalog \<Rightarrow> go_error + bool" where
  "cm_CatalogExists qn c =
     (case qn (''SELECT table_name FROM information_schema.tables WHERE table_schema = '' @ quoted (cm_schemaName c) @
               '' AND table_name = '' @ quoted (cm_catalogTableName c)) of
        No_Rows \<Rightarrow> Inr False | Scan_Error e \<Rightarrow> Inl fatal | Scanned name \<Rightarrow> Inr True)"

text \<open>The columns, up to white space.\<close>

definition catalog_columns :: string where
  "catalog_columns = '' (id CHAR(36) PRIMARY KEY, creation_date TIMESTAMP DEFAULT CURRENT_TIMESTAMP,'' @
     '' last_update TIMESTAMP DEFAULT CURRENT_TIMESTAMP, cache_cpt_rows BIGINT DEFAULT 0,'' @
     '' cache_size_in_bytes BIGINT DEFAULT 0, cache_first_msg_id BIGINT NULL, cache_last_msg_id BIGINT NULL,'' @
     '' cache_first_msg_timestamp TIMESTAMP NULL, cache_last_msg_timestamp TIMESTAMP NULL,'' @
     '' comment VARCHAR(255) DEFAULT NULL, properties JSON DEFAULT NULL )''"

definition cm_CreateEmptyCatalog :: "sql_db \<Rightarrow> 'x mysql_catalog \<Rightarrow> 'x mysql_catalog \<times> go_error option" where
  "cm_CreateEmptyCatalog db c =
     (case cm_exec db (Exec (''CREATE TABLE '' @ cm_schemaName c @ ''.'' @ cm_catalogTableName c @ catalog_columns) []) c of
        (c1, Some e) \<Rightarrow> (c1, Some fatal)
      | (c1, None) \<Rightarrow> (c1\<lparr>cm_streams := Some Map.empty\<rparr>, None))"

definition cm_EnsureCatalogExists ::
    "sql_db \<Rightarrow> (string \<Rightarrow> string scanned_row) \<Rightarrow> 'x mysql_catalog \<Rightarrow> 'x mysql_catalog \<times> go_error option" where
  "cm_EnsureCatalogExists db qn c =
     (case cm_SchemaExists qn c of
        Inl e \<Rightarrow> (c, Some e)
      | Inr found \<Rightarrow>
          (case (if found then (c, None) else cm_CreateSchema db c) of
             (c1, Some e) \<Rightarrow> (c1, Some e)
           | (c1, None) \<Rightarrow>
               (case cm_CatalogExists qn c1 of
                  Inl e \<Rightarrow> (c1, Some e)
                | Inr True \<Rightarrow> (c1, None)
                | Inr False \<Rightarrow> cm_CreateEmptyCatalog db c1)))"

definition cm_Init ::
    "sql_db \<Rightarrow> (string \<Rightarrow> string scanned_row) \<Rightarrow> 'x mysql_catalog \<Rightarrow> 'x mysql_catalog \<times> go_error option" where
  "cm_Init db qn c = cm_EnsureCatalogExists db qn (c\<lparr>cm_streams := Some Map.empty\<rparr>)"

definition cm_Stop :: "'x mysql_catalog \<Rightarrow> 'x mysql_catalog \<times> go_error option" where
  "cm_Stop c = (c, None)"

definition cm_SaveStreamCatalog :: "'x mysql_catalog \<Rightarrow> 'x mysql_catalog \<times> go_error option" where
  "cm_SaveStreamCatalog c = (c, None)"

definition cm_find :: "'x mysql_catalog \<Rightarrow> uuid \<Rightarrow> 'x stream_info option" where
  "cm_find c u = (case cm_streams c of None \<Rightarrow> None | Some m \<Rightarrow> m u)"

definition cm_GetStreamsUUIDs :: "'x mysql_catalog \<Rightarrow> uuid list \<Rightarrow> bool" where
  \<comment> \<open>\<open>ks\<close> is a possible result: the keys in the order the runtime visits them\<close>
  "cm_GetStreamsUUIDs c ks = range_order (cm_find c) ks"

definition cm_StreamExists :: "'x mysql_catalog \<Rightarrow> uuid \<Rightarrow> bool" where
  "cm_StreamExists c u = (case cm_find c u of Some info \<Rightarrow> True | None \<Rightarrow> False)"

definition cm_GetStreamInfo :: "'x mysql_catalog \<Rightarrow> uuid \<Rightarrow> go_error + 'x stream_info" where
  "cm_GetStreamInfo c u = (case cm_find c u of Some info \<Rightarrow> Inr info | None \<Rightarrow> Inl (Error ''stream not found''))"

text \<open>
  Loading the catalog. A scanned row has its nullable columns as options; a row whose \<^verbatim>\<open>properties\<close>
  are \<^verbatim>\<open>NULL\<close> cannot be scanned. \<open>up\<close> is \<^verbatim>\<open>json.Unmarshal\<close> of the properties into an empty map; the
  JSON value \<^verbatim>\<open>null\<close> makes the map nil.
\<close>

record catalog_row =
  cr_UUID :: uuid
  cr_CreationDate :: time
  cr_CptMessages :: u64
  cr_SizeInBytes :: u64
  cr_firstMsgId :: "int option"
  cr_lastMsgId :: "int option"
  cr_firstMsgTimestamp :: "time option"
  cr_lastMsgTimestamp :: "time option"
  cr_LastUpdate :: time
  cr_Properties :: string

definition or_zero :: "int option \<Rightarrow> u64" where
  "or_zero v = (case v of Some n \<Rightarrow> word_of_int n | None \<Rightarrow> 0)"

definition or_zero_time :: "time option \<Rightarrow> time" where
  "or_zero_time v = (case v of Some t \<Rightarrow> t | None \<Rightarrow> zero_time)"

definition row_info :: "catalog_row \<Rightarrow> 'x props \<Rightarrow> 'x stream_info" where
  "row_info r properties =
     (let counters = \<lparr>CptMessages = cr_CptMessages r, SizeInBytes = cr_SizeInBytes r,
            FirstMsgId = or_zero (cr_firstMsgId r), LastMsgId = or_zero (cr_lastMsgId r),
            FirstMsgTimestamp = or_zero_time (cr_firstMsgTimestamp r),
            LastMsgTimestamp = or_zero_time (cr_lastMsgTimestamp r)\<rparr> in
      \<lparr>si_UUID = cr_UUID r, si_CreationDate = cr_CreationDate r, si_LastUpdate = cr_LastUpdate r,
       si_Properties = properties, IngestedMessages = counters, ReadableMessages = counters\<rparr>)"

fun load_rows ::
    "(string \<Rightarrow> go_error + 'x props) \<Rightarrow> (go_error + catalog_row) list \<Rightarrow> (uuid \<rightharpoonup> 'x stream_info) \<Rightarrow>
       go_error + (uuid \<rightharpoonup> 'x stream_info) \<times> uuid list" where
  "load_rows up [] m = Inr (m, [])"
| "load_rows up (Inl e # rows) m = Inl fatal"
| "load_rows up (Inr r # rows) m =
     (case up (cr_Properties r) of
        Inl e \<Rightarrow> Inl fatal
      | Inr properties \<Rightarrow>
          (case load_rows up rows (m(cr_UUID r \<mapsto> row_info r properties)) of
             Inl e \<Rightarrow> Inl e
           | Inr (m', us) \<Rightarrow> Inr (m', cr_UUID r # us)))"

definition catalog_query :: "'x mysql_catalog \<Rightarrow> string" where
  "catalog_query c = ''SELECT id, creation_date, cache_cpt_rows, cache_size_in_bytes, cache_first_msg_id,'' @
     '' cache_last_msg_id, cache_first_msg_timestamp, cache_last_msg_timestamp, last_update, properties FROM '' @
     cm_schemaName c @ ''.'' @ cm_catalogTableName c"

definition cm_LoadStreamCatalog ::
    "(string \<Rightarrow> go_error + (go_error + catalog_row) list) \<Rightarrow> (string \<Rightarrow> go_error + 'x props) \<Rightarrow>
       'x mysql_catalog \<Rightarrow> 'x mysql_catalog \<times> (go_error + uuid list)" where
  "cm_LoadStreamCatalog qc up c =
     (case qc (catalog_query c) of
        Inl e \<Rightarrow> (c, Inl fatal)
      | Inr rows \<Rightarrow>
          (case load_rows up rows Map.empty of
             Inl e \<Rightarrow> (c, Inl e)
           | Inr (m, us) \<Rightarrow> (c\<lparr>cm_streams := Some m\<rparr>, Inr us)))"

text \<open>The table of a stream: the prefix and the UUID, its dashes replaced.\<close>

definition underscored :: "string \<Rightarrow> string" where
  "underscored s = map (\<lambda>c. if c = CHR ''-'' then CHR ''_'' else c) s"

definition GetSQLStreamTable :: "(uuid \<Rightarrow> string) \<Rightarrow> 'x mysql_catalog \<Rightarrow> uuid \<Rightarrow> string" where
  "GetSQLStreamTable show_uuid c u = cm_streamTablePrefix c @ underscored (show_uuid u)"

text \<open>
  Creating a stream, in one transaction; \<open>mp\<close> is \<^verbatim>\<open>json.Marshal\<close> of the properties. When they cannot be
  marshalled the transaction is left as it is. The UUID of the description is passed beside it.
\<close>

definition roll_back :: "sql_db \<Rightarrow> 'x mysql_catalog \<Rightarrow> 'x mysql_catalog" where
  "roll_back db c = fst (cm_exec db Rollback c)"

definition cm_OnCreateStream ::
    "('x props \<Rightarrow> go_error + string) \<Rightarrow> sql_db \<Rightarrow> (uuid \<Rightarrow> string) \<Rightarrow> 'x mysql_catalog \<Rightarrow> uuid \<Rightarrow> 'x stream_info \<Rightarrow>
       'x mysql_catalog \<times> go_error option" where
  "cm_OnCreateStream mp db show_uuid c u info =
     (case cm_exec db Begin c of
        (c1, Some e) \<Rightarrow> (c1, Some e)
      | (c1, None) \<Rightarrow>
          (case mp (si_Properties info) of
             Inl e \<Rightarrow> (c1, Some e)
           | Inr propertiesJSON \<Rightarrow>
               (case cm_exec db (Tx_Exec (''INSERT INTO '' @ cm_schemaName c @ ''.'' @ cm_catalogTableName c @
                        '' (id, creation_date, last_update, properties) VALUES (?, ?, ?, ?)'')
                        [AUuid u, ADate (si_CreationDate info), ADate (si_LastUpdate info), AText propertiesJSON]) c1 of
                  (c2, Some e) \<Rightarrow> (roll_back db c2, Some e)
                | (c2, None) \<Rightarrow>
                    (case cm_exec db (Tx_Exec (''CREATE TABLE '' @ cm_schemaName c @ ''.'' @ GetSQLStreamTable show_uuid c u @
                             '' (id BIGINT PRIMARY KEY, timestamp TIMESTAMP, message JSON)'') []) c2 of
                       (c3, Some e) \<Rightarrow> (roll_back db c3, Some e)
                     | (c3, None) \<Rightarrow>
                         (case cm_exec db Commit c3 of
                            (c4, Some e) \<Rightarrow> (roll_back db c4, Some e)
                          | (c4, None) \<Rightarrow>
                              (case cm_streams c4 of
                                 None \<Rightarrow> (c4, Some (Panic ''assignment to entry in nil map''))
                               | Some m \<Rightarrow> (c4\<lparr>cm_streams := Some (m(u \<mapsto> info))\<rparr>, None)))))))"

text \<open>Deleting a stream; the name of the table to drop keeps the dashes of the UUID. Every error is fatal.\<close>

definition cm_OnDeleteStream ::
    "sql_db \<Rightarrow> (uuid \<Rightarrow> string) \<Rightarrow> 'x mysql_catalog \<Rightarrow> uuid \<Rightarrow> go_error + 'x mysql_catalog" where
  "cm_OnDeleteStream db show_uuid c u =
     (let c0 = c\<lparr>cm_streams := map_option (\<lambda>m. m(u := None)) (cm_streams c)\<rparr> in
      case cm_exec db (Exec (''DELETE FROM '' @ cm_schemaName c @ ''.'' @ cm_catalogTableName c @ '' WHERE id = ?'') [AUuid u]) c0 of
        (c1, Some e) \<Rightarrow> Inl fatal
      | (c1, None) \<Rightarrow>
          (case cm_exec db (Exec (''DROP TABLE '' @ cm_schemaName c @ ''.'' @ cm_streamTablePrefix c @ show_uuid u) []) c1 of
             (c2, Some e) \<Rightarrow> Inl fatal
           | (c2, None) \<Rightarrow> Inr c2))"

section \<open>The provider (provider.go)\<close>

text \<open>\<open>msp_opened\<close>: the pool is not nil. The catalog is nil until \<^verbatim>\<open>Init\<close> reaches it.\<close>

record 'x mysql_storage =
  msp_config :: mysql_config
  msp_opened :: bool
  msp_catalog :: "'x mysql_catalog option"
  msp_indexes :: "uuid \<rightharpoonup> mysql_index"

definition mysql_NewStorageProvider :: "(string \<Rightarrow> string) \<Rightarrow> mysql_conf \<Rightarrow> go_error + 'x mysql_storage" where
  "mysql_NewStorageProvider getenv conf =
     (case NewMySQLConfig getenv conf of
        Inl e \<Rightarrow> Inl e
      | Inr cfg \<Rightarrow> Inr \<lparr>msp_config = cfg, msp_opened = False, msp_catalog = None, msp_indexes = Map.empty\<rparr>)"

text \<open>The package \<^verbatim>\<open>net/url\<close>: parsing, setting a query parameter, printing.\<close>

record 'u url_lib =
  ul_Parse :: "string \<Rightarrow> go_error + 'u"
  ul_Set :: "string \<Rightarrow> string \<Rightarrow> 'u \<Rightarrow> 'u"
  ul_String :: "'u \<Rightarrow> string"

definition SafeOverrideDSN :: "'u url_lib \<Rightarrow> string \<Rightarrow> string \<times> go_error option" where
  "SafeOverrideDSN url dsn =
     (case ul_Parse url dsn of
        Inl e \<Rightarrow> (dsn, Some e)
      | Inr u \<Rightarrow> (ul_String url (ul_Set url ''parseTime'' ''true'' u), None))"

definition ClearIndexes :: "'x mysql_storage \<Rightarrow> 'x mysql_storage" where
  "ClearIndexes s = s\<lparr>msp_indexes := Map.empty\<rparr>"

text \<open>\<open>open_err\<close> and \<open>ping_err\<close> are the errors of \<^verbatim>\<open>sql.Open\<close> and \<^verbatim>\<open>pool.Ping\<close> for a data source name.\<close>

definition msp_Init ::
    "'u url_lib \<Rightarrow> (string \<Rightarrow> go_error option) \<Rightarrow> (string \<Rightarrow> go_error option) \<Rightarrow> sql_db \<Rightarrow>
       (string \<Rightarrow> string scanned_row) \<Rightarrow> 'x mysql_storage \<Rightarrow> 'x mysql_storage \<times> go_error option" where
  "msp_Init url open_err ping_err db qn s =
     (case SafeOverrideDSN url (mc_Dsn (msp_config s)) of
        (dsn, Some e) \<Rightarrow> (s, Some e)
      | (dsn, None) \<Rightarrow>
          (let s1 = ClearIndexes s; cfg = msp_config s in
           case open_err dsn of
             Some e \<Rightarrow> (s1\<lparr>msp_opened := False\<rparr>, Some e)
           | None \<Rightarrow>
               (let s2 = s1\<lparr>msp_opened := True\<rparr> in
                case ping_err dsn of
                  Some e \<Rightarrow> (s2, Some e)
                | None \<Rightarrow>
                    (case cm_Init db qn (NewStreamCatalogMySQL [] (mc_SchemaName cfg) (mc_CatalogTableName cfg) (mc_StreamTablePrefix cfg)) of
                       (c, err) \<Rightarrow> (s2\<lparr>msp_catalog := Some c\<rparr>, err)))))"

text \<open>A call of a method of the nil catalog panics.\<close>

definition nil_catalog :: go_error where
  "nil_catalog = Panic ''nil pointer dereference''"

definition msp_Stop :: "go_error option \<Rightarrow> 'x mysql_storage \<Rightarrow> 'x mysql_storage \<times> go_error option" where
  "msp_Stop close_err s =
     (case msp_catalog s of
        None \<Rightarrow> (s, Some nil_catalog)
      | Some c \<Rightarrow> (case cm_Stop c of (c', Some e) \<Rightarrow> (s, Some e) | (c', None) \<Rightarrow>
           (s, if msp_opened s then close_err else None)))"

definition msp_StreamExists :: "'x mysql_storage \<Rightarrow> uuid \<Rightarrow> bool" where
  "msp_StreamExists s u = (case msp_catalog s of None \<Rightarrow> False | Some c \<Rightarrow> cm_StreamExists c u)"

definition msp_GenerateNewStreamUuid :: "'x mysql_storage \<Rightarrow> uuid list \<Rightarrow> uuid option" where
  "msp_GenerateNewStreamUuid s ds = fresh_uuid (msp_StreamExists s) ds"

definition getStreamTableName :: "(uuid \<Rightarrow> string) \<Rightarrow> 'x mysql_storage \<Rightarrow> uuid \<Rightarrow> string" where
  "getStreamTableName show_uuid s u = mc_StreamTablePrefix (msp_config s) @ underscored (show_uuid u)"

definition GetStreamIndex :: "'x mysql_storage \<Rightarrow> uuid \<Rightarrow> go_error + mysql_index" where
  "GetStreamIndex s u = (case msp_indexes s u of Some idx \<Rightarrow> Inr idx | None \<Rightarrow> Inl (Error ''stream index not found''))"

definition SetStreamIndex :: "uuid \<Rightarrow> mysql_index \<Rightarrow> 'x mysql_storage \<Rightarrow> 'x mysql_storage" where
  "SetStreamIndex u idx s = s\<lparr>msp_indexes := (msp_indexes s)(u \<mapsto> idx)\<rparr>"

definition new_index :: "(uuid \<Rightarrow> string) \<Rightarrow> uuid \<Rightarrow> 'x mysql_storage \<Rightarrow> mysql_index" where
  "new_index show_uuid u s = mx_NewStreamIndex u (mc_SchemaName (msp_config s)) (getStreamTableName show_uuid s u)"

definition msp_GetStreamInfo :: "'x mysql_storage \<Rightarrow> uuid \<Rightarrow> go_error + 'x stream_info" where
  "msp_GetStreamInfo s u = (case msp_catalog s of None \<Rightarrow> Inl nil_catalog | Some c \<Rightarrow> cm_GetStreamInfo c u)"

fun msp_LoadStreamsFromUUIDs ::
    "(uuid \<Rightarrow> string) \<Rightarrow> uuid list \<Rightarrow> 'x mysql_storage \<Rightarrow> 'x mysql_storage \<times> (go_error + 'x stream_info list)" where
  "msp_LoadStreamsFromUUIDs show_uuid [] s = (s, Inr [])"
| "msp_LoadStreamsFromUUIDs show_uuid (u # us) s =
     (case msp_GetStreamInfo s u of
        Inl e \<Rightarrow> (s, Inl e)
      | Inr info \<Rightarrow>
          (case msp_LoadStreamsFromUUIDs show_uuid us (SetStreamIndex u (new_index show_uuid u s) s) of
             (s', Inl e) \<Rightarrow> (s', Inl e)
           | (s', Inr infos) \<Rightarrow> (s', Inr (info # infos))))"

definition msp_LoadStreams ::
    "(uuid \<Rightarrow> string) \<Rightarrow> (string \<Rightarrow> go_error + (go_error + catalog_row) list) \<Rightarrow> (string \<Rightarrow> go_error + 'x props) \<Rightarrow>
       'x mysql_storage \<Rightarrow> 'x mysql_storage \<times> (go_error + 'x stream_info list)" where
  "msp_LoadStreams show_uuid qc up s =
     (case msp_catalog s of
        None \<Rightarrow> (s, Inl nil_catalog)
      | Some c \<Rightarrow>
          (case cm_LoadStreamCatalog qc up c of
             (c', Inl e) \<Rightarrow> (s\<lparr>msp_catalog := Some c'\<rparr>, Inl e)
           | (c', Inr us) \<Rightarrow> msp_LoadStreamsFromUUIDs show_uuid us (s\<lparr>msp_catalog := Some c'\<rparr>)))"

definition msp_SaveStreamCatalog :: "'x mysql_storage \<Rightarrow> 'x mysql_storage \<times> go_error option" where
  "msp_SaveStreamCatalog s =
     (case msp_catalog s of
        None \<Rightarrow> (s, Some nil_catalog)
      | Some c \<Rightarrow> (case cm_SaveStreamCatalog c of (c', err) \<Rightarrow> (s\<lparr>msp_catalog := Some c'\<rparr>, err)))"

definition msp_OnCreateStream ::
    "('x props \<Rightarrow> go_error + string) \<Rightarrow> sql_db \<Rightarrow> (uuid \<Rightarrow> string) \<Rightarrow> 'x stream_info \<Rightarrow> 'x mysql_storage \<Rightarrow>
       'x mysql_storage \<times> go_error option" where
  "msp_OnCreateStream mp db show_uuid info s =
     (case msp_catalog s of
        None \<Rightarrow> (s, Some nil_catalog)
      | Some c \<Rightarrow>
          (case cm_OnCreateStream mp db show_uuid c (si_UUID info) info of
             (c', Some e) \<Rightarrow> (s\<lparr>msp_catalog := Some c'\<rparr>, Some e)
           | (c', None) \<Rightarrow>
               (SetStreamIndex (si_UUID info) (new_index show_uuid (si_UUID info) s) (s\<lparr>msp_catalog := Some c'\<rparr>), None)))"

definition msp_NewStreamIteratorHandler ::
    "(uuid \<Rightarrow> string) \<Rightarrow> uuid \<Rightarrow> uuid \<Rightarrow> 'x mysql_storage \<Rightarrow> go_error + 'r mysql_handler" where
  "msp_NewStreamIteratorHandler show_uuid u itu s =
     (case GetStreamIndex s u of
        Inl e \<Rightarrow> Inl e
      | Inr idx \<Rightarrow> Inr (NewStreamIteratorHandlerMySQL u itu idx (mc_SchemaName (msp_config s))
          (getStreamTableName show_uuid s u) 100))"

definition msp_DeleteStream ::
    "sql_db \<Rightarrow> (uuid \<Rightarrow> string) \<Rightarrow> uuid \<Rightarrow> 'x mysql_storage \<Rightarrow> 'x mysql_storage \<times> go_error option" where
  "msp_DeleteStream db show_uuid u s =
     (let s1 = s\<lparr>msp_indexes := (msp_indexes s)(u := None)\<rparr> in
      case msp_catalog s1 of
        None \<Rightarrow> (s1, Some nil_catalog)
      | Some c \<Rightarrow>
          (case cm_OnDeleteStream db show_uuid c u of
             Inl e \<Rightarrow> (s1, Some e)
           | Inr c' \<Rightarrow> (s1\<lparr>msp_catalog := Some c'\<rparr>, None)))"

definition msp_NewStreamWriter :: "(uuid \<Rightarrow> string) \<Rightarrow> 'x stream_info \<Rightarrow> 'x mysql_storage \<Rightarrow> go_error + mysql_writer" where
  "msp_NewStreamWriter show_uuid info s =
     Inr (NewStreamWriterMySQL (mc_SchemaName (msp_config s)) (mc_CatalogTableName (msp_config s))
       (getStreamTableName show_uuid s (si_UUID info)) [])"

text \<open>\<open>as_value\<close> makes a value of the statistics, which the web server only prints.\<close>

definition msp_BuildIndex ::
    "sql_db \<Rightarrow> sql_queries \<Rightarrow> (uuid \<Rightarrow> string) \<Rightarrow> (mysql_index_stats \<Rightarrow> 'x iface) \<Rightarrow> uuid \<Rightarrow> 'x mysql_storage \<Rightarrow>
       'x mysql_storage \<times> (go_error + 'x iface)" where
  "msp_BuildIndex db Q show_uuid as_value u s =
     (case GetStreamIndex s u of
        Inl e \<Rightarrow> (s, Inl e)
      | Inr idx \<Rightarrow>
          (case msp_catalog s of
             None \<Rightarrow> (s, Inl nil_catalog)
           | Some c \<Rightarrow>
               (case mx_BuildIndex db Q show_uuid idx (cm_pool c) of
                  (log, r) \<Rightarrow> (s\<lparr>msp_catalog := Some (c\<lparr>cm_pool := log\<rparr>)\<rparr>,
                     case r of Inl e \<Rightarrow> Inl e | Inr stats \<Rightarrow> Inr (as_value stats)))))"

section \<open>The provider behind the service\<close>

text \<open>Everything outside the program that the provider talks to.\<close>

record ('x, 'u) mysql_env =
  me_db :: sql_db
  me_queries :: sql_queries
  me_names :: "string \<Rightarrow> string scanned_row"
  me_catalog :: "string \<Rightarrow> go_error + (go_error + catalog_row) list"
  me_marshal :: "'x props \<Rightarrow> go_error + string"
  me_unmarshal :: "string \<Rightarrow> go_error + 'x props"
  me_show_uuid :: "uuid \<Rightarrow> string"
  me_url :: "'u url_lib"
  me_open :: "string \<Rightarrow> go_error option"
  me_ping :: "string \<Rightarrow> go_error option"
  me_close :: "go_error option"
  me_stats :: "mysql_index_stats \<Rightarrow> 'x iface"

definition my_provider_ops ::
    "('x, 'u) mysql_env \<Rightarrow> ('x, 'x mysql_storage, mysql_writer, 'r mysql_handler) provider_ops" where
  "my_provider_ops E = \<lparr>
     po_Init = msp_Init (me_url E) (me_open E) (me_ping E) (me_db E) (me_names E), po_Stop = msp_Stop (me_close E),
     po_GenerateNewStreamUuid = msp_GenerateNewStreamUuid, po_StreamExists = msp_StreamExists,
     po_SaveStreamCatalog = msp_SaveStreamCatalog,
     po_LoadStreams = msp_LoadStreams (me_show_uuid E) (me_catalog E) (me_unmarshal E),
     po_OnCreateStream = msp_OnCreateStream (me_marshal E) (me_db E) (me_show_uuid E),
     po_GetStreamInfo = (\<lambda>u s. msp_GetStreamInfo s u),
     po_BuildIndex = msp_BuildIndex (me_db E) (me_queries E) (me_show_uuid E) (me_stats E),
     po_NewStreamIteratorHandler = msp_NewStreamIteratorHandler (me_show_uuid E),
     po_NewStreamWriter = msp_NewStreamWriter (me_show_uuid E),
     po_DeleteStream = msp_DeleteStream (me_db E) (me_show_uuid E)\<rparr>"

definition my_writer_ops :: "('x deferred \<Rightarrow> go_error + string) \<Rightarrow> sql_db \<Rightarrow> ('x, mysql_writer) writer_ops" where
  "my_writer_ops mj db = \<lparr>wo_Init = mw_Init, wo_Open = mw_Open, wo_Close = mw_Close, wo_Write = mysql_Write mj db\<rparr>"

lemma my_po_sel:
  "po_StreamExists (my_provider_ops E) = msp_StreamExists"
  "po_OnCreateStream (my_provider_ops E) = msp_OnCreateStream (me_marshal E) (me_db E) (me_show_uuid E)"
  "po_DeleteStream (my_provider_ops E) = msp_DeleteStream (me_db E) (me_show_uuid E)"
  "po_SaveStreamCatalog (my_provider_ops E) = msp_SaveStreamCatalog"
  "po_BuildIndex (my_provider_ops E) = msp_BuildIndex (me_db E) (me_queries E) (me_show_uuid E) (me_stats E)"
  "po_GenerateNewStreamUuid (my_provider_ops E) = msp_GenerateNewStreamUuid"
  by (simp_all add: my_provider_ops_def)

lemma cm_exec_find [simp]: "cm_find (fst (cm_exec db call c)) = cm_find c" "cm_streams (fst (cm_exec db call c)) = cm_streams c"
  by (auto simp: cm_exec_def cm_find_def split: prod.splits)

lemma cm_find_pool [simp]: "cm_find (c\<lparr>cm_pool := log\<rparr>) = cm_find c"
  by (simp add: cm_find_def fun_eq_iff)

lemma cm_exec_streams: "cm_exec db call c = (c', err) \<Longrightarrow> cm_streams c' = cm_streams c"
  by (auto simp: cm_exec_def split: prod.splits)

lemma cm_OnCreateStream_cases:
  "cm_OnCreateStream mp db show_uuid c u info = (c', err) \<Longrightarrow>
     if err = None then \<exists>m. cm_streams c = Some m \<and> cm_streams c' = Some (m(u \<mapsto> info))
     else cm_streams c' = cm_streams c"
  by (auto simp: cm_OnCreateStream_def roll_back_def
      split: option.splits prod.splits sum.splits dest!: cm_exec_streams)

lemma cm_OnCreateStream_streams:
  "cm_OnCreateStream mp db show_uuid c u info = (c', err) \<Longrightarrow>
     cm_find c' = (if err = None then (cm_find c)(u \<mapsto> info) else cm_find c)"
  by (drule cm_OnCreateStream_cases) (auto simp: cm_find_def fun_eq_iff split: if_splits)

lemma cm_OnDeleteStream_streams:
  "cm_OnDeleteStream db show_uuid c u = Inr c' \<Longrightarrow> cm_find c' = (cm_find c)(u := None)"
  by (auto simp: cm_OnDeleteStream_def cm_find_def Let_def fun_eq_iff
      split: option.splits prod.splits dest!: cm_exec_streams)

text \<open>The catalog of the code as the catalog of the contract.\<close>

interpretation my_cat: stream_catalog cm_find
    "\<lambda>c u info. case cm_OnCreateStream mp db show_uuid c u info of (c', None) \<Rightarrow> Inr c' | (c', Some e) \<Rightarrow> Inl e"
    "cm_OnDeleteStream db show_uuid" cm_StreamExists cm_GetStreamInfo
  for mp :: "'x props \<Rightarrow> go_error + string" and db show_uuid
proof unfold_locales
  show "cm_find c' = (cm_find c)(u \<mapsto> p)"
    if "(case cm_OnCreateStream mp db show_uuid c u p of (c', None) \<Rightarrow> Inr c' | (c', Some e) \<Rightarrow> Inl e) = Inr c'"
    for c c' :: "'x mysql_catalog" and u p
    using that by (auto split: prod.splits option.splits dest!: cm_OnCreateStream_streams)
qed (auto simp: cm_StreamExists_def cm_GetStreamInfo_def cm_OnDeleteStream_streams split: option.splits)

lemma msp_StreamExists_find:
  "msp_StreamExists s u \<longleftrightarrow> (\<exists>c. msp_catalog s = Some c \<and> cm_find c u \<noteq> None)"
  by (auto simp: msp_StreamExists_def cm_StreamExists_def split: option.splits)

interpretation my_provider: storage_provider "my_provider_ops E :: ('x, 'x mysql_storage, mysql_writer, 'r mysql_handler) provider_ops"
  for E :: "('x, 'u) mysql_env"
proof unfold_locales
  let ?P = "my_provider_ops E :: ('x, 'x mysql_storage, mysql_writer, 'r mysql_handler) provider_ops"
  fix p p' :: "'x mysql_storage" and u v
  show "po_StreamExists ?P p' u \<longleftrightarrow> u = si_UUID i \<or> po_StreamExists ?P p u"
    if "po_OnCreateStream ?P i p = (p', None)" for i
    using that by (auto simp: my_po_sel msp_OnCreateStream_def msp_StreamExists_find SetStreamIndex_def
        split: option.splits prod.splits dest!: cm_OnCreateStream_streams)
  show "po_StreamExists ?P p' u"
    if "po_OnCreateStream ?P i p = (p', err)" "po_StreamExists ?P p u" for i err
    using that by (auto simp: my_po_sel msp_OnCreateStream_def msp_StreamExists_find SetStreamIndex_def
        split: option.splits prod.splits if_splits dest!: cm_OnCreateStream_streams)
  show "po_StreamExists ?P p' u \<longleftrightarrow> u \<noteq> v \<and> po_StreamExists ?P p u"
    if "po_DeleteStream ?P v p = (p', None)"
    using that by (auto simp: my_po_sel msp_DeleteStream_def msp_StreamExists_find Let_def
        split: option.splits sum.splits if_splits dest!: cm_OnDeleteStream_streams)
  show "po_StreamExists ?P p' u = po_StreamExists ?P p u" if "po_DeleteStream ?P v p = (p', Some e)" for e
    using that by (auto simp: my_po_sel msp_DeleteStream_def msp_StreamExists_find Let_def
        split: option.splits sum.splits)
  show "po_StreamExists ?P p' u = po_StreamExists ?P p u" if "po_SaveStreamCatalog ?P p = (p', err)" for err
    using that by (auto simp: my_po_sel msp_SaveStreamCatalog_def cm_SaveStreamCatalog_def msp_StreamExists_find
        split: option.splits)
  show "po_StreamExists ?P p' u = po_StreamExists ?P p u" if "po_BuildIndex ?P v p = (p', r)" for r
    using that by (auto simp: my_po_sel msp_BuildIndex_def msp_StreamExists_find
        split: option.splits sum.splits prod.splits)
  show "\<not> po_StreamExists ?P p u" if "po_GenerateNewStreamUuid ?P p ds = Some u" for ds
    using that fresh_uuid_free by (auto simp: my_po_sel msp_GenerateNewStreamUuid_def)
qed

interpretation my_service: stream_service "my_provider_ops E :: ('x, 'x mysql_storage, mysql_writer, 'r mysql_handler) provider_ops"
    "my_writer_ops mj db" "my_holds mj" "json_size mj"
  for E :: "('x, 'u) mysql_env" and mj :: "'x deferred \<Rightarrow> go_error + string" and db
  by (intro stream_service.intro my_provider.storage_provider_axioms)
    (simp add: my_writer_ops_def my_writer.closable_writer_axioms)

section \<open>The row of a stream in the catalog\<close>

text \<open>
  Documented of MySQL: what the update that the writer makes leaves in the stream's row. A \<^verbatim>\<open>BIGINT\<close> is
  scanned as an \<^verbatim>\<open>int64\<close>, a \<^verbatim>\<open>TIMESTAMP\<close> keeps whole seconds.
\<close>

definition row_after_update :: "catalog_row \<Rightarrow> sql_arg list \<Rightarrow> catalog_row" where
  "row_after_update r args =
     (case args of
        [ANum cpt, ANum bytes, ANum first, ANum lst, ADate firstTime, ADate lastTime, AUuid u] \<Rightarrow>
          if u = cr_UUID r
          then r\<lparr>cr_CptMessages := cpt, cr_SizeInBytes := bytes, cr_firstMsgId := Some (sint first),
                 cr_lastMsgId := Some (sint lst), cr_firstMsgTimestamp := Some (Unix firstTime * 1000000000),
                 cr_lastMsgTimestamp := Some (Unix lastTime * 1000000000)\<rparr>
          else r
      | _ \<Rightarrow> r)"

lemma mysql_Write_update:
  assumes "mysql_Write mj db (i, w) rs = ((i', w'), None)" and "rs \<noteq> []"
  shows "\<exists>log args. mw_log w' = log @ [(Tx_Exec (update_query w) args, None), (Commit, None)] \<and>
     (\<exists>first firstTime. args = [ANum (CptMessages (ReadableMessages i')), ANum (SizeInBytes (ReadableMessages i')),
        ANum first, ANum (dr_Id (last rs)), ADate firstTime, ADate (dr_CreationDate (last rs)), AUuid (si_UUID i)]) \<and>
     LastMsgId (ReadableMessages i') = dr_Id (last rs)"
  using assms
  by (auto simp: mysql_Write_def mw_SaveMetaInfo_def sql_def Let_def count_batch_def first_readable_sum
      split: option.splits prod.splits sum.splits)

section \<open>Properties\<close>

text \<open>
  Documented of MySQL: a name that is not quoted consists of letters, digits, underscores and dollar signs,
  so a statement with a dash in the name of its table is rejected.
\<close>

definition rejects_dashes :: "sql_db \<Rightarrow> sql_queries \<Rightarrow> bool" where
  "rejects_dashes db Q \<longleftrightarrow> (\<forall>t rest args log. CHR ''-'' \<in> set t \<and> CHR '' '' \<notin> set t \<longrightarrow>
     (\<exists>e. qr_id Q (''SELECT `id` FROM '' @ t @ CHR '' '' # rest) args = Scan_Error e) \<and>
     (\<exists>e. qr_number Q (''SELECT EXISTS(SELECT 1 FROM '' @ t @ CHR '' '' # rest) args = Scan_Error e) \<and>
     (\<exists>e. db log (Exec (''OPTIMIZE TABLE '' @ t) []) = Some e) \<and>
     (\<exists>e. db log (Exec (''DROP TABLE '' @ t) []) = Some e))"

text \<open>A UUID prints with dashes and without spaces.\<close>

definition uuid_text :: "(uuid \<Rightarrow> string) \<Rightarrow> bool" where
  "uuid_text show_uuid \<longleftrightarrow> (\<forall>u. CHR ''-'' \<in> set (show_uuid u) \<and> CHR '' '' \<notin> set (show_uuid u))"

lemma is_name_plain: "is_name s \<Longrightarrow> CHR '' '' \<notin> set s \<and> CHR ''-'' \<notin> set s"
proof -
  have "\<not> is_name_char (CHR '' '')" "\<not> is_name_char (CHR ''-'')" by (simp_all add: is_name_char_def)
  then show "is_name s \<Longrightarrow> CHR '' '' \<notin> set s \<and> CHR ''-'' \<notin> set s"
    unfolding is_name_def list_all_iff by blast
qed

lemma NewMySQLConfig_names:
  "NewMySQLConfig getenv conf = Inr cfg \<Longrightarrow>
     is_name (mc_SchemaName cfg) \<and> is_name (mc_CatalogTableName cfg) \<and> is_name (mc_StreamTablePrefix cfg)"
  by (auto simp: NewMySQLConfig_def CheckMySQLConfiguration_def Let_def split: if_splits)

lemma underscored_no_dash: "CHR ''-'' \<notin> set (underscored s)"
  by (auto simp: underscored_def)




section \<open>Instances\<close>

text \<open>A database that rejects dashes, and a service with one running stream over it.\<close>

definition sample_dash_db :: sql_db where
  "sample_dash_db log c = (case c of Exec q args \<Rightarrow> if CHR ''-'' \<in> set q then Some (Error ''syntax'') else None | _ \<Rightarrow> None)"

definition sample_dash_queries :: sql_queries where
  "sample_dash_queries = \<lparr>
     qr_number = \<lambda>q args. if CHR ''-'' \<in> set q then Scan_Error (Error ''syntax'') else No_Rows,
     qr_id = \<lambda>q args. if CHR ''-'' \<in> set q then Scan_Error (Error ''syntax'') else No_Rows,
     qr_id_date = \<lambda>q args. No_Rows, qr_rows = \<lambda>q args. Inr []\<rparr>"

lemma sample_rejects: "rejects_dashes sample_dash_db sample_dash_queries"
  by (simp add: rejects_dashes_def sample_dash_db_def sample_dash_queries_def)

definition sample_show_uuid :: "uuid \<Rightarrow> string" where
  "sample_show_uuid u = ''a-b''"

lemma sample_uuid_text: "uuid_text sample_show_uuid"
  by (simp add: uuid_text_def sample_show_uuid_def)

definition sample_mysql_conf :: mysql_conf where
  "sample_mysql_conf = \<lparr>my_DataSourceName = ''dsn'', my_SchemaName = [], my_CatalogTableName = [],
     my_StreamTablePrefix = [], my_ConnMaxLifetime = 0, my_MaxIdleConns = 1, my_MaxOpenConns = 1\<rparr>"

definition sample_mysql_config :: mysql_config where
  "sample_mysql_config = \<lparr>mc_Dsn = ''dsn'', mc_SchemaName = ''ministream'', mc_CatalogTableName = ''streams'',
     mc_StreamTablePrefix = ''stream_'', mc_ConnMaxLifetime = 0, mc_MaxIdleConns = 1, mc_MaxOpenConns = 1\<rparr>"

lemma sample_config: "NewMySQLConfig (\<lambda>_. []) sample_mysql_conf = Inr sample_mysql_config"
  by (simp add: NewMySQLConfig_def CheckMySQLConfiguration_def sample_mysql_conf_def sample_mysql_config_def or_default_def
      is_name_def is_name_char_def Let_def)

definition sample_mysql_storage :: "nat mysql_storage" where
  "sample_mysql_storage = \<lparr>msp_config = sample_mysql_config, msp_opened = True,
     msp_catalog = Some ((NewStreamCatalogMySQL [] ''ministream'' ''streams'' ''stream_'')
       \<lparr>cm_streams := Some [7 \<mapsto> NewStreamInfo 0 7]\<rparr>), msp_indexes = Map.empty\<rparr>"


definition sample_env :: "(nat, nat) mysql_env" where
  "sample_env = \<lparr>me_db = sample_dash_db, me_queries = sample_dash_queries, me_names = \<lambda>_. No_Rows,
     me_catalog = \<lambda>_. Inr [], me_marshal = \<lambda>_. Inr ''{}'', me_unmarshal = \<lambda>_. Inr (Some Map.empty),
     me_show_uuid = sample_show_uuid, me_url = \<lparr>ul_Parse = \<lambda>s. Inr 0, ul_Set = \<lambda>k v u. u, ul_String = \<lambda>u. ''dsn''\<rparr>,
     me_open = \<lambda>_. None, me_ping = \<lambda>_. None, me_close = None, me_stats = \<lambda>_. INil\<rparr>"

definition sample_mysql_stream :: "(nat, mysql_writer, nat mysql_handler, nat) svc_stream" where
  "sample_mysql_stream = setState STREAM_STATE_RUNNING (NewStream (NewStreamInfo 0 7)
     \<lparr>ib_bulkFlushFrequency = 0, ib_bulkMaxSize = 1, ib_channelSize = 1, ib_channelMsg = [], ib_msgBuffer = [],
      ib_writer = sample_mysql_writer\<rparr>)"

definition sample_mysql_service :: "(nat, nat mysql_storage, mysql_writer, nat mysql_handler, nat) service" where
  "sample_mysql_service = \<lparr>sv_Hashmap = [7 \<mapsto> sample_mysql_stream], sv_sp = sample_mysql_storage, sv_conf = sample_conf\<rparr>"



end
