(* ===== verification/Auth.thy ===== *)
theory Auth
  imports Bytes
begin

text \<open>
  Authentication of users (auth/pbkdf2.go, auth.go, authfile.go, authhttp.go): hashed passwords and
  their text form, the credentials loaded from a file or over HTTP, and the manager that dispatches
  to the configured method.
\<close>

section \<open>Decimal and hexadecimal text\<close>

definition is_digit :: "char \<Rightarrow> bool" where
  "is_digit c \<longleftrightarrow> 48 \<le> (of_char c :: nat) \<and> (of_char c :: nat) \<le> 57"

fun dec :: "nat \<Rightarrow> string" where
  "dec n = (if n < 10 then [char_of (48 + n)] else dec (n div 10) @ [char_of (48 + n mod 10)])"

declare dec.simps [simp del]

text \<open>The verb \<^verbatim>\<open>%d\<close> on an \<^verbatim>\<open>int\<close>, and \<^verbatim>\<open>strconv.Atoi\<close> on a text of digits.\<close>

definition print_int :: "int \<Rightarrow> string" where
  "print_int i = (if i < 0 then CHR ''-'' # dec (nat (- i)) else dec (nat i))"

definition digits_value :: "string \<Rightarrow> nat" where
  "digits_value s = foldl (\<lambda>n c. 10 * n + (of_char c - 48)) 0 s"

definition Atoi :: "string \<Rightarrow> go_error + int" where
  "Atoi s = (if digits_value s < 2 ^ 63 then Inr (int (digits_value s)) else Inl (Error ''value out of range''))"

lemma of_char_digit: "n < 10 \<Longrightarrow> (of_char (char_of (48 + n :: nat) :: char) :: nat) = 48 + n"
  by simp

lemma dec_digits: "list_all is_digit (dec n) \<and> dec n \<noteq> []"
proof (induction n rule: dec.induct)
  case (1 n)
  show ?case
  proof (cases "n < 10")
    case True
    then show ?thesis by (simp add: dec.simps [of n] is_digit_def)
  next
    case False
    have m: "n mod 10 < 10" by simp
    from 1 [OF False] m of_char_digit [OF m] False show ?thesis
      by (simp add: dec.simps [of n] is_digit_def)
  qed
qed

lemma digits_value_dec: "digits_value (dec n) = n"
proof (induction n rule: dec.induct)
  case (1 n)
  show ?case
  proof (cases "n < 10")
    case True
    then show ?thesis by (subst dec.simps) (simp add: digits_value_def)
  next
    case False
    have m: "n mod 10 < 10" by simp
    from 1 [OF False] False of_char_digit [OF m] show ?thesis
      by (subst dec.simps) (simp add: digits_value_def)
  qed
qed

lemma Atoi_dec: "0 \<le> i \<Longrightarrow> i < 2 ^ 63 \<Longrightarrow> Atoi (dec (nat i)) = Inr i"
  by (simp add: Atoi_def digits_value_dec nat_less_iff)

text \<open>The verb \<^verbatim>\<open>%x\<close> on a byte slice.\<close>

definition hex_digit :: "nat \<Rightarrow> char" where
  "hex_digit n = (if n < 10 then char_of (48 + n) else char_of (87 + n))"

definition print_hex :: "bytes \<Rightarrow> string" where
  "print_hex bs = concat (map (\<lambda>b. [hex_digit (unat b div 16), hex_digit (unat b mod 16)]) bs)"

section \<open>Hashed passwords (pbkdf2.go)\<close>

record pbkdf2 =
  pk_digestId :: int
  pk_digest :: string
  pk_iterations :: int
  pk_salt :: string
  pk_hash :: string

definition AuthHashMethodNone :: int where "AuthHashMethodNone = 0"
definition AuthHashMethodMD5 :: int where "AuthHashMethodMD5 = 1"
definition AuthHashMethodSHA256 :: int where "AuthHashMethodSHA256 = 2"
definition AuthHashMethodSHA512 :: int where "AuthHashMethodSHA512 = 3"
definition AuthHashMethodSHA1 :: int where "AuthHashMethodSHA1 = 4"

lemmas auth_methods = AuthHashMethodNone_def AuthHashMethodMD5_def AuthHashMethodSHA256_def
  AuthHashMethodSHA512_def AuthHashMethodSHA1_def

text \<open>
  The hash functions of the standard library are named; \<open>kdf h password salt iterations keylen\<close> is
  \<^verbatim>\<open>pbkdf2.Key\<close> with that function.
\<close>

datatype hash_fn = MD5 | SHA1 | SHA256 | SHA512

type_synonym key_fn = "hash_fn \<Rightarrow> string \<Rightarrow> string \<Rightarrow> int \<Rightarrow> nat \<Rightarrow> bytes"

definition Pbkdf2_Hash :: "key_fn \<Rightarrow> pbkdf2 \<Rightarrow> string \<Rightarrow> go_error + string" where
  "Pbkdf2_Hash kdf p password =
     (let key = (\<lambda>h len. Inr (print_hex (kdf h password (pk_salt p) (pk_iterations p) len))) in
      if pk_digestId p = AuthHashMethodSHA256 then key SHA256 32
      else if pk_digestId p = AuthHashMethodSHA512 then key SHA512 64
      else if pk_digestId p = AuthHashMethodSHA1 then key SHA1 20
      else if pk_digestId p = AuthHashMethodMD5 then key MD5 16
      else if pk_digestId p = AuthHashMethodNone then Inr password
      else Inl (Error (''not implemented hash method: '' @ pk_digest p)))"

definition Verify :: "key_fn \<Rightarrow> pbkdf2 \<Rightarrow> string \<Rightarrow> go_error + bool" where
  "Verify kdf p password =
     (case Pbkdf2_Hash kdf p password of
        Inl e \<Rightarrow> Inl e
      | Inr hashedPassword \<Rightarrow> Inr (hashedPassword = pk_hash p))"

definition ToString :: "pbkdf2 \<Rightarrow> string" where
  "ToString p = ''$pbkdf2-'' @ pk_digest p @ ''$i='' @ print_int (pk_iterations p) @ ''$'' @ pk_salt p @
     ''$'' @ pk_hash p"

definition DigestToAuthMethod :: "string \<Rightarrow> go_error + int" where
  "DigestToAuthMethod digest =
     (if digest = ''md5'' then Inr AuthHashMethodMD5
      else if digest = ''sha256'' then Inr AuthHashMethodSHA256
      else if digest = ''sha512'' then Inr AuthHashMethodSHA512
      else Inl (Error (''unknown auth digest method: '' @ digest)))"

definition DigestToHashMethod :: "string \<Rightarrow> go_error + int \<times> nat \<times> hash_fn" where
  "DigestToHashMethod digest =
     (if digest = ''sha256'' then Inr (AuthHashMethodSHA256, 32, SHA256)
      else if digest = ''sha512'' then Inr (AuthHashMethodSHA512, 64, SHA512)
      else if digest = ''sha1'' then Inr (AuthHashMethodSHA1, 20, SHA1)
      else if digest = ''md5'' then Inr (AuthHashMethodMD5, 16, MD5)
      else Inl (Error (''not implemented hash method: '' @ digest)))"

definition HashPassword :: "key_fn \<Rightarrow> string \<Rightarrow> int \<Rightarrow> string \<Rightarrow> string \<Rightarrow> go_error + string" where
  "HashPassword kdf digest iterations salt password =
     (case DigestToHashMethod digest of
        Inl e \<Rightarrow> Inl e
      | Inr (digestId, keylen, h) \<Rightarrow>
          Inr (ToString \<lparr>pk_digestId = digestId, pk_digest = digest, pk_iterations = iterations,
            pk_salt = salt, pk_hash = print_hex (kdf h password salt iterations keylen)\<rparr>))"

text \<open>
  The regular expression \<^verbatim>\<open>^\$pbkdf2-([^$]+)\$i=(\d+)\$([^$]+)\$([^\r\n\t ]+)\<close>. Each repetition is
  followed by a character it cannot match, so it takes the longest run of its characters; the
  last one ends the match wherever its run ends.
\<close>

definition strip :: "string \<Rightarrow> string \<Rightarrow> string option" where
  "strip p s = (if take (length p) s = p then Some (drop (length p) s) else None)"

definition run_of :: "(char \<Rightarrow> bool) \<Rightarrow> string \<Rightarrow> (string \<times> string) option" where
  "run_of ok s = (if takeWhile ok s = [] then None else Some (takeWhile ok s, dropWhile ok s))"

definition not_dollar :: "char \<Rightarrow> bool" where
  "not_dollar c \<longleftrightarrow> c \<noteq> CHR ''$''"

definition not_space :: "char \<Rightarrow> bool" where
  "not_space c \<longleftrightarrow> c \<notin> {CHR 0x0D, CHR 0x0A, CHR 0x09, CHR '' ''}"

definition FindStringSubmatch :: "string \<Rightarrow> (string \<times> string \<times> string \<times> string) option" where
  "FindStringSubmatch s =
     Option.bind (strip ''$pbkdf2-'' s) (\<lambda>s1.
     Option.bind (run_of not_dollar s1) (\<lambda>(digest, s2).
     Option.bind (strip ''$i='' s2) (\<lambda>s3.
     Option.bind (run_of is_digit s3) (\<lambda>(iterations, s4).
     Option.bind (strip ''$'' s4) (\<lambda>s5.
     Option.bind (run_of not_dollar s5) (\<lambda>(salt, s6).
     Option.bind (strip ''$'' s6) (\<lambda>s7.
     Option.bind (run_of not_space s7) (\<lambda>(hash, _). Some (digest, iterations, salt, hash)))))))))"

definition HashedPasswordToPbkdf2 :: "string \<Rightarrow> go_error + pbkdf2" where
  "HashedPasswordToPbkdf2 hash =
     (if hash = [] then Inl (Error ''empty hash'')
      else case FindStringSubmatch hash of
        None \<Rightarrow> Inl (Error (''invalid hash: '' @ hash))
      | Some (digest, its, salt, h) \<Rightarrow>
          (case DigestToAuthMethod digest of
             Inl e \<Rightarrow> Inl e
           | Inr digestId \<Rightarrow>
               (case Atoi its of
                  Inl e \<Rightarrow> Inl (Error (''invalid iterations: '' @ its))
                | Inr iterations \<Rightarrow> Inr \<lparr>pk_digestId = digestId, pk_digest = digest,
                    pk_iterations = iterations, pk_salt = salt, pk_hash = h\<rparr>)))"

section \<open>Lemmas\<close>

lemma strip_self [simp]: "strip p (p @ s) = Some s"
  by (simp add: strip_def)

lemma run_of_stop: "list_all ok xs \<Longrightarrow> xs \<noteq> [] \<Longrightarrow> \<not> ok c \<Longrightarrow> run_of ok (xs @ c # s) = Some (xs, c # s)"
  by (simp add: run_of_def takeWhile_append dropWhile_append list_all_iff)

lemma run_of_end:
  assumes "list_all ok xs" and "xs \<noteq> []"
  shows "run_of ok xs = Some (xs, [])"
proof -
  have t: "takeWhile ok xs = xs" "dropWhile ok xs = []"
    using assms by (simp_all add: takeWhile_eq_all_conv dropWhile_eq_Nil_conv list_all_iff)
  show ?thesis unfolding run_of_def t using assms(2) by simp
qed

lemma hex_digit_ok: "n < 16 \<Longrightarrow> not_space (hex_digit n)"
proof -
  have "list_all (\<lambda>n. not_space (hex_digit n)) [0..<16]" by code_simp
  then show "n < 16 \<Longrightarrow> not_space (hex_digit n)" by (simp add: list_all_iff)
qed

lemma print_hex_ok: "list_all not_space (print_hex bs)"
proof (induction bs)
  case (Cons b bs)
  have "unat b < 256" using unsigned_less [where ?'a = nat, of b] by simp
  then have "unat b div 16 < 16" "unat b mod 16 < 16" by simp_all
  with Cons hex_digit_ok show ?case by (simp add: print_hex_def)
qed (simp add: print_hex_def)

lemma print_hex_empty: "print_hex bs = [] \<longleftrightarrow> bs = []"
  by (cases bs) (simp_all add: print_hex_def)

text \<open>Parsing what \<^verbatim>\<open>ToString\<close> prints.\<close>

lemma FindStringSubmatch_ToString:
  assumes "list_all not_dollar d" "d \<noteq> []" "0 \<le> i" "list_all not_dollar salt" "salt \<noteq> []"
    and "list_all not_space h" "h \<noteq> []"
  shows "FindStringSubmatch (ToString \<lparr>pk_digestId = k, pk_digest = d, pk_iterations = i, pk_salt = salt,
      pk_hash = h\<rparr>) = Some (d, dec (nat i), salt, h)"
proof -
  have nd: "\<not> not_dollar CHR ''$''" "\<not> is_digit CHR ''$''" by (simp_all add: not_dollar_def is_digit_def)
  have str: "ToString \<lparr>pk_digestId = k, pk_digest = d, pk_iterations = i, pk_salt = salt, pk_hash = h\<rparr> =
      ''$pbkdf2-'' @ (d @ CHR ''$'' # ''i='' @ (dec (nat i) @ CHR ''$'' # (salt @ CHR ''$'' # h)))"
    using assms(3) by (simp add: ToString_def print_int_def)
  have i1: "strip ''$i='' (CHR ''$'' # ''i='' @ s) = Some s" for s by (simp add: strip_def)
  have i2: "strip ''$'' (CHR ''$'' # s) = Some s" for s by (simp add: strip_def)
  show ?thesis
    unfolding FindStringSubmatch_def str
    by (simp only: bind.bind_lunit split_def fst_conv snd_conv strip_self i1 i2
        run_of_stop [OF assms(1,2) nd(1)] run_of_stop [OF conjunct1 [OF dec_digits] conjunct2 [OF dec_digits] nd(2)]
        run_of_stop [OF assms(4,5) nd(1)] run_of_end [OF assms(6,7)])
qed

lemma parse_ToString:
  assumes "DigestToAuthMethod d = Inr k" and "0 \<le> i" and "i < 2 ^ 63" and "salt \<noteq> []" and "CHR ''$'' \<notin> set salt"
    and "list_all not_space h" and "h \<noteq> []"
  shows "HashedPasswordToPbkdf2 (ToString \<lparr>pk_digestId = k, pk_digest = d, pk_iterations = i, pk_salt = salt,
      pk_hash = h\<rparr>) = Inr \<lparr>pk_digestId = k, pk_digest = d, pk_iterations = i, pk_salt = salt, pk_hash = h\<rparr>"
proof -
  have "list_all not_dollar d" "d \<noteq> []"
    using assms(1) by (auto simp: DigestToAuthMethod_def not_dollar_def split: if_splits)
  moreover have "list_all not_dollar salt" using assms(5) by (auto simp: not_dollar_def list_all_iff)
  ultimately have "FindStringSubmatch (ToString \<lparr>pk_digestId = k, pk_digest = d, pk_iterations = i, pk_salt = salt,
      pk_hash = h\<rparr>) = Some (d, dec (nat i), salt, h)"
    using assms(2,4,6,7) by (intro FindStringSubmatch_ToString)
  moreover have "ToString \<lparr>pk_digestId = k, pk_digest = d, pk_iterations = i, pk_salt = salt, pk_hash = h\<rparr> \<noteq> []"
    by (simp add: ToString_def)
  ultimately show ?thesis using assms(1-3) by (simp add: HashedPasswordToPbkdf2_def Atoi_dec)
qed

section \<open>Credentials from a file (authfile.go)\<close>

text \<open>The part \<^verbatim>\<open>Auth\<close> of the configuration.\<close>

record auth_config =
  ac_Enable :: bool
  ac_Method :: string
  ac_Filename :: string
  ac_Url :: string
  ac_ProxyUrl :: string
  ac_AuthToken :: string
  ac_Timeout :: int
  ac_CacheDurationInSec :: int

text \<open>The map of credentials is nil (\<open>None\<close>) until it is loaded.\<close>

type_synonym creds = "(string \<rightharpoonup> pbkdf2) option"

record auth_file =
  af_filename :: string
  af_creds :: creds

definition find_creds :: "creds \<Rightarrow> string \<Rightarrow> pbkdf2 option" where
  "find_creds m u = (case m of None \<Rightarrow> None | Some c \<Rightarrow> c u)"

text \<open>The loop that parses the hashes; \<open>ks\<close> is the order in which it visits the decoded map. It stops
  at the first error and keeps what it had.\<close>

fun load_creds :: "(string \<rightharpoonup> string) \<Rightarrow> (string \<rightharpoonup> pbkdf2) \<Rightarrow> string list \<Rightarrow>
    (string \<rightharpoonup> pbkdf2) \<times> go_error option" where
  "load_creds strCreds m [] = (m, None)"
| "load_creds strCreds m (k # ks) =
     (case strCreds k of
        None \<Rightarrow> load_creds strCreds m ks
      | Some hash \<Rightarrow>
          (case HashedPasswordToPbkdf2 hash of
             Inl e \<Rightarrow> (m, Some e)
           | Inr p \<Rightarrow> load_creds strCreds (m(k \<mapsto> p)) ks))"

text \<open>\<open>read f\<close> is the content of the file \<open>f\<close> or its error, \<open>dj\<close> the JSON decoder, \<open>ord\<close> the order of a map.\<close>

record auth_env =
  en_read :: "string \<Rightarrow> string option"
  en_decode :: "string \<Rightarrow> go_error + (string \<rightharpoonup> string)"
  en_order :: "(string \<rightharpoonup> string) \<Rightarrow> string list"
  en_parse_url :: "string \<Rightarrow> go_error option"
  en_fetch :: "string \<Rightarrow> string option \<Rightarrow> string \<Rightarrow> int \<Rightarrow> go_error + int \<times> string"

definition LoadCredentialsFromFile :: "auth_env \<Rightarrow> string \<Rightarrow> auth_file \<Rightarrow> auth_file \<times> go_error option" where
  "LoadCredentialsFromFile env filename m =
     (if filename = [] then (m\<lparr>af_creds := Some Map.empty\<rparr>, None)
      else case en_read env filename of
        None \<Rightarrow> (m, Some (Error (''can't open credential file: '' @ filename)))
      | Some text \<Rightarrow>
          (case en_decode env text of
             Inl e \<Rightarrow> (m, Some e)
           | Inr strCreds \<Rightarrow>
               (case load_creds strCreds Map.empty (en_order env strCreds) of
                  (c, err) \<Rightarrow> (m\<lparr>af_creds := Some c\<rparr>, err))))"

definition file_Initialize :: "auth_env \<Rightarrow> auth_config \<Rightarrow> auth_file \<Rightarrow> auth_file \<times> go_error option" where
  "file_Initialize env c m =
     (if ac_Filename c = [] \<and> ac_Method c = ''FILE'' \<and> ac_Enable c then (m, Some (Error ''filename is empty''))
      else LoadCredentialsFromFile env (ac_Filename c) (m\<lparr>af_filename := ac_Filename c\<rparr>))"

definition file_AuthenticateUser :: "key_fn \<Rightarrow> auth_file \<Rightarrow> string \<Rightarrow> string \<Rightarrow> go_error + bool" where
  "file_AuthenticateUser kdf m userId password =
     (case find_creds (af_creds m) userId of
        Some p \<Rightarrow> Verify kdf p password
      | None \<Rightarrow> Inl (Error (''user id not found: '' @ userId)))"

section \<open>Credentials over HTTP (authhttp.go)\<close>

record auth_http =
  ah_url :: string
  ah_proxyUrl :: "string option"
  ah_authToken :: string
  ah_cacheDurationInSec :: int
  ah_timeoutInSec :: int
  ah_cacheExpiresAt :: int
  ah_creds :: creds

text \<open>
  A client without a proxy gets a nil pointer of type \<^verbatim>\<open>*http.Transport\<close> as its transport. The
  interface that holds it is not nil, so the client uses it instead of the default one, and its
  method \<^verbatim>\<open>RoundTrip\<close> dereferences it. \<open>now\<close> is the clock.
\<close>

definition LoadCredentialsFromHTTP :: "auth_env \<Rightarrow> time \<Rightarrow> auth_http \<Rightarrow> auth_http \<times> go_error option" where
  "LoadCredentialsFromHTTP env now m =
     (case en_parse_url env (ah_url m) of
        Some e \<Rightarrow> (m, Some e)
      | None \<Rightarrow>
          (case ah_proxyUrl m of
             None \<Rightarrow> (m, Some (Panic ''nil pointer dereference''))
           | Some proxy \<Rightarrow>
               (case en_fetch env (ah_url m) (Some proxy) (ah_authToken m) (ah_timeoutInSec m) of
                  Inl e \<Rightarrow> (m, Some e)
                | Inr (status, body) \<Rightarrow>
                    if status > 299 then (m, Some (Error ''LoadCredentialsFromHTTP: invalid response code''))
                    else case en_decode env body of
                      Inl e \<Rightarrow> (m, Some e)
                    | Inr strCreds \<Rightarrow>
                        (case load_creds strCreds Map.empty (en_order env strCreds) of
                           (c, Some e) \<Rightarrow> (m\<lparr>ah_creds := Some c\<rparr>, Some e)
                         | (c, None) \<Rightarrow>
                             (m\<lparr>ah_creds := Some c, ah_cacheExpiresAt :=
                                 (if ah_cacheDurationInSec m > 0
                                  then Unix (now + seconds (ah_cacheDurationInSec m)) else ah_cacheExpiresAt m)\<rparr>,
                              None)))))"

definition http_AuthenticateUser ::
    "key_fn \<Rightarrow> auth_env \<Rightarrow> time \<Rightarrow> string \<Rightarrow> string \<Rightarrow> auth_http \<Rightarrow> auth_http \<times> (go_error + bool)" where
  "http_AuthenticateUser kdf env now userId password m =
     (let answer = (\<lambda>m. case find_creds (ah_creds m) userId of
            Some p \<Rightarrow> Verify kdf p password
          | None \<Rightarrow> Inl (Error (''user id not found: '' @ userId))) in
      if ah_cacheDurationInSec m > 0 \<and> ah_cacheExpiresAt m < Unix now then
        (case LoadCredentialsFromHTTP env now m of
           (m', Some e) \<Rightarrow> (m', Inl e) | (m', None) \<Rightarrow> (m', answer m'))
      else (m, answer m))"

definition http_Initialize :: "auth_env \<Rightarrow> time \<Rightarrow> auth_config \<Rightarrow> auth_http \<Rightarrow> auth_http \<times> go_error option" where
  "http_Initialize env now c m =
     (let m1 = m\<lparr>ah_url := ac_Url c\<rparr> in
      if ac_ProxyUrl c \<noteq> [] \<and> en_parse_url env (ac_ProxyUrl c) \<noteq> None
      then (m1\<lparr>ah_proxyUrl := None\<rparr>, en_parse_url env (ac_ProxyUrl c))
      else (m1\<lparr>ah_proxyUrl := (if ac_ProxyUrl c \<noteq> [] then Some (ac_ProxyUrl c) else None),
               ah_timeoutInSec := (if ac_Timeout c < 1 \<or> ac_Timeout c > 60 then 60 else ac_Timeout c),
               ah_authToken := ac_AuthToken c, ah_cacheDurationInSec := ac_CacheDurationInSec c,
               ah_cacheExpiresAt := Unix now\<rparr>, None))"

section \<open>The manager (auth.go)\<close>

text \<open>The two methods register themselves under the names \<^verbatim>\<open>FILE\<close> and \<^verbatim>\<open>HTTP\<close>.\<close>

record auth_manager =
  am_enable :: bool
  am_methodName :: string
  am_file :: auth_file
  am_http :: auth_http

definition auth_init :: auth_manager where
  "auth_init = \<lparr>am_enable = False, am_methodName = [], am_file = \<lparr>af_filename = [], af_creds = None\<rparr>,
     am_http = \<lparr>ah_url = [], ah_proxyUrl = None, ah_authToken = [], ah_cacheDurationInSec = 0,
       ah_timeoutInSec = 0, ah_cacheExpiresAt = 0, ah_creds = None\<rparr>\<rparr>"

definition auth_Finalize :: "auth_manager \<Rightarrow> auth_manager" where
  "auth_Finalize m = m\<lparr>am_enable := False, am_methodName := []\<rparr>"

definition auth_Initialize :: "auth_env \<Rightarrow> time \<Rightarrow> auth_config \<Rightarrow> auth_manager \<Rightarrow> auth_manager \<times> go_error option" where
  "auth_Initialize env now c m0 =
     (let m = m0\<lparr>am_enable := ac_Enable c, am_methodName := ac_Method c\<rparr> in
      if am_methodName m = ''FILE'' then
        (case file_Initialize env c (am_file m) of (f, err) \<Rightarrow> (m\<lparr>am_file := f\<rparr>, err))
      else if am_methodName m = ''HTTP'' then
        (case http_Initialize env now c (am_http m) of (h, err) \<Rightarrow> (m\<lparr>am_http := h\<rparr>, err))
      else (m, Some (Error (''auth method not found: '' @ am_methodName m))))"

definition AuthenticateUser ::
    "key_fn \<Rightarrow> auth_env \<Rightarrow> time \<Rightarrow> string \<Rightarrow> string \<Rightarrow> auth_manager \<Rightarrow> auth_manager \<times> (go_error + bool)" where
  "AuthenticateUser kdf env now userId password m =
     (if am_enable m then
        if am_methodName m = ''FILE'' then (m, file_AuthenticateUser kdf (am_file m) userId password)
        else if am_methodName m = ''HTTP'' then
          (case http_AuthenticateUser kdf env now userId password (am_http m) of
             (h, r) \<Rightarrow> (m\<lparr>am_http := h\<rparr>, r))
        else (m, Inl (Panic ''nil pointer dereference''))
      else (m, Inr True))"

section \<open>Properties\<close>

text \<open>
  Hashed passwords round trip. For every digest that the parser knows, with a salt without
  \<open>$\<close> and a number of iterations, the text that \<^verbatim>\<open>HashPassword\<close> returns parses to a hash that prints as
  the same text, accepts the password, and accepts exactly the passwords that hash to that text.
\<close>

theorem hashed_password_roundtrip:
  assumes "\<forall>h q s i n. length (kdf h q s i n) = n"
    and "DigestToAuthMethod digest = Inr k" and "0 \<le> its" and "its < 2 ^ 63"
    and "salt \<noteq> []" and "CHR ''$'' \<notin> set salt"
  shows "\<exists>text p. HashPassword kdf digest its salt password = Inr text \<and>
     HashedPasswordToPbkdf2 text = Inr p \<and> ToString p = text \<and> Verify kdf p password = Inr True \<and>
     (\<forall>q. Verify kdf p q = Inr True \<longleftrightarrow> HashPassword kdf digest its salt q = Inr text)"
proof -
  have d: "digest \<in> {''md5'', ''sha256'', ''sha512''}"
    using assms(2) by (auto simp: DigestToAuthMethod_def split: if_splits)
  obtain len h where m: "DigestToHashMethod digest = Inr (k, len, h)" and len: "len > 0"
    using assms(2) d by (auto simp: DigestToAuthMethod_def DigestToHashMethod_def)
  let ?hash = "\<lambda>q. print_hex (kdf h q salt its len)"
  let ?p = "\<lambda>q. \<lparr>pk_digestId = k, pk_digest = digest, pk_iterations = its, pk_salt = salt, pk_hash = ?hash q\<rparr>"
  have hp: "HashPassword kdf digest its salt q = Inr (ToString (?p q))" for q
    by (simp add: HashPassword_def m)
  have ne: "?hash q \<noteq> []" for q using assms(1) len by (metis print_hex_empty length_0_conv less_numeral_extra(3))
  have ps: "HashedPasswordToPbkdf2 (ToString (?p q)) = Inr (?p q)" for q
    using parse_ToString [OF assms(2-6)] ne print_hex_ok by blast
  have v: "Verify kdf (?p pw) q = Inr (?hash q = ?hash pw)" for q pw
    using d m by (auto simp: Verify_def Pbkdf2_Hash_def DigestToHashMethod_def auth_methods Let_def)
  have "ToString (?p q) = ToString (?p password) \<longleftrightarrow> ?hash q = ?hash password" for q
    by (simp add: ToString_def)
  with hp ps v show ?thesis by (intro exI [of _ "ToString (?p password)"] exI [of _ "?p password"]) simp
qed

text \<open>What a line of the tool that makes passwords relies on.\<close>

lemma HashPassword_parses:
  assumes "\<forall>h q s i n. length (kdf h q s i n) = n"
    and "DigestToAuthMethod digest = Inr k" and "0 \<le> its" and "its < 2 ^ 63"
    and "salt \<noteq> []" and "CHR ''$'' \<notin> set salt" and "HashPassword kdf digest its salt password = Inr hash"
  shows "\<exists>p. HashedPasswordToPbkdf2 hash = Inr p \<and> pk_salt p = salt \<and> pk_iterations p = its \<and>
     Verify kdf p password = Inr True"
proof -
  have d: "digest \<in> {''md5'', ''sha256'', ''sha512''}"
    using assms(2) by (auto simp: DigestToAuthMethod_def split: if_splits)
  obtain len h where m: "DigestToHashMethod digest = Inr (k, len, h)" and len: "len > 0"
    using assms(2) d by (auto simp: DigestToAuthMethod_def DigestToHashMethod_def)
  let ?h = "print_hex (kdf h password salt its len)"
  let ?p = "\<lparr>pk_digestId = k, pk_digest = digest, pk_iterations = its, pk_salt = salt, pk_hash = ?h\<rparr>"
  have "hash = ToString ?p" using assms(7) m by (simp add: HashPassword_def)
  moreover have "?h \<noteq> []" using assms(1) len by (metis print_hex_empty length_0_conv less_numeral_extra(3))
  ultimately have "HashedPasswordToPbkdf2 hash = Inr ?p"
    using parse_ToString [OF assms(2-6) print_hex_ok] by simp
  moreover have "Verify kdf ?p password = Inr True"
    using d m by (auto simp: Verify_def Pbkdf2_Hash_def DigestToHashMethod_def auth_methods Let_def)
  ultimately show ?thesis by (intro exI [of _ ?p]) simp
qed

definition sample_kdf :: key_fn where
  "sample_kdf h q s i n = replicate n (of_nat (length q))"

lemma hashed_password_roundtrip_witness:
  "\<exists>text p. HashPassword sample_kdf ''sha256'' 1000 ''salt'' ''pw'' = Inr text \<and>
     HashedPasswordToPbkdf2 text = Inr p \<and> Verify sample_kdf p ''pw'' = Inr True"
  using hashed_password_roundtrip [of sample_kdf "''sha256''" AuthHashMethodSHA256 1000 "''salt''" "''pw''"]
  by (auto simp: sample_kdf_def DigestToAuthMethod_def)

text \<open>
  \<^verbatim>\<open>HashPassword\<close> accepts the digest \<^verbatim>\<open>sha1\<close>, but the parser rejects every text it makes of it, so
  such a hash can be generated and never be used as a credential.
\<close>

theorem sha1_hash_is_rejected:
  assumes "0 \<le> its" and "salt \<noteq> []" and "CHR ''$'' \<notin> set salt" and "length (kdf SHA1 password salt its 20) = 20"
  shows "\<exists>text. HashPassword kdf ''sha1'' its salt password = Inr text \<and>
     HashedPasswordToPbkdf2 text = Inl (Error ''unknown auth digest method: sha1'')"
proof -
  let ?h = "print_hex (kdf SHA1 password salt its 20)"
  let ?p = "\<lparr>pk_digestId = AuthHashMethodSHA1, pk_digest = ''sha1'', pk_iterations = its, pk_salt = salt, pk_hash = ?h\<rparr>"
  have hp: "HashPassword kdf ''sha1'' its salt password = Inr (ToString ?p)"
    by (simp add: HashPassword_def DigestToHashMethod_def)
  have "kdf SHA1 password salt its 20 \<noteq> []" using assms(4) by auto
  then have "FindStringSubmatch (ToString ?p) = Some (''sha1'', dec (nat its), salt, ?h)"
    using assms(1-3) print_hex_ok
    by (intro FindStringSubmatch_ToString) (auto simp: not_dollar_def list_all_iff print_hex_empty)
  moreover have "ToString ?p \<noteq> []" by (simp add: ToString_def)
  ultimately have "HashedPasswordToPbkdf2 (ToString ?p) = Inl (Error ''unknown auth digest method: sha1'')"
    by (simp add: HashedPasswordToPbkdf2_def DigestToAuthMethod_def)
  with hp show ?thesis by blast
qed

lemma sha1_hash_is_rejected_witness:
  "\<exists>text. HashPassword sample_kdf ''sha1'' 1 ''s'' ''pw'' = Inr text \<and>
     HashedPasswordToPbkdf2 text = Inl (Error ''unknown auth digest method: sha1'')"
  using sha1_hash_is_rejected [of 1 "''s''" sample_kdf "''pw''"] by (auto simp: sample_kdf_def)

lemma load_creds_ok:
  "load_creds strCreds m ks = (c, None) \<Longrightarrow> distinct ks \<Longrightarrow> set ks \<subseteq> dom strCreds \<Longrightarrow>
     (\<forall>u. c u = (if u \<in> set ks then Some (projr (HashedPasswordToPbkdf2 (the (strCreds u)))) else m u)) \<and>
     (\<forall>u \<in> set ks. \<exists>p. HashedPasswordToPbkdf2 (the (strCreds u)) = Inr p)"
proof (induction ks arbitrary: m)
  case (Cons k ks)
  then obtain h where h: "strCreds k = Some h" by auto
  with Cons.prems(1) obtain p where p: "HashedPasswordToPbkdf2 h = Inr p"
    by (cases "HashedPasswordToPbkdf2 h") auto
  with Cons h show ?case by auto
qed simp

text \<open>
  With the method \<^verbatim>\<open>FILE\<close>, once it is initialised, a user is authenticated exactly when the file
  has a hash for the user and the password verifies against it, whatever the order in which the map
  of credentials was visited.
\<close>

theorem file_auth_exact:
  assumes "auth_Initialize env now c m0 = (m, None)" and "ac_Enable c" and "ac_Method c = ''FILE''"
    and "en_read env (ac_Filename c) = Some text" and "en_decode env text = Inr strCreds"
    and "range_order strCreds (en_order env strCreds)"
  shows "snd (AuthenticateUser kdf env t u pw m) = Inr True \<longleftrightarrow>
     (\<exists>hash p. strCreds u = Some hash \<and> HashedPasswordToPbkdf2 hash = Inr p \<and> Verify kdf p pw = Inr True)"
proof -
  let ?f = "(am_file m0)\<lparr>af_filename := ac_Filename c\<rparr>"
  have ne: "ac_Filename c \<noteq> []" using assms(1-3) by (auto simp: auth_Initialize_def Let_def file_Initialize_def split: prod.splits)
  obtain cr err where lc: "load_creds strCreds Map.empty (en_order env strCreds) = (cr, err)" by fastforce
  from assms ne lc have err: "err = None"
    and m: "am_enable m" "am_methodName m = ''FILE''" "af_creds (am_file m) = Some cr"
    by (auto simp: auth_Initialize_def Let_def file_Initialize_def LoadCredentialsFromFile_def split: prod.splits)
  have ks: "distinct (en_order env strCreds)" "set (en_order env strCreds) = dom strCreds"
    using assms(6) by (simp_all add: range_order_def)
  note ld = load_creds_ok [OF lc [unfolded err] ks(1)]
  have cu: "cr u = (case strCreds u of None \<Rightarrow> None | Some h \<Rightarrow> Some (projr (HashedPasswordToPbkdf2 h)))"
    using ld ks(2) by (auto split: option.splits)
  have pr: "\<exists>p. HashedPasswordToPbkdf2 h = Inr p" if "strCreds u = Some h" for h
    using ld ks(2) that by force
  show ?thesis
  proof (cases "strCreds u")
    case None
    with cu m show ?thesis by (simp add: AuthenticateUser_def file_AuthenticateUser_def find_creds_def)
  next
    case (Some h)
    with pr obtain p where "HashedPasswordToPbkdf2 h = Inr p" by blast
    with Some cu m show ?thesis by (simp add: AuthenticateUser_def file_AuthenticateUser_def find_creds_def)
  qed
qed

definition sample_pk :: pbkdf2 where
  "sample_pk = \<lparr>pk_digestId = AuthHashMethodMD5, pk_digest = ''md5'', pk_iterations = 1, pk_salt = ''s'',
     pk_hash = print_hex [0]\<rparr>"

definition sample_env :: auth_env where
  "sample_env = \<lparr>en_read = (\<lambda>f. Some ''t''), en_decode = (\<lambda>t. Inr [''joe'' \<mapsto> ToString sample_pk]),
     en_order = (\<lambda>m. [''joe'']), en_parse_url = (\<lambda>u. None), en_fetch = (\<lambda>u p a n. Inr (200, ''t''))\<rparr>"

definition sample_auth :: "string \<Rightarrow> auth_config" where
  "sample_auth method = \<lparr>ac_Enable = True, ac_Method = method, ac_Filename = ''f'', ac_Url = ''u'', ac_ProxyUrl = [],
     ac_AuthToken = [], ac_Timeout = 5, ac_CacheDurationInSec = 60\<rparr>"

lemma sample_hash: "HashedPasswordToPbkdf2 (ToString sample_pk) = Inr sample_pk"
proof -
  have "FindStringSubmatch (ToString sample_pk) = Some (''md5'', dec (nat 1), ''s'', print_hex [0])"
    unfolding sample_pk_def
    by (rule FindStringSubmatch_ToString) (simp_all add: not_dollar_def print_hex_ok print_hex_empty)
  moreover have "ToString sample_pk \<noteq> []" by (simp add: ToString_def)
  ultimately show ?thesis
    using Atoi_dec [of 1] by (simp add: HashedPasswordToPbkdf2_def DigestToAuthMethod_def sample_pk_def)
qed

lemma file_auth_exact_witness:
  "\<exists>m. auth_Initialize sample_env 0 (sample_auth ''FILE'') auth_init = (m, None) \<and>
     snd (AuthenticateUser (\<lambda>h q s i n. if q = ''pw'' then [0] else [1]) sample_env 0 ''joe'' ''pw'' m) = Inr True"
proof -
  let ?kdf = "\<lambda>h q s i n. if q = ''pw'' then [0] else [1]"
  obtain m e where i: "auth_Initialize sample_env 0 (sample_auth ''FILE'') auth_init = (m, e)" by fastforce
  then have e: "e = None"
    by (auto simp: auth_Initialize_def sample_auth_def file_Initialize_def LoadCredentialsFromFile_def sample_env_def
        sample_hash Let_def split: prod.splits)
  have o: "range_order [''joe'' \<mapsto> ToString sample_pk] (en_order sample_env [''joe'' \<mapsto> ToString sample_pk])"
    by (simp add: sample_env_def range_order_def)
  have "Verify ?kdf sample_pk ''pw'' = Inr True"
    by (simp add: Verify_def Pbkdf2_Hash_def sample_pk_def auth_methods)
  then have "snd (AuthenticateUser ?kdf sample_env 0 ''joe'' ''pw'' m) = Inr True"
    using sample_hash
    by (subst file_auth_exact [OF i [unfolded e] _ _ _ _ o]) (auto simp: sample_auth_def sample_env_def)
  with i e show ?thesis by blast
qed

text \<open>A sequence of logins against the manager, each with its time, user and password.\<close>

fun logins ::
    "key_fn \<Rightarrow> auth_env \<Rightarrow> auth_manager \<Rightarrow> (time \<times> string \<times> string) list \<Rightarrow> (go_error + bool) list" where
  "logins kdf env m [] = []"
| "logins kdf env m ((t, u, pw) # cs) =
     (case AuthenticateUser kdf env t u pw m of (m', r) \<Rightarrow> r # logins kdf env m' cs)"

lemma http_no_proxy_call:
  "am_enable m \<Longrightarrow> am_methodName m = ''HTTP'' \<Longrightarrow> ah_proxyUrl (am_http m) = None \<Longrightarrow> ah_creds (am_http m) = None \<Longrightarrow>
     \<exists>e. AuthenticateUser kdf env t u pw m = (m, Inl e)"
  by (auto simp: AuthenticateUser_def http_AuthenticateUser_def LoadCredentialsFromHTTP_def Let_def find_creds_def
      split: option.splits)

text \<open>
  With the method \<^verbatim>\<open>HTTP\<close> and no proxy nobody can ever log in: whatever the server would answer,
  every login ends in an error, and as soon as the credentials would be fetched it is the panic of a
  nil transport.
\<close>

theorem http_auth_without_proxy:
  assumes "auth_Initialize env now c auth_init = (m, None)" and "ac_Enable c" and "ac_Method c = ''HTTP''"
    and "ac_ProxyUrl c = []"
  shows "Inr True \<notin> set (logins kdf env m calls) \<and>
     (ac_CacheDurationInSec c > 0 \<longrightarrow> Unix now < Unix t \<longrightarrow> en_parse_url env (ac_Url c) = None \<longrightarrow>
        snd (AuthenticateUser kdf env t u pw m) = Inl (Panic ''nil pointer dereference''))"
proof -
  have m: "am_enable m" "am_methodName m = ''HTTP''" "ah_proxyUrl (am_http m) = None" "ah_creds (am_http m) = None"
    "ah_cacheDurationInSec (am_http m) = ac_CacheDurationInSec c" "ah_cacheExpiresAt (am_http m) = Unix now"
    "ah_url (am_http m) = ac_Url c"
    using assms by (auto simp: auth_Initialize_def http_Initialize_def auth_init_def Let_def)
  have "Inr True \<notin> set (logins kdf env m calls)"
  proof (induction calls)
    case (Cons x calls)
    obtain t u pw where x: "x = (t, u, pw)" by (cases x)
    from http_no_proxy_call [OF m(1-4)] obtain e where "AuthenticateUser kdf env t u pw m = (m, Inl e)" by blast
    with Cons x show ?case by simp
  qed simp
  with m show ?thesis
    by (auto simp: AuthenticateUser_def http_AuthenticateUser_def LoadCredentialsFromHTTP_def)
qed

lemma http_auth_without_proxy_witness:
  "\<exists>m. auth_Initialize sample_env 0 (sample_auth ''HTTP'') auth_init = (m, None) \<and>
     Inr True \<notin> set (logins sample_kdf sample_env m [(0, ''joe'', ''pw''), (5000000000, ''joe'', ''pw'')])"
proof -
  obtain m e where i: "auth_Initialize sample_env 0 (sample_auth ''HTTP'') auth_init = (m, e)" by fastforce
  then have "e = None"
    by (auto simp: auth_Initialize_def sample_auth_def http_Initialize_def sample_env_def Let_def split: prod.splits)
  with i http_auth_without_proxy [of sample_env 0 "sample_auth ''HTTP''" m sample_kdf
      "[(0, ''joe'', ''pw''), (5000000000, ''joe'', ''pw'')]"]
  show ?thesis unfolding sample_auth_def auth_config.simps by blast
qed

end
