(* ===== verification/WebRequest.thy ===== *)
theory WebRequest
  imports ApiError Auth
begin

text \<open>
  The parts of an HTTP request as the handlers read them: validated payloads (web/httppayload.go),
  decimal query parameters (\<^verbatim>\<open>strconv.ParseUint\<close>), bodies of JSON lines (\<^verbatim>\<open>bufio.Scanner\<close> in
  web/apistream.go), and jq filters.
\<close>

section \<open>Payloads\<close>

text \<open>
  A body decodes to a payload, or to nothing when it is the JSON value \<^verbatim>\<open>null\<close>: decoding into the
  interface variable \<^verbatim>\<open>payload\<close> then stores nil in it. \<open>validate p\<close> lists the errors that the validator
  finds with the tags of the payload's structure; on nil the validator returns another type of error, and the
  type assertion of \<^verbatim>\<open>ValidateStruct\<close> panics.
\<close>

type_synonym validation_errors = "(string \<times> string \<times> string) list"

definition ValidateStruct :: "('pl \<Rightarrow> validation_errors) \<Rightarrow> 'pl option \<Rightarrow> go_error + validation_errors" where
  "ValidateStruct validate obj =
     (case obj of None \<Rightarrow> Inl (Panic ''interface conversion'') | Some p \<Rightarrow> Inr (validate p))"

text \<open>The result of reading a payload: a panic, an error to answer, or the payload.\<close>

datatype 'pl payload = Payload_Panic go_error | Payload_Error api_error | Payload 'pl

definition GetPayload :: "('pl \<Rightarrow> validation_errors) \<Rightarrow> go_error + 'pl option \<Rightarrow> 'pl payload" where
  "GetPayload validate body =
     (case body of
        Inl e \<Rightarrow> Payload_Error (simple_error 400 ErrorCantDeserializeJson ''invalid json body format'' (Some e))
      | Inr obj \<Rightarrow>
          (case ValidateStruct validate obj of
             Inl e \<Rightarrow> Payload_Panic e
           | Inr errors \<Rightarrow>
               if errors \<noteq> [] then
                 Payload_Error ((simple_error 400 ErrorCantDeserializeJson ''invalid json body format''
                   (Some (Error ''cannot deserialize json data'')))\<lparr>ae_ValidationErrors := errors\<rparr>)
               else (case obj of None \<Rightarrow> Payload_Panic (Panic ''interface conversion'') | Some p \<Rightarrow> Payload p)))"

text \<open>The rest of a handler that begins with \<^verbatim>\<open>GetPayload\<close>.\<close>

definition with_payload ::
    "('pl \<Rightarrow> validation_errors) \<Rightarrow> go_error + 'pl option \<Rightarrow> 's \<Rightarrow> ('pl \<Rightarrow> 's \<times> 'b response) \<Rightarrow> 's \<times> 'b response" where
  "with_payload validate body s handler =
     (case GetPayload validate body of
        Payload_Panic e \<Rightarrow> (s, Crash e)
      | Payload_Error e \<Rightarrow> (s, HTTPResponse e)
      | Payload p \<Rightarrow> handler p)"

lemma with_payload_simps [simp]:
  "with_payload validate (Inl e) s handler =
     (s, HTTPResponse (simple_error 400 ErrorCantDeserializeJson ''invalid json body format'' (Some e)))"
  "with_payload validate (Inr None) s handler = (s, Crash (Panic ''interface conversion''))"
  "validate p = [] \<Longrightarrow> with_payload validate (Inr (Some p)) s handler = handler p"
  "validate p \<noteq> [] \<Longrightarrow> \<exists>e. with_payload validate (Inr (Some p)) s handler = (s, HTTPResponse e) \<and> ae_HttpCode e = 400"
  by (simp_all add: with_payload_def GetPayload_def ValidateStruct_def simple_error_def)

lemma with_payload_cases:
  assumes "with_payload validate body s handler = (s', r)"
  obtains (refused) e where "s' = s" "r = HTTPResponse e" "ae_HttpCode e = 400"
    | (panic) e where "s' = s" "r = Crash e" "body = Inr None"
    | (ok) p where "body = Inr (Some p)" "validate p = []" "handler p = (s', r)"
  using assms
  by (auto simp: with_payload_def GetPayload_def ValidateStruct_def simple_error_def
      split: sum.splits option.splits if_splits)

section \<open>Decimal parameters\<close>

text \<open>\<^verbatim>\<open>strconv.ParseUint(s, 10, 0)\<close>: digits only, at most \<open>2 ^ 64 - 1\<close>; the first fault decides the error.\<close>

fun parse_digits :: "nat \<Rightarrow> string \<Rightarrow> go_error + nat" where
  "parse_digits n [] = Inr n"
| "parse_digits n (c # cs) =
     (if \<not> is_digit c then Inl (Error ''invalid syntax'')
      else let n' = 10 * n + (of_char c - 48) in
        if n' \<ge> 2 ^ 64 then Inl (Error ''value out of range'') else parse_digits n' cs)"

definition ParseUint :: "string \<Rightarrow> go_error + nat" where
  "ParseUint s = (if s = [] then Inl (Error ''invalid syntax'') else parse_digits 0 s)"

text \<open>
  The query parameter \<^verbatim>\<open>maxRecords\<close> of \<^verbatim>\<open>GetRecords\<close>; \<open>limit\<close> is
  \<^verbatim>\<open>appConfig.Streams.MaxMessagePerGetOperation\<close>.
\<close>

definition invalid_maxRecords :: "uuid \<Rightarrow> string \<Rightarrow> go_error \<Rightarrow> api_error" where
  "invalid_maxRecords streamUUID strMaxRecords err =
     (simple_error 400 ErrorInvalidParameterValue ''invalid integer value'' (Some err))
       \<lparr>ae_StreamUUID := streamUUID, ae_ValidationErrors := [(''maxRecords'', ''parameter'', strMaxRecords)]\<rparr>"

definition maxRecords_param :: "uuid \<Rightarrow> nat \<Rightarrow> string \<Rightarrow> api_error + nat" where
  "maxRecords_param streamUUID limit strMaxRecords =
     (if strMaxRecords = [] then Inr limit
      else case ParseUint strMaxRecords of
        Inl e \<Rightarrow> Inl (invalid_maxRecords streamUUID strMaxRecords e)
      | Inr v \<Rightarrow>
          if v = 0 then Inl (invalid_maxRecords streamUUID strMaxRecords (Error ''value must be positive''))
          else if v > limit
          then Inl (invalid_maxRecords streamUUID strMaxRecords (Error ''value must cannot exceed limit ''))
          else Inr v)"

lemma digits_value_snoc: "foldl (\<lambda>n c. 10 * n + (of_char c - 48)) n cs \<ge> (n :: nat)"
proof (induction cs arbitrary: n)
  case (Cons c cs)
  have "10 * n + (of_char c - 48) \<le> foldl (\<lambda>n c. 10 * n + (of_char c - 48)) n (c # cs)"
    using Cons by simp
  then show ?case by simp
qed simp

lemma parse_digits_iff:
  assumes "m < 2 ^ 64"
  shows "parse_digits m s = Inr n \<longleftrightarrow>
    list_all is_digit s \<and> foldl (\<lambda>n c. 10 * n + (of_char c - 48)) m s = n \<and> n < 2 ^ 64"
  using assms
proof (induction s arbitrary: m)
  case Nil
  then show ?case by auto
next
  case (Cons c s)
  let ?m = "10 * m + (of_char c - 48)"
  show ?case
  proof (cases "?m < 2 ^ 64")
    case True
    with Cons.IH [OF True] show ?thesis by (simp add: Let_def not_le)
  next
    case False
    with digits_value_snoc [of ?m s] show ?thesis by (auto simp: Let_def not_less)
  qed
qed

lemma ParseUint_iff:
  "ParseUint s = Inr n \<longleftrightarrow> s \<noteq> [] \<and> list_all is_digit s \<and> digits_value s = n \<and> n < 2 ^ 64"
  by (simp add: ParseUint_def parse_digits_iff digits_value_def)

text \<open>
  An absent parameter means the limit; a decimal number between 1 and the limit means itself; anything else is
  an error that names the parameter.
\<close>

lemma maxRecords_param_iff:
  "maxRecords_param u limit s = Inr n \<longleftrightarrow>
     s = [] \<and> n = limit \<or> s \<noteq> [] \<and> list_all is_digit s \<and> digits_value s = n \<and> n < 2 ^ 64 \<and> 1 \<le> n \<and> n \<le> limit"
proof (cases "s = []")
  case False
  show ?thesis
  proof (cases "ParseUint s")
    case (Inl e)
    with ParseUint_iff [of s "digits_value s"] False show ?thesis by (auto simp: maxRecords_param_def)
  next
    case (Inr m)
    with ParseUint_iff [of s m] False show ?thesis by (auto simp: maxRecords_param_def)
  qed
qed (auto simp: maxRecords_param_def)

lemma maxRecords_param_error:
  "maxRecords_param u limit s = Inl e \<Longrightarrow> \<exists>d. e = invalid_maxRecords u s d"
  by (auto simp: maxRecords_param_def split: if_splits sum.splits)

section \<open>Bodies of JSON lines\<close>

text \<open>
  A \<^verbatim>\<open>bufio.Scanner\<close> with the split function \<^verbatim>\<open>ScanLines\<close> over the whole body, whose buffer may not
  grow beyond \<open>cap\<close> bytes: a line is what stands before a newline, without a final carriage return; the last
  one may lack its newline, and an empty rest is no line. The scanner stops at a line that fills the buffer
  before its newline is seen; the handler never asks it why it stopped.
\<close>

definition drop_cr :: "string \<Rightarrow> string" where
  "drop_cr l = (if l \<noteq> [] \<and> last l = CHR 0x0D then butlast l else l)"

function scan_lines :: "nat \<Rightarrow> string \<Rightarrow> string list" where
  "scan_lines cap s =
     (if s = [] then []
      else let l = takeWhile (\<lambda>c. c \<noteq> CHR 0x0A) s in
        if length l \<ge> cap then []
        else drop_cr l # scan_lines cap (drop (length l + 1) s))"
  by pat_completeness auto
termination by (relation "measure (length \<circ> snd)") auto

declare scan_lines.simps [simp del]

definition maxCapacity :: nat where "maxCapacity = 1048576"

fun json_buffer_from :: "bool \<Rightarrow> string list \<Rightarrow> string" where
  "json_buffer_from first [] = []"
| "json_buffer_from first (l # ls) = (if first then ''['' else '','') @ l @ json_buffer_from False ls"

definition jsonlines_to_json :: "string \<Rightarrow> string" where
  "jsonlines_to_json body = json_buffer_from True (scan_lines maxCapacity body) @ '']''"

definition jsonlines_type :: "string \<Rightarrow> bool" where
  "jsonlines_type ctype \<longleftrightarrow> ctype = ''application/jsonlines'' \<or> ctype = ''application/x-ndjson''"

text \<open>The text of a JSON array, and the lines that carry its elements.\<close>

fun comma_list :: "string list \<Rightarrow> string" where
  "comma_list [] = []"
| "comma_list [l] = l"
| "comma_list (l # ls) = l @ '','' @ comma_list ls"

definition plain_line :: "nat \<Rightarrow> string \<Rightarrow> bool" where
  "plain_line cap l \<longleftrightarrow> CHR 0x0A \<notin> set l \<and> length l < cap \<and> drop_cr l = l"

definition newline :: char where "newline = CHR 0x0A"

lemma scan_lines_plain:
  assumes "plain_line cap l" and "l @ newline # rest = s"
  shows "scan_lines cap s = l # scan_lines cap rest"
proof -
  have "takeWhile (\<lambda>c. c \<noteq> CHR 0x0A) s = l"
    using assms by (auto simp: plain_line_def newline_def takeWhile_append takeWhile_eq_all_conv)
  moreover have "drop (length l + 1) s = rest" "s \<noteq> []" using assms(2) by auto
  ultimately show ?thesis using assms(1) by (subst scan_lines.simps) (simp add: Let_def plain_line_def)
qed

lemma scan_lines_all:
  assumes "list_all (plain_line cap) ls"
  shows "scan_lines cap (concat (map (\<lambda>l. l @ [newline]) ls) @ rest) = ls @ scan_lines cap rest"
  using assms
proof (induction ls)
  case (Cons l ls)
  then show ?case
    using scan_lines_plain [of cap l "concat (map (\<lambda>l. l @ [newline]) ls) @ rest"] by simp
qed simp

lemma scan_lines_stop:
  assumes "CHR 0x0A \<notin> set l" and "length l \<ge> cap"
  shows "scan_lines cap (l @ rest) = (if l @ rest = [] then [] else [])"
proof -
  have "length (takeWhile (\<lambda>c. c \<noteq> CHR 0x0A) (l @ rest)) \<ge> cap"
    using assms by (simp add: takeWhile_append)
  then show ?thesis by (subst scan_lines.simps) (simp add: Let_def)
qed

lemma scan_lines_Nil [simp]: "scan_lines cap [] = []"
  by (simp add: scan_lines.simps)

lemma json_buffer_comma:
  "ls \<noteq> [] \<Longrightarrow> json_buffer_from True ls = ''['' @ comma_list ls"
  "ls \<noteq> [] \<Longrightarrow> json_buffer_from False ls = '','' @ comma_list ls"
proof -
  have "ls \<noteq> [] \<Longrightarrow> json_buffer_from b ls = (if b then ''['' else '','') @ comma_list ls" for b
  proof (induction ls arbitrary: b rule: comma_list.induct)
    case (3 l k ls)
    from "3.IH" [of False] show ?case by simp
  qed simp_all
  from this [of True] this [of False] show
    "ls \<noteq> [] \<Longrightarrow> json_buffer_from True ls = ''['' @ comma_list ls"
    "ls \<noteq> [] \<Longrightarrow> json_buffer_from False ls = '','' @ comma_list ls" by simp_all
qed

section \<open>Properties\<close>

text \<open>
  C39: the body of JSON lines becomes the JSON array of its lines. Lines of less than one megabyte, each
  ended by a newline, become the array of exactly these lines. Where a line has a megabyte or more the
  conversion stops: the array has the lines before it, and it and every line after it are dropped without an
  error.
\<close>

theorem jsonlines_array:
  assumes "list_all (plain_line maxCapacity) ls" and "ls \<noteq> []"
    and "CHR 0x0A \<notin> set long" and "length long \<ge> maxCapacity"
  shows "jsonlines_to_json (concat (map (\<lambda>l. l @ [newline]) ls)) = ''['' @ comma_list ls @ '']'' \<and>
     jsonlines_to_json (concat (map (\<lambda>l. l @ [newline]) ls) @ long @ newline # rest) = ''['' @ comma_list ls @ '']''"
proof -
  have "scan_lines maxCapacity (concat (map (\<lambda>l. l @ [newline]) ls)) = ls"
    using scan_lines_all [OF assms(1), of "[]"] by simp
  moreover have "scan_lines maxCapacity (concat (map (\<lambda>l. l @ [newline]) ls) @ long @ newline # rest) = ls"
    using scan_lines_all [OF assms(1), of "long @ newline # rest"] scan_lines_stop [OF assms(3,4)] by simp
  ultimately show ?thesis by (simp add: jsonlines_to_json_def json_buffer_comma(1) [OF assms(2)])
qed

lemma jsonlines_array_witness:
  "jsonlines_to_json (''1'' @ newline # ''2'' @ newline # replicate maxCapacity CHR ''x'' @ newline # ''3'') = ''[1,2]''"
proof -
  have "list_all (plain_line maxCapacity) [''1'', ''2'']"
    by (simp add: plain_line_def drop_cr_def maxCapacity_def)
  from jsonlines_array [OF this, of "replicate maxCapacity CHR ''x''" "''3''"] show ?thesis by simp
qed

end
