(* ===== verification/Dedup.thy ===== *)
theory Dedup
  imports Prelude
begin

text \<open>
  The request deduplicator (web/requestdeduplicator .go): the batch ids seen lately, and the goroutine
  that forgets the expired ones every minute.
\<close>

section \<open>State and operations\<close>

datatype stop_chan = Open_Chan | Closed_Chan

text \<open>
  \<open>rd_stopChan\<close> is nil, open or closed. A cleaning goroutine waits on the channel it was started
  with; \<open>rd_orphans\<close> counts those whose channel was replaced before it was closed, which nothing can
  stop any more and for which \<^verbatim>\<open>wg.Wait\<close> waits.
\<close>

record dedup =
  rd_processedIDs :: "string \<rightharpoonup> time"
  rd_ttl :: int
  rd_stopChan :: "stop_chan option"
  rd_orphans :: nat

definition NewRequestDeduplicatorManager :: "int \<Rightarrow> dedup" where
  "NewRequestDeduplicatorManager ttl =
     \<lparr>rd_processedIDs = Map.empty, rd_ttl = ttl, rd_stopChan = None, rd_orphans = 0\<rparr>"

definition rd_Init :: "dedup \<Rightarrow> dedup" where
  "rd_Init rdm = rdm\<lparr>rd_orphans := (if rd_stopChan rdm = Some Open_Chan then rd_orphans rdm + 1 else rd_orphans rdm),
     rd_stopChan := Some Open_Chan\<rparr>"

definition rd_Exists :: "string \<Rightarrow> dedup \<Rightarrow> bool" where
  "rd_Exists requestID rdm \<longleftrightarrow> rd_processedIDs rdm requestID \<noteq> None"

definition rd_Add :: "time \<Rightarrow> string \<Rightarrow> dedup \<Rightarrow> dedup" where
  "rd_Add now requestID rdm = rdm\<lparr>rd_processedIDs := (rd_processedIDs rdm)(requestID \<mapsto> now)\<rparr>"

definition rd_Remove :: "string \<Rightarrow> dedup \<Rightarrow> dedup" where
  "rd_Remove requestID rdm = rdm\<lparr>rd_processedIDs := (rd_processedIDs rdm)(requestID := None)\<rparr>"

text \<open>The loop deletes each entry on its own, so its order does not matter.\<close>

definition CleanupExpiredEntries :: "time \<Rightarrow> dedup \<Rightarrow> dedup" where
  "CleanupExpiredEntries now rdm = rdm\<lparr>rd_processedIDs := (\<lambda>requestID.
     case rd_processedIDs rdm requestID of
       None \<Rightarrow> None
     | Some timestamp \<Rightarrow> if now - timestamp > rd_ttl rdm then None else Some timestamp)\<rparr>"

definition rd_Clear :: "dedup \<Rightarrow> dedup" where
  "rd_Clear rdm = rdm\<lparr>rd_processedIDs := Map.empty\<rparr>"

text \<open>\<open>None\<close>: the call waits for ever. Closing a closed channel panics.\<close>

definition rd_Stop :: "dedup \<Rightarrow> (dedup \<times> go_error option) option" where
  "rd_Stop rdm =
     (case rd_stopChan rdm of
        None \<Rightarrow> Some (rdm, Some (Error ''RequestDeduplicatorManager has not been initialized''))
      | Some Closed_Chan \<Rightarrow> Some (rdm, Some (Panic ''close of closed channel''))
      | Some Open_Chan \<Rightarrow>
          if rd_orphans rdm > 0 then None
          else Some (rd_Clear (rdm\<lparr>rd_stopChan := Some Closed_Chan\<rparr>), None))"

section \<open>Lemmas\<close>

lemmas rd_defs = rd_Exists_def rd_Add_def rd_Remove_def CleanupExpiredEntries_def rd_Clear_def

lemma rd_ttl_keep [simp]:
  "rd_ttl (rd_Add now i rdm) = rd_ttl rdm" "rd_ttl (rd_Remove i rdm) = rd_ttl rdm"
  "rd_ttl (CleanupExpiredEntries now rdm) = rd_ttl rdm"
  by (simp_all add: rd_defs)

lemma rd_Exists_Add [simp]: "rd_Exists j (rd_Add now i rdm) \<longleftrightarrow> j = i \<or> rd_Exists j rdm"
  by (auto simp: rd_defs)

lemma rd_Exists_Remove [simp]: "rd_Exists j (rd_Remove i rdm) \<longleftrightarrow> j \<noteq> i \<and> rd_Exists j rdm"
  by (auto simp: rd_defs)

text \<open>An id is still known \<open>ttl\<close> after it was added, however often the goroutine cleaned up.\<close>

lemma Cleanup_keeps:
  "rd_processedIDs rdm i = Some ts \<Longrightarrow> now - ts \<le> rd_ttl rdm \<Longrightarrow>
     rd_processedIDs (CleanupExpiredEntries now rdm) i = Some ts"
  by (simp add: rd_defs)

text \<open>A second \<^verbatim>\<open>Stop\<close> panics; stopping and starting again is possible any number of times.\<close>

lemma Stop_twice_panics:
  "rd_Stop rdm = Some (rdm', None) \<Longrightarrow> rd_Stop rdm' = Some (rdm', Some (Panic ''close of closed channel''))"
  by (auto simp: rd_Stop_def rd_Clear_def split: option.splits stop_chan.splits if_splits)

lemma Init_after_Stop:
  "rd_Stop rdm = Some (rdm', None) \<Longrightarrow> \<exists>r. rd_Stop (rd_Init rdm') = Some (r, None)"
  by (auto simp: rd_Stop_def rd_Clear_def rd_Init_def split: option.splits stop_chan.splits if_splits)

lemma Init_twice_hangs: "rd_Stop (rd_Init (rd_Init rdm)) = None"
  by (simp add: rd_Stop_def rd_Init_def)

end
