(* ===== verification/Rbac.thy ===== *)
theory Rbac
  imports Prelude
begin

text \<open>
  Role based access control (rbac/rbac.go, rbacaction.go, rbacmanager.go, rbachandler.go): the
  configuration of users, roles and rules, its manager, and the handler that lets a request pass.
\<close>

section \<open>The configuration\<close>

text \<open>Compiled jq filters are of the type variable \<open>'q\<close>; pointers to roles and rules, which nothing
  changes once they are made, are the roles and rules themselves.\<close>

record 'q abac =
  ab_JqDef :: string
  ab_JqFilter :: 'q

record 'q rule =
  ru_Id :: string
  ru_Actions :: "string list"
  ru_Abac :: "'q abac option"

record 'q role =
  ro_Id :: string
  ro_Description :: string
  ro_Rules :: "'q rule list"

record 'q user =
  us_Id :: string
  us_Description :: string
  us_Roles :: "'q role list"

record 'q rbac =
  rb_Users :: "string \<rightharpoonup> 'q user"
  rb_Roles :: "string \<rightharpoonup> 'q role"
  rb_Rules :: "string \<rightharpoonup> 'q rule"

text \<open>What the JSON file holds.\<close>

record s_rule =
  sr_Id :: string
  sr_Actions :: "string list"
  sr_JQAbac :: string

record s_role =
  sl_Id :: string
  sl_Description :: string
  sl_Rules :: "string list"

record s_user =
  su_Id :: string
  su_Description :: string
  su_Roles :: "string list"

record s_rbac =
  sb_Users :: "s_user list"
  sb_Roles :: "s_role list"
  sb_Rules :: "s_rule list"

text \<open>\<open>parse\<close> is \<^verbatim>\<open>gojq.Parse\<close>.\<close>

definition makeABAC :: "(string \<Rightarrow> go_error + 'q) \<Rightarrow> string \<Rightarrow> go_error + 'q abac option" where
  "makeABAC parse jqAbac =
     (if jqAbac = [] then Inr None
      else case parse jqAbac of
        Inl e \<Rightarrow> Inl (Error ''can't create ABAC'')
      | Inr jq \<Rightarrow> Inr (Some \<lparr>ab_JqDef = jqAbac, ab_JqFilter = jq\<rparr>))"

definition GetUser :: "'q rbac \<Rightarrow> string \<Rightarrow> go_error + 'q user" where
  "GetUser r userId =
     (case rb_Users r userId of Some u \<Rightarrow> Inr u | None \<Rightarrow> Inl (Error (''User id not found: '' @ userId)))"

definition GetUserList :: "'q rbac \<Rightarrow> string list \<Rightarrow> bool" where
  \<comment> \<open>\<open>ks\<close> is a possible result: the keys in the order the runtime visits them\<close>
  "GetUserList r ks = range_order (rb_Users r) ks"

definition user_GetRoles :: "'q user \<Rightarrow> string list" where
  "user_GetRoles u = map ro_Id (us_Roles u)"

definition GetUserRoles :: "'q rbac \<Rightarrow> string \<Rightarrow> go_error + string list" where
  "GetUserRoles r userId =
     (case rb_Users r userId of
        Some u \<Rightarrow> Inr (user_GetRoles u) | None \<Rightarrow> Inl (Error (''User id not found: '' @ userId)))"

text \<open>A lookup of several names that stops at the first unknown one; the partial list that goes with
  the error is never used.\<close>

definition lookup_each :: "(string \<Rightarrow> go_error) \<Rightarrow> (string \<rightharpoonup> 'a) \<Rightarrow> string list \<Rightarrow> go_error + 'a list" where
  "lookup_each err m names = collect (\<lambda>n. case m n of Some x \<Rightarrow> Inr x | None \<Rightarrow> Inl (err n)) names"

definition GetRoles :: "'q rbac \<Rightarrow> string list \<Rightarrow> go_error + 'q role list" where
  "GetRoles r roleNames = lookup_each (\<lambda>n. Error (''unknown role '' @ n)) (rb_Roles r) roleNames"

section \<open>Deserialisation\<close>

fun add_rules ::
    "(string \<Rightarrow> go_error + 'q) \<Rightarrow> (string \<rightharpoonup> 'q rule) \<Rightarrow> s_rule list \<Rightarrow> go_error + (string \<rightharpoonup> 'q rule)" where
  "add_rules parse m [] = Inr m"
| "add_rules parse m (s # ss) =
     (if m (sr_Id s) \<noteq> None then Inl (Error (''RBAC Rule id must be unique: '' @ sr_Id s))
      else case makeABAC parse (sr_JQAbac s) of
        Inl e \<Rightarrow> Inl e
      | Inr a \<Rightarrow> add_rules parse
          (m(sr_Id s \<mapsto> \<lparr>ru_Id = sr_Id s, ru_Actions = sr_Actions s, ru_Abac = a\<rparr>)) ss)"

fun add_roles ::
    "(string \<rightharpoonup> 'q rule) \<Rightarrow> (string \<rightharpoonup> 'q role) \<Rightarrow> s_role list \<Rightarrow> go_error + (string \<rightharpoonup> 'q role)" where
  "add_roles rules m [] = Inr m"
| "add_roles rules m (s # ss) =
     (if m (sl_Id s) \<noteq> None then Inl (Error (''RBAC Role id must be unique: '' @ sl_Id s))
      else case lookup_each (\<lambda>n. Error (''RBAC Rule id not found for role: '' @ sl_Id s)) rules (sl_Rules s) of
        Inl e \<Rightarrow> Inl e
      | Inr rs \<Rightarrow> add_roles rules
          (m(sl_Id s \<mapsto> \<lparr>ro_Id = sl_Id s, ro_Description = sl_Description s, ro_Rules = rs\<rparr>)) ss)"

fun add_users ::
    "(string \<rightharpoonup> 'q role) \<Rightarrow> (string \<rightharpoonup> 'q user) \<Rightarrow> s_user list \<Rightarrow> go_error + (string \<rightharpoonup> 'q user)" where
  "add_users roles m [] = Inr m"
| "add_users roles m (s # ss) =
     (if m (su_Id s) \<noteq> None then Inl (Error (''RBAC user id must be unique: '' @ su_Id s))
      else case lookup_each (\<lambda>n. Error (''RBAC Role id not found for user: '' @ su_Id s)) roles (su_Roles s) of
        Inl e \<Rightarrow> Inl e
      | Inr rs \<Rightarrow> add_users roles
          (m(su_Id s \<mapsto> \<lparr>us_Id = su_Id s, us_Description = su_Description s, us_Roles = rs\<rparr>)) ss)"

definition DeserializeRBACConfig :: "(string \<Rightarrow> go_error + 'q) \<Rightarrow> s_rbac \<Rightarrow> go_error + 'q rbac" where
  "DeserializeRBACConfig parse s =
     (case add_rules parse Map.empty (sb_Rules s) of Inl e \<Rightarrow> Inl e
      | Inr rules \<Rightarrow> (case add_roles rules Map.empty (sb_Roles s) of Inl e \<Rightarrow> Inl e
        | Inr roles \<Rightarrow> (case add_users roles Map.empty (sb_Users s) of Inl e \<Rightarrow> Inl e
          | Inr users \<Rightarrow> Inr \<lparr>rb_Users = users, rb_Roles = roles, rb_Rules = rules\<rparr>)))"

text \<open>\<open>text\<close> is the file (\<open>None\<close> when it cannot be opened), \<open>dec\<close> the JSON decoder.\<close>

definition NewRBAC ::
    "(string \<Rightarrow> go_error + 'q) \<Rightarrow> (string \<Rightarrow> go_error + s_rbac) \<Rightarrow> string option \<Rightarrow> go_error + 'q rbac" where
  "NewRBAC parse dec text =
     (case text of None \<Rightarrow> Inl fatal
      | Some t \<Rightarrow> (case dec t of Inl e \<Rightarrow> Inl fatal | Inr s \<Rightarrow> DeserializeRBACConfig parse s))"

section \<open>The manager\<close>

definition ActionList :: "string list" where
  "ActionList =
     [''GetRecords'', ''CreateRecordsIterator'', ''PutRecords'', ''PutRecord'', ''GetRecordsIteratorStats'',
      ''ListStreams'', ''ListStreamsProperties'', ''GetStreamDescription'', ''GetStreamProperties'',
      ''SetStreamProperties'', ''UpdateStreamProperties'', ''CreateStream'', ''DeleteStream'',
      ''CloseRecordsIterator'', ''RebuildIndex'', ''ListUsers'',
      ''GetAccount'', ''ShutdownServer'', ''RestartServer'', ''JWTRevokeAll'']"

record 'q rbac_manager =
  mg_ActionList :: "string list"
  mg_Rbac :: "'q rbac option"
  mg_enabled :: bool

definition IsValidAction :: "'q rbac_manager \<Rightarrow> string \<Rightarrow> bool" where
  "IsValidAction m action = list_ex (\<lambda>n. action = n) (mg_ActionList m)"

definition IsEnabled :: "'q rbac_manager \<Rightarrow> bool" where
  "IsEnabled m = mg_enabled m"

text \<open>\<open>ks\<close> is the order in which the map of rules is visited; it only decides which error is reported.\<close>

fun validate_rules :: "'q rbac_manager \<Rightarrow> 'q rule list \<Rightarrow> go_error option" where
  "validate_rules m [] = None"
| "validate_rules m (r # rs) =
     (case List.find (\<lambda>a. \<not> IsValidAction m a) (ru_Actions r) of
        Some a \<Rightarrow> Some (Error (''RBAC Rule action unknown: '' @ a))
      | None \<Rightarrow> validate_rules m rs)"

definition ValidateActions :: "'q rbac_manager \<Rightarrow> string list \<Rightarrow> go_error option" where
  "ValidateActions m ks =
     (case mg_Rbac m of
        None \<Rightarrow> Some (Panic ''nil pointer dereference'')
      | Some r \<Rightarrow> validate_rules m (List.map_filter (rb_Rules r) ks))"

definition LoadConfiguration ::
    "go_error + 'q rbac \<Rightarrow> string list \<Rightarrow> 'q rbac_manager \<Rightarrow> 'q rbac_manager \<times> go_error option" where
  "LoadConfiguration loaded ks m =
     (case loaded of
        Inl e \<Rightarrow> (m\<lparr>mg_Rbac := None\<rparr>, Some e)
      | Inr r \<Rightarrow> (let m' = m\<lparr>mg_Rbac := Some r\<rparr> in (m', ValidateActions m' ks)))"

definition mgr_Initialize ::
    "bool \<Rightarrow> string list \<Rightarrow> go_error + 'q rbac \<Rightarrow> string list \<Rightarrow> 'q rbac_manager \<Rightarrow>
       'q rbac_manager \<times> go_error option" where
  "mgr_Initialize enable actionList loaded ks m =
     (let m1 = m\<lparr>mg_enabled := enable\<rparr> in
      if mg_enabled m1 then LoadConfiguration loaded ks (m1\<lparr>mg_ActionList := actionList\<rparr>)
      else (m1\<lparr>mg_ActionList := [], mg_Rbac := None\<rparr>, None))"

definition mgr_Finalize :: "'q rbac_manager \<Rightarrow> 'q rbac_manager" where
  "mgr_Finalize m = m\<lparr>mg_enabled := False, mg_ActionList := [], mg_Rbac := None\<rparr>"

definition NewRBACManager ::
    "bool \<Rightarrow> go_error + 'q rbac \<Rightarrow> string list \<Rightarrow> go_error + 'q rbac_manager" where
  "NewRBACManager enableRBAC loaded ks =
     (let mgr = \<lparr>mg_ActionList = [], mg_Rbac = None, mg_enabled = False\<rparr> in
      if enableRBAC then
        (case mgr_Initialize enableRBAC ActionList loaded ks mgr of
           (m, Some e) \<Rightarrow> Inl fatal
         | (m, None) \<Rightarrow> Inr m)
      else Inr mgr)"

section \<open>The handler\<close>

text \<open>
  The request context, as far as access control reads and writes it (\<^verbatim>\<open>c.Locals\<close>). \<open>cx_roles\<close> is \<open>None\<close>
  when the key is absent and \<open>Some None\<close> for a nil slice; \<open>cx_rbac\<close> is what the handler leaves for
  the audit log.
\<close>

record 'q ctx =
  cx_superuser :: bool
  cx_roles :: "'q role list option option"
  cx_user :: "string option"
  cx_rbac :: "(string \<times> string) list option"
  cx_abac :: "'q abac option"

record ('q, 'v) rbac_config =
  rc_enableRBAC :: bool
  rc_ABACGetProperties :: "('q ctx \<Rightarrow> go_error + 'v iface) option"
  rc_Action :: string

definition RBACProtected ::
    "bool \<Rightarrow> string \<Rightarrow> ('q ctx \<Rightarrow> go_error + 'v iface) option \<Rightarrow> ('q, 'v) rbac_config" where
  "RBACProtected enableRBAC action getprops =
     \<lparr>rc_enableRBAC = enableRBAC, rc_ABACGetProperties = getprops, rc_Action = action\<rparr>"

text \<open>
  How the handler ends: it calls the next handler of the route, or the success handler (which calls
  the next one), or the error handler. Without an error the error handler answers 403, with one 500.
\<close>

datatype verdict = Next_Handler | Success_Handler | Error_Handler "go_error option"

definition passes :: "verdict \<Rightarrow> bool" where
  "passes v = (case v of Error_Handler e \<Rightarrow> False | _ \<Rightarrow> True)"

definition http_status :: "verdict \<Rightarrow> nat option" where
  "http_status v = (case v of Error_Handler None \<Rightarrow> Some 403 | Error_Handler (Some e) \<Rightarrow> Some 500 | _ \<Rightarrow> None)"

definition CheckABAC ::
    "('q \<Rightarrow> 'v iface \<Rightarrow> 'v iface list) \<Rightarrow> 'v iface \<Rightarrow> 'q abac \<Rightarrow> go_error + bool" where
  "CheckABAC run properties abac =
     (if properties = INil then Inr True
      else case run (ab_JqFilter abac) properties of
        [] \<Rightarrow> Inr True
      | IErr e # _ \<Rightarrow> Inl e
      | IBool b # _ \<Rightarrow> Inr b
      | _ \<Rightarrow> Inl (Error ''abac jq filter did not returned a boolean value''))"

definition abac_failed :: verdict where
  "abac_failed = Error_Handler (Some (Error ''abac properties not found''))"

text \<open>\<^verbatim>\<open>CheckRBAC\<close>: the verdict, if this rule gives one.\<close>

definition CheckRBAC ::
    "('q \<Rightarrow> 'v iface \<Rightarrow> 'v iface list) \<Rightarrow> ('q, 'v) rbac_config \<Rightarrow> 'q role \<Rightarrow> 'q rule \<Rightarrow> string \<Rightarrow> 'q ctx \<Rightarrow>
       'q ctx \<times> verdict option" where
  "CheckRBAC run cfg role rule user c0 =
     (let c = (case ru_Abac rule of None \<Rightarrow> c0 | Some a \<Rightarrow> c0\<lparr>cx_abac := Some a\<rparr>);
          info = [(''user'', user), (''role'', ro_Id role), (''rule'', ru_Id rule), (''action'', rc_Action cfg)] in
      case (ru_Abac rule, rc_ABACGetProperties cfg) of
        (Some a, Some getprops) \<Rightarrow>
          (case getprops c of
             Inl e \<Rightarrow> (c, Some abac_failed)
           | Inr properties \<Rightarrow>
               (case CheckABAC run properties a of
                  Inl e \<Rightarrow> (c, Some abac_failed)
                | Inr grant \<Rightarrow>
                    if grant then (c\<lparr>cx_rbac := Some (info @ [(''abac'', ab_JqDef a)])\<rparr>, Some Success_Handler)
                    else (c, None)))
      | _ \<Rightarrow> (c\<lparr>cx_rbac := Some info\<rparr>, Some Success_Handler))"

text \<open>The three nested loops, over the roles, their rules and the actions of each rule.\<close>

fun try_actions ::
    "('q \<Rightarrow> 'v iface \<Rightarrow> 'v iface list) \<Rightarrow> ('q, 'v) rbac_config \<Rightarrow> 'q role \<Rightarrow> 'q rule \<Rightarrow> string \<Rightarrow> string list \<Rightarrow>
       'q ctx \<Rightarrow> 'q ctx \<times> verdict option" where
  "try_actions run cfg role rule user [] c = (c, None)"
| "try_actions run cfg role rule user (a # as) c =
     (if rc_Action cfg = a then
        (case CheckRBAC run cfg role rule user c of
           (c', Some v) \<Rightarrow> (c', Some v) | (c', None) \<Rightarrow> try_actions run cfg role rule user as c')
      else try_actions run cfg role rule user as c)"

fun try_rules ::
    "('q \<Rightarrow> 'v iface \<Rightarrow> 'v iface list) \<Rightarrow> ('q, 'v) rbac_config \<Rightarrow> 'q role \<Rightarrow> string \<Rightarrow> 'q rule list \<Rightarrow>
       'q ctx \<Rightarrow> 'q ctx \<times> verdict option" where
  "try_rules run cfg role user [] c = (c, None)"
| "try_rules run cfg role user (r # rs) c =
     (case try_actions run cfg role r user (ru_Actions r) c of
        (c', Some v) \<Rightarrow> (c', Some v) | (c', None) \<Rightarrow> try_rules run cfg role user rs c')"

fun try_roles ::
    "('q \<Rightarrow> 'v iface \<Rightarrow> 'v iface list) \<Rightarrow> ('q, 'v) rbac_config \<Rightarrow> string \<Rightarrow> 'q role list \<Rightarrow>
       'q ctx \<Rightarrow> 'q ctx \<times> verdict option" where
  "try_roles run cfg user [] c = (c, None)"
| "try_roles run cfg user (r # rs) c =
     (case try_rules run cfg r user (ro_Rules r) c of
        (c', Some v) \<Rightarrow> (c', Some v) | (c', None) \<Rightarrow> try_roles run cfg user rs c')"

definition NewRBACHandler ::
    "('q \<Rightarrow> 'v iface \<Rightarrow> 'v iface list) \<Rightarrow> ('q, 'v) rbac_config \<Rightarrow> 'q ctx \<Rightarrow> go_error + ('q ctx \<times> verdict)" where
  "NewRBACHandler run cfg c =
     (if \<not> rc_enableRBAC cfg then Inr (c, Next_Handler)
      else if cx_superuser c then Inr (c, Next_Handler)
      else case cx_roles c of
        None \<Rightarrow> Inr (c, Error_Handler (Some (Error ''role key not found in locals'')))
      | Some None \<Rightarrow> Inr (c, Error_Handler (Some (Error ''roles are empty'')))
      | Some (Some roles) \<Rightarrow>
          (case cx_user c of
             None \<Rightarrow> Inl (Panic ''interface conversion'')
           | Some user \<Rightarrow>
               (case try_roles run cfg user roles c of
                  (c', Some v) \<Rightarrow> Inr (c', v)
                | (c', None) \<Rightarrow> Inr (c'\<lparr>cx_rbac := Some [(''user'', user), (''action'', rc_Action cfg)]\<rparr>,
                    Error_Handler None))))"

section \<open>Lemmas\<close>

text \<open>A rule that names the action, and what its condition says of the properties \<open>p\<close>.\<close>

definition names_action :: "string \<Rightarrow> 'q role list \<Rightarrow> 'q rule \<Rightarrow> bool" where
  "names_action a roles rule \<longleftrightarrow> (\<exists>ro \<in> set roles. rule \<in> set (ro_Rules ro)) \<and> a \<in> set (ru_Actions rule)"

lemma lookup_each_ok:
  "lookup_each err m names = Inr xs \<longleftrightarrow> map m names = map Some xs"
proof -
  have "(case m n of Some x \<Rightarrow> Inr x | None \<Rightarrow> Inl (err n)) = Inr x \<longleftrightarrow> m n = Some x" for n x
    by (auto split: option.splits)
  then have "lookup_each err m names = Inr xs \<longleftrightarrow> list_all2 (\<lambda>n x. m n = Some x) names xs"
    by (simp add: lookup_each_def collect_Inr_iff)
  also have "\<dots> \<longleftrightarrow> map m names = map Some xs"
    by (induction names arbitrary: xs) (auto simp: list_all2_Cons1 Cons_eq_map_conv)
  finally show ?thesis .
qed

text \<open>
  The loops, when every rule that names the action either grants it (\<open>g\<close>) or gives no verdict: some
  rule must grant it.
\<close>

lemma try_actions_by:
  "(\<And>c. snd (CheckRBAC run cfg role rule user c) = (if g then Some Success_Handler else None)) \<Longrightarrow>
     snd (try_actions run cfg role rule user as c) =
       (if rc_Action cfg \<in> set as \<and> g then Some Success_Handler else None)"
proof (induction as arbitrary: c)
  case Nil
  then show ?case by simp
next
  case (Cons a as)
  obtain c' v where c': "CheckRBAC run cfg role rule user c = (c', v)" by fastforce
  from Cons.prems [of c] c' have "v = (if g then Some Success_Handler else None)" by simp
  with c' Cons show ?case by auto
qed

lemma try_rules_by:
  "(\<And>r c. r \<in> set rs \<Longrightarrow> rc_Action cfg \<in> set (ru_Actions r) \<Longrightarrow>
      snd (CheckRBAC run cfg role r user c) = (if g r then Some Success_Handler else None)) \<Longrightarrow>
     snd (try_rules run cfg role user rs c) =
       (if \<exists>r \<in> set rs. rc_Action cfg \<in> set (ru_Actions r) \<and> g r then Some Success_Handler else None)"
proof (induction rs arbitrary: c)
  case Nil
  then show ?case by simp
next
  case (Cons r rs)
  obtain c' v where c': "try_actions run cfg role r user (ru_Actions r) c = (c', v)" by fastforce
  have v: "v = (if rc_Action cfg \<in> set (ru_Actions r) \<and> g r then Some Success_Handler else None)"
  proof (cases "rc_Action cfg \<in> set (ru_Actions r)")
    case True
    with try_actions_by [of run cfg role r user "g r" "ru_Actions r" c] Cons.prems c' show ?thesis by simp
  next
    case False
    have "rc_Action cfg \<notin> set as \<Longrightarrow> try_actions run cfg role r user as c = (c, None)" for as
      by (induction as) auto
    with False c' show ?thesis by simp
  qed
  have IH: "snd (try_rules run cfg role user rs c') =
      (if \<exists>r \<in> set rs. rc_Action cfg \<in> set (ru_Actions r) \<and> g r then Some Success_Handler else None)"
    by (rule Cons.IH) (simp add: Cons.prems)
  with c' v show ?case by auto
qed

lemma try_roles_by:
  "(\<And>ro r c. names_action (rc_Action cfg) roles r \<Longrightarrow>
      snd (CheckRBAC run cfg ro r user c) = (if g r then Some Success_Handler else None)) \<Longrightarrow>
     snd (try_roles run cfg user roles c) =
       (if \<exists>r. names_action (rc_Action cfg) roles r \<and> g r then Some Success_Handler else None)"
proof (induction roles arbitrary: c)
  case Nil
  then show ?case by (simp add: names_action_def)
next
  case (Cons ro rs)
  obtain c' v where c': "try_rules run cfg ro user (ro_Rules ro) c = (c', v)" by fastforce
  have "snd (try_rules run cfg ro user (ro_Rules ro) c) =
      (if \<exists>r \<in> set (ro_Rules ro). rc_Action cfg \<in> set (ru_Actions r) \<and> g r then Some Success_Handler else None)"
    by (rule try_rules_by, rule Cons.prems) (auto simp: names_action_def)
  with c' have v: "v = (if \<exists>r \<in> set (ro_Rules ro). rc_Action cfg \<in> set (ru_Actions r) \<and> g r
      then Some Success_Handler else None)" by simp
  have IH: "snd (try_roles run cfg user rs c') =
      (if \<exists>r. names_action (rc_Action cfg) rs r \<and> g r then Some Success_Handler else None)"
    by (rule Cons.IH, rule Cons.prems) (auto simp: names_action_def)
  have "(\<exists>r. names_action (rc_Action cfg) (ro # rs) r \<and> g r) \<longleftrightarrow>
      (\<exists>r \<in> set (ro_Rules ro). rc_Action cfg \<in> set (ru_Actions r) \<and> g r) \<or>
      (\<exists>r. names_action (rc_Action cfg) rs r \<and> g r)"
    by (auto simp: names_action_def)
  with c' v IH show ?case by auto
qed

text \<open>The three deserialising loops are one loop.\<close>

fun add_each ::
    "('s \<Rightarrow> string) \<Rightarrow> (string \<Rightarrow> go_error) \<Rightarrow> ('s \<Rightarrow> go_error + 'v) \<Rightarrow> (string \<rightharpoonup> 'v) \<Rightarrow> 's list \<Rightarrow>
       go_error + (string \<rightharpoonup> 'v)" where
  "add_each key err mk m [] = Inr m"
| "add_each key err mk m (s # ss) =
     (if m (key s) \<noteq> None then Inl (err (key s))
      else case mk s of Inl e \<Rightarrow> Inl e | Inr v \<Rightarrow> add_each key err mk (m(key s \<mapsto> v)) ss)"

lemma add_rules_each:
  "add_rules parse m ss = add_each sr_Id (\<lambda>k. Error (''RBAC Rule id must be unique: '' @ k))
     (\<lambda>s. map_sum id (\<lambda>a. \<lparr>ru_Id = sr_Id s, ru_Actions = sr_Actions s, ru_Abac = a\<rparr>) (makeABAC parse (sr_JQAbac s))) m ss"
  by (induction ss arbitrary: m) (auto split: sum.splits)

lemma add_roles_each:
  "add_roles rules m ss = add_each sl_Id (\<lambda>k. Error (''RBAC Role id must be unique: '' @ k))
     (\<lambda>s. map_sum id (\<lambda>rs. \<lparr>ro_Id = sl_Id s, ro_Description = sl_Description s, ro_Rules = rs\<rparr>)
        (lookup_each (\<lambda>n. Error (''RBAC Rule id not found for role: '' @ sl_Id s)) rules (sl_Rules s))) m ss"
  by (induction ss arbitrary: m) (auto split: sum.splits)

lemma add_users_each:
  "add_users roles m ss = add_each su_Id (\<lambda>k. Error (''RBAC user id must be unique: '' @ k))
     (\<lambda>s. map_sum id (\<lambda>rs. \<lparr>us_Id = su_Id s, us_Description = su_Description s, us_Roles = rs\<rparr>)
        (lookup_each (\<lambda>n. Error (''RBAC Role id not found for user: '' @ su_Id s)) roles (su_Roles s))) m ss"
  by (induction ss arbitrary: m) (auto split: sum.splits)

lemma add_each_ok:
  "add_each key err mk m ss = Inr m' \<longleftrightarrow>
     distinct (map key ss) \<and> (\<forall>s \<in> set ss. m (key s) = None) \<and>
     (\<forall>s \<in> set ss. \<exists>v. mk s = Inr v \<and> m' (key s) = Some v) \<and> (\<forall>k. k \<notin> key ` set ss \<longrightarrow> m' k = m k)"
proof (induction ss arbitrary: m)
  case Nil
  then show ?case by auto
next
  case (Cons s ss)
  show ?case
  proof (cases "mk s")
    case (Inl e)
    then show ?thesis by auto
  next
    case (Inr v)
    then have "add_each key err mk m (s # ss) = Inr m' \<longleftrightarrow>
        m (key s) = None \<and> add_each key err mk (m(key s \<mapsto> v)) ss = Inr m'" by simp
    also have "\<dots> \<longleftrightarrow> m (key s) = None \<and> distinct (map key ss) \<and> (\<forall>t \<in> set ss. (m(key s \<mapsto> v)) (key t) = None) \<and>
        (\<forall>t \<in> set ss. \<exists>v. mk t = Inr v \<and> m' (key t) = Some v) \<and>
        (\<forall>k. k \<notin> key ` set ss \<longrightarrow> m' k = (m(key s \<mapsto> v)) k)"
      by (simp only: Cons.IH)
    also have "\<dots> \<longleftrightarrow> distinct (map key (s # ss)) \<and> (\<forall>t \<in> set (s # ss). m (key t) = None) \<and>
        (\<forall>t \<in> set (s # ss). \<exists>v. mk t = Inr v \<and> m' (key t) = Some v) \<and>
        (\<forall>k. k \<notin> key ` set (s # ss) \<longrightarrow> m' k = m k)" (is "?L \<longleftrightarrow> ?R")
    proof
      assume L: ?L
      then have ne: "key t \<noteq> key s" if "t \<in> set ss" for t using that by (metis fun_upd_same option.distinct(1))
      then have notin: "key s \<notin> key ` set ss" by (metis imageE)
      then have ms: "m' (key s) = Some v" using L by simp
      have "m (key t) = None" if "t \<in> set ss" for t using L ne [OF that] that by (metis fun_upd_other)
      moreover have "m' k = m k" if "k \<notin> key ` set (s # ss)" for k using L that by simp
      ultimately show ?R using L notin ms Inr by simp
    next
      assume R: ?R
      then have ne: "key t \<noteq> key s" if "t \<in> set ss" for t using that by (metis distinct.simps(2) image_eqI list.set_map list.simps(9))
      have ms: "m' (key s) = Some v" using R Inr by simp
      have "m' k = (m(key s \<mapsto> v)) k" if "k \<notin> key ` set ss" for k
        using R that ms by (cases "k = key s") auto
      with R ne show ?L by simp
    qed
    finally show ?thesis .
  qed
qed

lemma deserialize_parts:
  "DeserializeRBACConfig parse s = Inr r \<longleftrightarrow>
     add_rules parse Map.empty (sb_Rules s) = Inr (rb_Rules r) \<and>
     add_roles (rb_Rules r) Map.empty (sb_Roles s) = Inr (rb_Roles r) \<and>
     add_users (rb_Roles r) Map.empty (sb_Users s) = Inr (rb_Users r)"
  by (cases r) (auto simp: DeserializeRBACConfig_def split: sum.splits)

text \<open>What a loaded rule, role and user is.\<close>

lemma add_each_get:
  assumes "add_each key err (\<lambda>s. map_sum id (F s) (G s)) Map.empty ss = Inr m" and "s \<in> set ss"
  shows "\<exists>x. G s = Inr x \<and> m (key s) = Some (F s x)"
proof -
  from assms obtain v where "map_sum id (F s) (G s) = Inr v" "m (key s) = Some v"
    unfolding add_each_ok by blast
  then show ?thesis by (cases "G s") auto
qed

lemma add_each_from:
  "add_each key err mk Map.empty ss = Inr m \<Longrightarrow> m k = Some v \<Longrightarrow> \<exists>s \<in> set ss. key s = k"
  unfolding add_each_ok by (metis imageE option.distinct(1))

lemma loaded_rule:
  "add_rules parse Map.empty ss = Inr m \<Longrightarrow> ru \<in> set ss \<Longrightarrow>
     \<exists>a. makeABAC parse (sr_JQAbac ru) = Inr a \<and>
       m (sr_Id ru) = Some \<lparr>ru_Id = sr_Id ru, ru_Actions = sr_Actions ru, ru_Abac = a\<rparr>"
  unfolding add_rules_each by (rule add_each_get)

lemma loaded_role:
  "add_roles rules Map.empty ss = Inr m \<Longrightarrow> ro \<in> set ss \<Longrightarrow>
     \<exists>rs. map rules (sl_Rules ro) = map Some rs \<and>
       m (sl_Id ro) = Some \<lparr>ro_Id = sl_Id ro, ro_Description = sl_Description ro, ro_Rules = rs\<rparr>"
  unfolding add_roles_each by (drule (1) add_each_get) (simp add: lookup_each_ok)

lemma loaded_user:
  "add_users roles Map.empty ss = Inr m \<Longrightarrow> u \<in> set ss \<Longrightarrow>
     \<exists>rs. map roles (su_Roles u) = map Some rs \<and>
       m (su_Id u) = Some \<lparr>us_Id = su_Id u, us_Description = su_Description u, us_Roles = rs\<rparr>"
  unfolding add_users_each by (drule (1) add_each_get) (simp add: lookup_each_ok)

lemma names_known:
  assumes "map m names = map Some xs" and "\<And>k v. m k = Some v \<Longrightarrow> k \<in> K"
  shows "set names \<subseteq> K"
proof
  fix n assume "n \<in> set names"
  then have "m n \<in> set (map Some xs)" unfolding assms(1) [symmetric] by simp
  then show "n \<in> K" using assms(2) by auto
qed

lemma names_ids:
  "map m names = map Some xs \<Longrightarrow> (\<And>k v. m k = Some v \<Longrightarrow> f v = k) \<Longrightarrow> map f xs = names"
  by (induction names arbitrary: xs) (auto simp: Cons_eq_map_conv)

lemma lookup_members:
  assumes "map m names = map Some xs"
  shows "x \<in> set xs \<longleftrightarrow> (\<exists>n \<in> set names. m n = Some x)"
proof -
  have "m ` set names = Some ` set xs" using arg_cong [OF assms, of set] by simp
  then show ?thesis by (metis (mono_tags, lifting) imageE image_eqI option.inject)
qed

lemma lookup_each_total:
  "set names \<subseteq> K \<Longrightarrow> (\<And>k. k \<in> K \<Longrightarrow> m k \<noteq> None) \<Longrightarrow> \<exists>xs. lookup_each er m names = Inr xs"
  unfolding lookup_each_def by (intro collect_total) (auto split: option.splits)

lemma add_each_total:
  "distinct (map key ss) \<Longrightarrow> (\<And>x. x \<in> set ss \<Longrightarrow> \<exists>v. mk x = Inr v) \<Longrightarrow>
     (\<And>x. x \<in> set ss \<Longrightarrow> m (key x) = None) \<Longrightarrow> \<exists>m'. add_each key err mk m ss = Inr m'"
proof (induction ss arbitrary: m)
  case (Cons x xs)
  then obtain v where v: "mk x = Inr v" by fastforce
  have "\<exists>m'. add_each key err mk (m(key x \<mapsto> v)) xs = Inr m'"
    using Cons.prems by (intro Cons.IH) (auto simp: image_iff)
  with v Cons.prems show ?case by auto
qed simp

section \<open>Properties\<close>

lemma handler_no_condition:
  assumes "\<not> cx_superuser c" and "cx_roles c = Some (Some roles)" and "cx_user c = Some u"
  shows "if \<exists>rule. names_action action roles rule
     then \<exists>c'. NewRBACHandler run (RBACProtected True action None) c = Inr (c', Success_Handler)
     else \<exists>c'. NewRBACHandler run (RBACProtected True action None) c = Inr (c', Error_Handler None) \<and> cx_rbac c' = Some [(''user'', u), (''action'', action)]"
proof -
  let ?cfg = "RBACProtected True action None"
  have "snd (CheckRBAC run ?cfg ro r u c) = (if True then Some Success_Handler else None)" for ro r c
    by (simp add: CheckRBAC_def RBACProtected_def Let_def split: option.splits)
  from try_roles_by [of ?cfg roles run u "\<lambda>_. True" c, OF this]
  have "snd (try_roles run ?cfg u roles c) =
      (if \<exists>r. names_action action roles r then Some Success_Handler else None)"
    by (simp add: RBACProtected_def)
  then show ?thesis
    using assms
    by (cases "try_roles run ?cfg u roles c") (auto simp: NewRBACHandler_def RBACProtected_def)
qed

text \<open>
  As the routes install it, without a condition handler, the handler lets a user's request pass
  exactly when one of the user's roles has a rule that names the action, whatever condition (\<^verbatim>\<open>abac\<close>)
  the rule has; otherwise it calls the error handler without an error, which is a 403.
\<close>

theorem rbac_grants_by_rule:
  assumes "\<not> cx_superuser c" and "cx_roles c = Some (Some roles)" and "cx_user c = Some u"
  shows "\<exists>c' v. NewRBACHandler run (RBACProtected True action None) c = Inr (c', v) \<and>
     (passes v \<longleftrightarrow> (\<exists>rule. names_action action roles rule)) \<and> (\<not> passes v \<longrightarrow> http_status v = Some 403)"
proof (cases "\<exists>rule. names_action action roles rule")
  case True
  with handler_no_condition [OF assms, of action run] obtain c' where
    "NewRBACHandler run (RBACProtected True action None) c = Inr (c', Success_Handler)" by auto
  with True show ?thesis by (simp add: passes_def)
next
  case False
  with handler_no_condition [OF assms, of action run] obtain c' where
    "NewRBACHandler run (RBACProtected True action None) c = Inr (c', Error_Handler None)" by auto
  with False show ?thesis by (simp add: passes_def http_status_def)
qed

definition sample_ctx :: "string ctx" where
  "sample_ctx = \<lparr>cx_superuser = False,
     cx_roles = Some (Some [\<lparr>ro_Id = ''r'', ro_Description = [], ro_Rules =
       [\<lparr>ru_Id = ''x'', ru_Actions = [''GetRecords''], ru_Abac = Some \<lparr>ab_JqDef = ''f'', ab_JqFilter = ''f''\<rparr>\<rparr>]\<rparr>]),
     cx_user = Some ''u'', cx_rbac = None, cx_abac = None\<rparr>"

lemma rbac_grants_by_rule_witness:
  "\<exists>c' v. NewRBACHandler (\<lambda>q (p :: nat iface). [IBool False]) (RBACProtected True ''GetRecords'' None) sample_ctx =
     Inr (c', v) \<and> passes v"
  using rbac_grants_by_rule [of sample_ctx "the (the (cx_roles sample_ctx))" "''u''" "\<lambda>q (p :: nat iface). [IBool False]" "''GetRecords''"]
  by (auto simp: sample_ctx_def names_action_def)

text \<open>
  C24: with a condition handler that gives the properties \<open>ps\<close>, and conditions that evaluate without
  error, the request passes exactly when some rule of the user's roles names the action and its
  condition holds of \<open>ps\<close>; so a rule whose condition fails never stops a later one from granting.
\<close>

theorem abac_grants_iff:
  assumes "\<not> cx_superuser c" and "cx_roles c = Some (Some roles)" and "cx_user c = Some u"
    and "\<forall>rule a. names_action action roles rule \<longrightarrow> ru_Abac rule = Some a \<longrightarrow> (\<exists>b. CheckABAC run ps a = Inr b)"
  shows "\<exists>c' v. NewRBACHandler run (RBACProtected True action (Some (\<lambda>_. Inr ps))) c = Inr (c', v) \<and>
     (passes v \<longleftrightarrow> (\<exists>rule. names_action action roles rule \<and>
        (\<forall>a. ru_Abac rule = Some a \<longrightarrow> CheckABAC run ps a = Inr True)))"
proof -
  let ?cfg = "RBACProtected True action (Some (\<lambda>_. Inr ps))"
  let ?g = "\<lambda>rule. \<forall>a. ru_Abac rule = Some a \<longrightarrow> CheckABAC run ps a = Inr True"
  have "snd (CheckRBAC run ?cfg ro r u c) = (if ?g r then Some Success_Handler else None)"
    if n: "names_action (rc_Action ?cfg) roles r" for ro r c
  proof (cases "ru_Abac r")
    case None
    then show ?thesis by (simp add: CheckRBAC_def RBACProtected_def Let_def)
  next
    case (Some a)
    with n assms(4) obtain b where "CheckABAC run ps a = Inr b" by (auto simp: RBACProtected_def)
    with Some show ?thesis by (simp add: CheckRBAC_def RBACProtected_def Let_def)
  qed
  from try_roles_by [of ?cfg roles run u ?g c, OF this]
  have "snd (try_roles run ?cfg u roles c) =
      (if \<exists>r. names_action action roles r \<and> ?g r then Some Success_Handler else None)"
    by (simp add: RBACProtected_def)
  then show ?thesis
    using assms(1-3)
    by (cases "try_roles run ?cfg u roles c")
      (auto simp: NewRBACHandler_def RBACProtected_def passes_def split: option.splits if_splits)
qed

lemma abac_grants_iff_witness:
  "\<exists>c' v. NewRBACHandler (\<lambda>q p. [IBool False]) (RBACProtected True ''GetRecords'' (Some (\<lambda>_. Inr (IOther (0::nat))))) sample_ctx =
     Inr (c', v) \<and> \<not> passes v"
  using abac_grants_iff [of sample_ctx "the (the (cx_roles sample_ctx))" "''u''" "''GetRecords''"
      "\<lambda>q p. [IBool False]" "IOther (0::nat)"]
  by (auto simp: sample_ctx_def names_action_def CheckABAC_def)

text \<open>
  C25: the configuration is loaded exactly when the ids of rules, of roles and of users are unique,
  every rule and role that is referred to is defined, and every condition parses.
\<close>

theorem rbac_config_loads_iff:
  "(\<exists>r. DeserializeRBACConfig parse s = Inr r) \<longleftrightarrow>
     distinct (map sr_Id (sb_Rules s)) \<and> distinct (map sl_Id (sb_Roles s)) \<and> distinct (map su_Id (sb_Users s)) \<and>
     (\<forall>ru \<in> set (sb_Rules s). sr_JQAbac ru = [] \<or> (\<exists>q. parse (sr_JQAbac ru) = Inr q)) \<and>
     (\<forall>ro \<in> set (sb_Roles s). set (sl_Rules ro) \<subseteq> sr_Id ` set (sb_Rules s)) \<and>
     (\<forall>u \<in> set (sb_Users s). set (su_Roles u) \<subseteq> sl_Id ` set (sb_Roles s))" (is "?L \<longleftrightarrow> ?R")
proof
  assume ?L
  then obtain r where "DeserializeRBACConfig parse s = Inr r" by blast
  then have p: "add_rules parse Map.empty (sb_Rules s) = Inr (rb_Rules r)"
    "add_roles (rb_Rules r) Map.empty (sb_Roles s) = Inr (rb_Roles r)"
    "add_users (rb_Roles r) Map.empty (sb_Users s) = Inr (rb_Users r)" by (simp_all add: deserialize_parts)
  have d: "distinct (map sr_Id (sb_Rules s))" "distinct (map sl_Id (sb_Roles s))" "distinct (map su_Id (sb_Users s))"
    using p by (simp_all add: add_rules_each add_roles_each add_users_each add_each_ok)
  have j: "sr_JQAbac ru = [] \<or> (\<exists>q. parse (sr_JQAbac ru) = Inr q)" if "ru \<in> set (sb_Rules s)" for ru
    using loaded_rule [OF p(1) that] by (auto simp: makeABAC_def split: if_splits sum.splits)
  have ro: "set (sl_Rules ro) \<subseteq> sr_Id ` set (sb_Rules s)" if "ro \<in> set (sb_Roles s)" for ro
    using loaded_role [OF p(2) that] names_known add_each_from [OF p(1) [unfolded add_rules_each]] by (metis imageI)
  have us: "set (su_Roles u) \<subseteq> sl_Id ` set (sb_Roles s)" if "u \<in> set (sb_Users s)" for u
    using loaded_user [OF p(3) that] names_known add_each_from [OF p(2) [unfolded add_roles_each]] by (metis imageI)
  from d j ro us show ?R by blast
next
  assume R: ?R
  have "\<exists>v. makeABAC parse (sr_JQAbac ru) = Inr v" if "ru \<in> set (sb_Rules s)" for ru
    using R that by (fastforce simp: makeABAC_def)
  then have "\<exists>m. add_rules parse Map.empty (sb_Rules s) = Inr m"
    unfolding add_rules_each using R by (intro add_each_total) fastforce+
  then obtain rules where rules: "add_rules parse Map.empty (sb_Rules s) = Inr rules" by blast
  have kr: "rules k \<noteq> None" if "k \<in> sr_Id ` set (sb_Rules s)" for k using loaded_rule [OF rules] that by auto
  have "\<exists>v. map_sum id f (lookup_each er rules (sl_Rules ro)) = Inr v"
    if "ro \<in> set (sb_Roles s)" for ro er and f :: "'a rule list \<Rightarrow> 'a role"
    using lookup_each_total [of "sl_Rules ro" "sr_Id ` set (sb_Rules s)" rules er] R that kr by auto
  then have "\<exists>m. add_roles rules Map.empty (sb_Roles s) = Inr m"
    unfolding add_roles_each using R by (intro add_each_total) auto
  then obtain roles where roles: "add_roles rules Map.empty (sb_Roles s) = Inr roles" by blast
  have ko: "roles k \<noteq> None" if "k \<in> sl_Id ` set (sb_Roles s)" for k using loaded_role [OF roles] that by auto
  have "\<exists>v. map_sum id f (lookup_each er roles (su_Roles u)) = Inr v"
    if "u \<in> set (sb_Users s)" for u er and f :: "'a role list \<Rightarrow> 'a user"
    using lookup_each_total [of "su_Roles u" "sl_Id ` set (sb_Roles s)" roles er] R that ko by auto
  then have "\<exists>m. add_users roles Map.empty (sb_Users s) = Inr m"
    unfolding add_users_each using R by (intro add_each_total) auto
  with rules roles show ?L by (auto simp: DeserializeRBACConfig_def)
qed

lemma loaded_user_grants:
  assumes "DeserializeRBACConfig parse s = Inr r" and "u \<in> set (sb_Users s)"
  shows "GetUserRoles r (su_Id u) = Inr (su_Roles u) \<and>
     (\<exists>roles. GetRoles r (su_Roles u) = Inr roles \<and>
       ((\<exists>rule. names_action a roles rule) \<longleftrightarrow>
        (\<exists>ro \<in> set (sb_Roles s). \<exists>ru \<in> set (sb_Rules s).
           sl_Id ro \<in> set (su_Roles u) \<and> sr_Id ru \<in> set (sl_Rules ro) \<and> a \<in> set (sr_Actions ru))))"
proof -
  from assms(1) have p: "add_rules parse Map.empty (sb_Rules s) = Inr (rb_Rules r)"
    "add_roles (rb_Rules r) Map.empty (sb_Roles s) = Inr (rb_Roles r)"
    "add_users (rb_Roles r) Map.empty (sb_Users s) = Inr (rb_Users r)" by (simp_all add: deserialize_parts)
  note role_from = add_each_from [OF p(2) [unfolded add_roles_each]]
  note rule_from = add_each_from [OF p(1) [unfolded add_rules_each]]
  from loaded_user [OF p(3) assms(2)] obtain roles where
    roles: "map (rb_Roles r) (su_Roles u) = map Some roles"
      "rb_Users r (su_Id u) = Some \<lparr>us_Id = su_Id u, us_Description = su_Description u, us_Roles = roles\<rparr>"
    by blast
  have id: "ro_Id v = k" if "rb_Roles r k = Some v" for k v
    using role_from [OF that] loaded_role [OF p(2)] that by fastforce
  have "map ro_Id roles = su_Roles u" by (rule names_ids [OF roles(1) id])
  then have ids: "GetUserRoles r (su_Id u) = Inr (su_Roles u)" and "GetRoles r (su_Roles u) = Inr roles"
    using roles by (simp_all add: GetUserRoles_def user_GetRoles_def GetRoles_def lookup_each_ok)
  moreover have "(\<exists>rule. names_action a roles rule) \<longleftrightarrow>
      (\<exists>ro \<in> set (sb_Roles s). \<exists>ru \<in> set (sb_Rules s).
         sl_Id ro \<in> set (su_Roles u) \<and> sr_Id ru \<in> set (sl_Rules ro) \<and> a \<in> set (sr_Actions ru))"
  proof
    assume "\<exists>rule. names_action a roles rule"
    then obtain v rule where v: "v \<in> set roles" "rule \<in> set (ro_Rules v)" "a \<in> set (ru_Actions rule)"
      by (auto simp: names_action_def)
    from v(1) obtain n where n: "n \<in> set (su_Roles u)" "rb_Roles r n = Some v"
      unfolding lookup_members [OF roles(1)] by blast
    from role_from [OF n(2)] obtain ro where ro: "ro \<in> set (sb_Roles s)" "sl_Id ro = n" by blast
    from loaded_role [OF p(2) ro(1)] ro(2) n(2) have rs: "map (rb_Rules r) (sl_Rules ro) = map Some (ro_Rules v)" by auto
    from v(2) obtain k where k: "k \<in> set (sl_Rules ro)" "rb_Rules r k = Some rule"
      unfolding lookup_members [OF rs] by blast
    from rule_from [OF k(2)] obtain ru where ru: "ru \<in> set (sb_Rules s)" "sr_Id ru = k" by blast
    from loaded_rule [OF p(1) ru(1)] ru(2) k(2) v(3) have "a \<in> set (sr_Actions ru)" by auto
    with n ro k ru show "\<exists>ro \<in> set (sb_Roles s). \<exists>ru \<in> set (sb_Rules s).
        sl_Id ro \<in> set (su_Roles u) \<and> sr_Id ru \<in> set (sl_Rules ro) \<and> a \<in> set (sr_Actions ru)" by blast
  next
    assume "\<exists>ro \<in> set (sb_Roles s). \<exists>ru \<in> set (sb_Rules s).
        sl_Id ro \<in> set (su_Roles u) \<and> sr_Id ru \<in> set (sl_Rules ro) \<and> a \<in> set (sr_Actions ru)"
    then obtain ro ru where o: "ro \<in> set (sb_Roles s)" "ru \<in> set (sb_Rules s)" "sl_Id ro \<in> set (su_Roles u)"
      "sr_Id ru \<in> set (sl_Rules ro)" "a \<in> set (sr_Actions ru)" by blast
    from loaded_role [OF p(2) o(1)] obtain v where v: "rb_Roles r (sl_Id ro) = Some v"
      "map (rb_Rules r) (sl_Rules ro) = map Some (ro_Rules v)" by force
    from loaded_rule [OF p(1) o(2)] o(5) obtain rule where rule: "rb_Rules r (sr_Id ru) = Some rule"
      "a \<in> set (ru_Actions rule)" by force
    have "v \<in> set roles" using lookup_members [OF roles(1)] o(3) v(1) by blast
    moreover have "rule \<in> set (ro_Rules v)" using lookup_members [OF v(2)] o(4) rule(1) by blast
    ultimately show "\<exists>rule. names_action a roles rule" using rule(2) by (auto simp: names_action_def)
  qed
  ultimately show ?thesis by blast
qed

text \<open>
  What a user may do is what the file says. Once the configuration is loaded, the roles of a
  configured user are the listed ones, looking them up by name succeeds (as is done with the roles
  of a token), and they have a rule for an action exactly when a listed role lists a rule that lists
  the action.
\<close>

theorem loaded_user_may:
  assumes "DeserializeRBACConfig parse s = Inr r" and "u \<in> set (sb_Users s)"
  shows "GetUserRoles r (su_Id u) = Inr (su_Roles u) \<and>
     (\<exists>roles. GetRoles r (su_Roles u) = Inr roles \<and>
       ((\<exists>rule. names_action a roles rule) \<longleftrightarrow>
        (\<exists>ro \<in> set (sb_Roles s). \<exists>ru \<in> set (sb_Rules s).
           sl_Id ro \<in> set (su_Roles u) \<and> sr_Id ru \<in> set (sl_Rules ro) \<and> a \<in> set (sr_Actions ru))))"
  by (rule loaded_user_grants [OF assms])

definition sample_rbac :: s_rbac where
  "sample_rbac = \<lparr>
     sb_Users = [\<lparr>su_Id = ''joe'', su_Description = [], su_Roles = [''reader'']\<rparr>],
     sb_Roles = [\<lparr>sl_Id = ''reader'', sl_Description = [], sl_Rules = [''read'']\<rparr>],
     sb_Rules = [\<lparr>sr_Id = ''read'', sr_Actions = [''GetRecords''], sr_JQAbac = []\<rparr>]\<rparr>"

lemma rbac_config_loads_iff_witness:
  "\<exists>r. DeserializeRBACConfig (\<lambda>s. Inr s) sample_rbac = Inr r"
  using rbac_config_loads_iff [of "\<lambda>s. Inr s" sample_rbac] by (simp add: sample_rbac_def)

lemma loaded_user_may_witness:
  "\<exists>r roles. DeserializeRBACConfig (\<lambda>s. Inr s) sample_rbac = Inr r \<and> GetRoles r [''reader''] = Inr roles \<and>
     (\<exists>rule. names_action ''GetRecords'' roles rule) \<and> \<not> (\<exists>rule. names_action ''PutRecord'' roles rule)"
proof -
  have "\<exists>r. DeserializeRBACConfig (\<lambda>s. Inr s) sample_rbac = Inr r"
    by (simp add: DeserializeRBACConfig_def sample_rbac_def makeABAC_def lookup_each_def)
  then obtain r where d: "DeserializeRBACConfig (\<lambda>s. Inr s) sample_rbac = Inr r" by blast
  have u: "\<lparr>su_Id = ''joe'', su_Description = [], su_Roles = [''reader'']\<rparr> \<in> set (sb_Users sample_rbac)"
    by (simp add: sample_rbac_def)
  from loaded_user_may [OF d u, of "''GetRecords''"] loaded_user_may [OF d u, of "''PutRecord''"] d
  show ?thesis by (auto simp: sample_rbac_def)
qed

text \<open>
  The manager starts exactly when every action of every rule is one of the known actions; the
  order in which the map of rules is visited does not matter.
\<close>

theorem manager_accepts_iff:
  assumes "range_order (rb_Rules r) ks"
  shows "(\<exists>m. NewRBACManager True (Inr r) ks = Inr m) \<longleftrightarrow>
     (\<forall>k rule. rb_Rules r k = Some rule \<longrightarrow> set (ru_Actions rule) \<subseteq> set ActionList)"
proof -
  let ?m = "\<lparr>mg_ActionList = ActionList, mg_Rbac = Some r, mg_enabled = True\<rparr>"
  have valid: "IsValidAction ?m a \<longleftrightarrow> a \<in> set ActionList" for a
    by (auto simp: IsValidAction_def list_ex_iff)
  have v: "validate_rules ?m rs = None \<longleftrightarrow> (\<forall>rule \<in> set rs. set (ru_Actions rule) \<subseteq> set ActionList)" for rs
  proof (induction rs)
    case (Cons rule rs)
    have "List.find (\<lambda>a. \<not> IsValidAction ?m a) (ru_Actions rule) = None \<longleftrightarrow> set (ru_Actions rule) \<subseteq> set ActionList"
      unfolding find_None_iff valid by auto
    with Cons show ?case by (auto split: option.splits)
  qed simp
  have rules: "set (List.map_filter (rb_Rules r) ks) = ran (rb_Rules r)"
    using assms by (force simp: range_order_def map_filter_def ran_def dom_def image_iff)
  have "(\<exists>m. NewRBACManager True (Inr r) ks = Inr m) \<longleftrightarrow>
      validate_rules ?m (List.map_filter (rb_Rules r) ks) = None"
    by (simp add: NewRBACManager_def mgr_Initialize_def LoadConfiguration_def ValidateActions_def Let_def
        split: option.splits)
  also have "\<dots> \<longleftrightarrow> (\<forall>rule \<in> ran (rb_Rules r). set (ru_Actions rule) \<subseteq> set ActionList)"
    unfolding v rules ..
  finally show ?thesis by (auto simp: ran_def)
qed

lemma manager_accepts_iff_witness:
  "\<not> (\<exists>m. NewRBACManager True (Inr (\<lparr>rb_Users = Map.empty, rb_Roles = Map.empty,
      rb_Rules = [''x'' \<mapsto> \<lparr>ru_Id = ''x'', ru_Actions = [''Fly''], ru_Abac = None\<rparr>]\<rparr> :: nat rbac)) [''x''] = Inr m)"
proof -
  let ?r = "\<lparr>rb_Users = Map.empty, rb_Roles = Map.empty,
      rb_Rules = [''x'' \<mapsto> \<lparr>ru_Id = ''x'', ru_Actions = [''Fly''], ru_Abac = None\<rparr>]\<rparr> :: nat rbac"
  have "range_order (rb_Rules ?r) [''x'']" by (simp add: range_order_def)
  from manager_accepts_iff [OF this] show ?thesis by (simp add: ActionList_def)
qed

end
