(* ===== verification/WebApi.thy ===== *)
theory WebApi
  imports WebRequest Dedup Service Rbac
begin

text \<open>
  The handlers of the stream routes (web/apistream.go, web/abac.go, web/apiresult.go, stream/responses.go,
  web/apiutils.go) over the stream service and the request deduplicator. The texts of the requests and the
  decoded bodies are arguments; \<open>parse_uuid\<close> is \<^verbatim>\<open>uuid.Parse\<close> and \<open>show_uuid\<close> its \<^verbatim>\<open>String\<close>. The fields
  \<^verbatim>\<open>Duration\<close>, \<^verbatim>\<open>Status\<close> and \<^verbatim>\<open>Message\<close> of the responses, which are constants or clock readings, are left out.
\<close>

section \<open>State and responses\<close>

record ('x, 'p, 'w, 'h, 'q) web =
  wb_service :: "('x, 'p, 'w, 'h, 'q) service"
  wb_reqDedupManager :: dedup

record put_response =
  pu_StreamUUID :: uuid
  pu_Count :: nat
  pu_MessageIds :: "u64 list"

record iterator_response =
  ir_StreamUUID :: uuid
  ir_StreamIteratorUUID :: uuid

record stats_response = iterator_response +
  ir_LastRecordIdRead :: u64
  ir_Name :: string

record 'x list_row =
  lr_UUID :: uuid
  lr_CptMessages :: u64
  lr_SizeInBytes :: u64
  lr_CreationDate :: time
  lr_LastUpdate :: time
  lr_Properties :: "'x props"
  lr_FirstMsgId :: u64
  lr_LastMsgId :: u64

record 'x list_result =
  ls_Total :: nat
  ls_Rows :: "'x list_row list"

section \<open>Helpers\<close>

definition getJQFromString :: "(string \<Rightarrow> go_error + 'q) \<Rightarrow> string \<Rightarrow> go_error + 'q option" where
  "getJQFromString parse jq =
     (if jq = [] then Inr None else case parse jq of Inl e \<Rightarrow> Inl e | Inr q \<Rightarrow> Inr (Some q))"

definition convertToProperties :: "(string \<rightharpoonup> string) option \<Rightarrow> 'x props" where
  "convertToProperties propertiesMap =
     Some (case propertiesMap of None \<Rightarrow> Map.empty | Some m \<Rightarrow> (\<lambda>k. map_option IStr (m k)))"

definition list_row_of :: "'x stream_info \<Rightarrow> 'x list_row" where
  "list_row_of info = \<lparr>lr_UUID = si_UUID info, lr_CptMessages = CptMessages (ReadableMessages info),
     lr_SizeInBytes = SizeInBytes (ReadableMessages info), lr_CreationDate = si_CreationDate info,
     lr_LastUpdate = si_LastUpdate info, lr_Properties = si_Properties info,
     lr_FirstMsgId = FirstMsgId (ReadableMessages info), lr_LastMsgId = LastMsgId (ReadableMessages info)\<rparr>"

definition convertStreamListToJsonResult :: "('x, 'w, 'it) stream list \<Rightarrow> 'x list_result" where
  "convertStreamListToJsonResult streams =
     \<lparr>ls_Total = length streams, ls_Rows = map (\<lambda>s. list_row_of (st_info s)) streams\<rparr>"

definition GetStreamUUIDFromParameter :: "(string \<Rightarrow> go_error + uuid) \<Rightarrow> string \<Rightarrow> api_error + uuid" where
  "GetStreamUUIDFromParameter parse_uuid param =
     (case parse_uuid param of
        Inl e \<Rightarrow> Inl ((simple_error 400 ErrorInvalidStreamUuid ''invalid stream uuid'' None)
          \<lparr>ae_ValidationErrors := [(''streamuuid'', ''parameter'', param)]\<rparr>)
      | Inr u \<Rightarrow> Inr u)"

definition GetStreamFromParameter ::
    "(string \<Rightarrow> go_error + uuid) \<Rightarrow> (uuid \<Rightarrow> string) \<Rightarrow> string \<Rightarrow> ('x, 'p, 'w, 'h, 'q) service \<Rightarrow>
       api_error + uuid \<times> ('x, 'w, 'h, 'q) svc_stream" where
  "GetStreamFromParameter parse_uuid show_uuid param svc =
     (case GetStreamUUIDFromParameter parse_uuid param of
        Inl e \<Rightarrow> Inl e
      | Inr u \<Rightarrow>
          (case GetStream u svc of
             None \<Rightarrow> Inl ((simple_error 400 ErrorStreamUuidNotFound ''stream not found'' None)
               \<lparr>ae_StreamUUID := u, ae_ValidationErrors := [(''streamuuid'', ''parameter'', show_uuid u)]\<rparr>)
           | Some s \<Rightarrow> Inr (u, s)))"

definition GetStreamPropertiesForABAC ::
    "(string \<Rightarrow> go_error + uuid) \<Rightarrow> (uuid \<Rightarrow> string) \<Rightarrow> string \<Rightarrow> ('x, 'p, 'w, 'h, 'q) service \<Rightarrow>
       api_error + string \<times> 'x props" where
  "GetStreamPropertiesForABAC parse_uuid show_uuid param svc =
     map_sum id (\<lambda>(u, s). (show_uuid u, st_GetProperties s)) (GetStreamFromParameter parse_uuid show_uuid param svc)"

text \<open>The UUID of an iterator in the path; \<open>u\<close> is the UUID put into the error.\<close>

definition iterator_param ::
    "(string \<Rightarrow> go_error + uuid) \<Rightarrow> uuid \<Rightarrow> nat \<Rightarrow> string \<Rightarrow> string \<Rightarrow> api_error + uuid" where
  "iterator_param parse_uuid u code msg param =
     (case parse_uuid param of
        Inl e \<Rightarrow> Inl ((simple_error 400 code msg (Some e))
          \<lparr>ae_StreamUUID := u, ae_ValidationErrors := [(''streamiteratoruuid'', ''parameter'', param)]\<rparr>)
      | Inr itu \<Rightarrow> Inr itu)"

section \<open>Listing\<close>

definition invalid_jq :: "string \<Rightarrow> go_error \<Rightarrow> api_error" where
  "invalid_jq jq e = (simple_error 400 ErrorInvalidJQFilter ''invalid jq filter'' (Some e))
     \<lparr>ae_ValidationErrors := [(''jq'', ''JQ'', jq)]\<rparr>"

text \<open>\<open>ks\<close> is the order in which the runtime visits the table; \<open>None\<close>: the call never returns.\<close>

definition web_ListStreams ::
    "(string \<Rightarrow> go_error + 'q) \<Rightarrow> ('q \<Rightarrow> 'x props \<Rightarrow> 'x iface list) \<Rightarrow> string \<Rightarrow> 'q abac option \<Rightarrow> uuid list \<Rightarrow>
       ('x, 'p, 'w, 'h, 'r) service \<Rightarrow> uuid list response option" where
  "web_ListStreams parse run jqs abac ks svc =
     (case getJQFromString parse jqs of
        Inl e \<Rightarrow> Some (HTTPResponse (invalid_jq jqs e))
      | Inr jq \<Rightarrow>
          if jq = None \<and> abac = None then Some (Reply 200 ks)
          else map_option (Reply 200)
            (case abac of
               None \<Rightarrow> GetStreamsUUIDsFiltered run [jq] ks svc
             | Some a \<Rightarrow> GetStreamsUUIDsFiltered run [jq, Some (ab_JqFilter a)] ks svc))"

definition web_ListStreamsProperties ::
    "(string \<Rightarrow> go_error + 'q) \<Rightarrow> ('q \<Rightarrow> 'x props \<Rightarrow> 'x iface list) \<Rightarrow> string \<Rightarrow> 'q abac option \<Rightarrow> uuid list \<Rightarrow>
       ('x, 'p, 'w, 'h, 'r) service \<Rightarrow> 'x list_result response" where
  "web_ListStreamsProperties parse run jqs abac ks svc =
     (case getJQFromString parse jqs of
        Inl e \<Rightarrow> HTTPResponse (invalid_jq jqs e)
      | Inr jq \<Rightarrow>
          (let rows = (case abac of
                 None \<Rightarrow> GetStreamsFiltered run [jq] ks svc
               | Some a \<Rightarrow> GetStreamsFiltered run [jq, Some (ab_JqFilter a)] ks svc) in
           Reply 200 (convertStreamListToJsonResult rows)))"

section \<open>Streams\<close>

type_synonym properties_payload = "(string \<rightharpoonup> string) option"

text \<open>The result is \<open>None\<close> while the service still looks for a free UUID.\<close>

definition web_CreateStream ::
    "('x, 'p, 'w, 'h) provider_ops \<Rightarrow> ('x, 'w) writer_ops \<Rightarrow> (properties_payload \<Rightarrow> validation_errors) \<Rightarrow>
       time \<Rightarrow> uuid list \<Rightarrow> go_error + properties_payload option \<Rightarrow> ('x, 'p, 'w, 'h, 'q) service \<Rightarrow>
       (('x, 'p, 'w, 'h, 'q) service \<times> 'x stream_info response) option" where
  "web_CreateStream po wo validate now ds body svc =
     (case GetPayload validate body of
        Payload_Panic e \<Rightarrow> Some (svc, Crash e)
      | Payload_Error e \<Rightarrow> Some (svc, HTTPResponse e)
      | Payload properties \<Rightarrow>
          (case svc_CreateStream po wo now ds (convertToProperties properties) svc of
             None \<Rightarrow> None
           | Some (svc', made, Some e) \<Rightarrow> Some (svc',
               if is_panic e then Crash e
               else HTTPResponse (simple_error 400 ErrorCantCreateStream ''cannot create stream'' (Some e)))
           | Some (svc', made, None) \<Rightarrow> Some (svc',
               case Option.bind made (\<lambda>u. GetStream u svc') of
                 None \<Rightarrow> Crash (Panic ''nil pointer dereference'')
               | Some s \<Rightarrow> Reply 201 (st_info s))))"

text \<open>
  \<^verbatim>\<open>SetStreamProperties\<close> and \<^verbatim>\<open>UpdateStreamProperties\<close> are the same handler around the stream's own
  operation \<open>change\<close>.
\<close>

definition web_change_properties ::
    "('x props option \<Rightarrow> ('x, 'w, 'h, 'q) svc_stream \<Rightarrow> go_error + ('x, 'w, 'h, 'q) svc_stream) \<Rightarrow>
       (properties_payload \<Rightarrow> validation_errors) \<Rightarrow> (string \<Rightarrow> go_error + uuid) \<Rightarrow> (uuid \<Rightarrow> string) \<Rightarrow>
       string \<Rightarrow> go_error + properties_payload option \<Rightarrow> ('x, 'p, 'w, 'h, 'q) service \<Rightarrow>
       ('x, 'p, 'w, 'h, 'q) service \<times> 'x props response" where
  "web_change_properties change validate parse_uuid show_uuid param body svc =
     with_payload validate body svc (\<lambda>properties.
       case GetStreamFromParameter parse_uuid show_uuid param svc of
         Inl e \<Rightarrow> (svc, HTTPResponse e)
       | Inr (u, s) \<Rightarrow>
           (case change (Some (convertToProperties properties)) s of
              Inl e \<Rightarrow> (svc, Crash e)
            | Inr s' \<Rightarrow> (setStreamMap u (Some s') svc, Reply 200 (st_GetProperties s'))))"

definition web_SetStreamProperties ::
    "(properties_payload \<Rightarrow> validation_errors) \<Rightarrow> (string \<Rightarrow> go_error + uuid) \<Rightarrow> (uuid \<Rightarrow> string) \<Rightarrow>
       string \<Rightarrow> go_error + properties_payload option \<Rightarrow> ('x, 'p, 'w, 'h, 'q) service \<Rightarrow>
       ('x, 'p, 'w, 'h, 'q) service \<times> 'x props response" where
  "web_SetStreamProperties = web_change_properties st_SetProperties"

definition web_UpdateStreamProperties ::
    "(properties_payload \<Rightarrow> validation_errors) \<Rightarrow> (string \<Rightarrow> go_error + uuid) \<Rightarrow> (uuid \<Rightarrow> string) \<Rightarrow>
       string \<Rightarrow> go_error + properties_payload option \<Rightarrow> ('x, 'p, 'w, 'h, 'q) service \<Rightarrow>
       ('x, 'p, 'w, 'h, 'q) service \<times> 'x props response" where
  "web_UpdateStreamProperties = web_change_properties st_UpdateProperties"

definition web_GetStreamProperties ::
    "(string \<Rightarrow> go_error + uuid) \<Rightarrow> (uuid \<Rightarrow> string) \<Rightarrow> string \<Rightarrow> ('x, 'p, 'w, 'h, 'q) service \<Rightarrow> 'x props response" where
  "web_GetStreamProperties parse_uuid show_uuid param svc =
     (case GetStreamFromParameter parse_uuid show_uuid param svc of
        Inl e \<Rightarrow> HTTPResponse e | Inr (u, s) \<Rightarrow> Reply 200 (st_GetProperties s))"

definition web_GetStreamInformation ::
    "(string \<Rightarrow> go_error + uuid) \<Rightarrow> (uuid \<Rightarrow> string) \<Rightarrow> string \<Rightarrow> ('x, 'p, 'w, 'h, 'q) service \<Rightarrow>
       'x stream_info response" where
  "web_GetStreamInformation parse_uuid show_uuid param svc =
     (case GetStreamFromParameter parse_uuid show_uuid param svc of
        Inl e \<Rightarrow> HTTPResponse e | Inr (u, s) \<Rightarrow> Reply 200 (st_info s))"

definition web_DeleteStream ::
    "('x, 'p, 'w, 'h) provider_ops \<Rightarrow> ('x, 'w) writer_ops \<Rightarrow> ('h, 'r) handler_ops \<Rightarrow> nat \<times> uuid list \<Rightarrow>
       (string \<Rightarrow> go_error + uuid) \<Rightarrow> (uuid \<Rightarrow> string) \<Rightarrow> string \<Rightarrow> ('x, 'p, 'w, 'h, 'q) service \<Rightarrow>
       ('x, 'p, 'w, 'h, 'q) service \<times> unit response" where
  "web_DeleteStream po wo ho c parse_uuid show_uuid param svc =
     (case GetStreamFromParameter parse_uuid show_uuid param svc of
        Inl e \<Rightarrow> (svc, HTTPResponse e)
      | Inr (u, s) \<Rightarrow>
          (case svc_DeleteStream po wo ho c u svc of
             (svc', Some e) \<Rightarrow> (svc',
               if is_panic e then Crash e
               else HTTPResponse (simple_error 400 ErrorCantDeleteStream ''cannot delete stream'' (Some e)))
           | (svc', None) \<Rightarrow> (svc', Reply 200 ())))"

text \<open>\<open>ks\<close> is the order in which the iterators are closed.\<close>

definition web_RebuildIndex ::
    "('x, 'p, 'w, 'h) provider_ops \<Rightarrow> ('h, 'r) handler_ops \<Rightarrow> uuid list \<Rightarrow> (string \<Rightarrow> go_error + uuid) \<Rightarrow>
       (uuid \<Rightarrow> string) \<Rightarrow> string \<Rightarrow> ('x, 'p, 'w, 'h, 'q) service \<Rightarrow>
       ('x, 'p, 'w, 'h, 'q) service \<times> (uuid \<times> 'x iface) response" where
  "web_RebuildIndex po ho ks parse_uuid show_uuid param svc =
     (let cant = (\<lambda>s e. (simple_error 500 ErrorCantRebuildStreamIndex ''cannot rebuild stream index'' (Some e))
            \<lparr>ae_StreamUUID := GetUUID s\<rparr>) in
      case GetStreamFromParameter parse_uuid show_uuid param svc of
        Inl e \<Rightarrow> (svc, HTTPResponse e)
      | Inr (u, s) \<Rightarrow>
          (case CloseIterators (it_Close ho) ks s of
             (s', Some e) \<Rightarrow> (setStreamMap u (Some s') svc, HTTPResponse (cant s' e))
           | (s', None) \<Rightarrow>
               (case svc_BuildIndex po u (setStreamMap u (Some s') svc) of
                  (svc', Inl e) \<Rightarrow> (svc', if is_panic e then Crash e else HTTPResponse (cant s' e))
                | (svc', Inr stats) \<Rightarrow> (svc', Reply 200 (u, stats)))))"

section \<open>Record iterators\<close>

text \<open>\<open>schema\<close> is what \<^verbatim>\<open>ValidateStreamIteratorRequest\<close> says of the body.\<close>

definition web_CreateRecordsIterator ::
    "('x, 'p, 'w, 'h) provider_ops \<Rightarrow> ('h, 'r) handler_ops \<Rightarrow> (string \<Rightarrow> go_error + 'q) \<Rightarrow>
       (iterator_request \<Rightarrow> validation_errors) \<Rightarrow> uuid \<Rightarrow> (string \<Rightarrow> go_error + uuid) \<Rightarrow> (uuid \<Rightarrow> string) \<Rightarrow> string \<Rightarrow>
       go_error option \<Rightarrow> go_error + iterator_request option \<Rightarrow> ('x, 'p, 'w, 'h, 'q) service \<Rightarrow>
       ('x, 'p, 'w, 'h, 'q) service \<times> iterator_response response" where
  "web_CreateRecordsIterator po ho parse validate itu parse_uuid show_uuid param schema body svc =
     (case schema of
        Some e \<Rightarrow> (svc, HTTPResponse
          (simple_error 400 ErrorInvalidCreateRecordsIteratorRequest ''invalid request'' (Some e)))
      | None \<Rightarrow> with_payload validate body svc (\<lambda>req.
          case GetStreamFromParameter parse_uuid show_uuid param svc of
            Inl e \<Rightarrow> (svc, HTTPResponse e)
          | Inr (u, s) \<Rightarrow>
              (case CreateRecordsIterator po ho parse itu req svc s of
                 (s', Inl e) \<Rightarrow> (setStreamMap u (Some s') svc, HTTPResponse e)
               | (s', Inr itu') \<Rightarrow> (setStreamMap u (Some s') svc,
                   Reply 200 \<lparr>ir_StreamUUID = u, ir_StreamIteratorUUID = itu'\<rparr>))))"

definition web_GetRecordsIteratorStats ::
    "(string \<Rightarrow> go_error + uuid) \<Rightarrow> (uuid \<Rightarrow> string) \<Rightarrow> string \<Rightarrow> string \<Rightarrow> ('x, 'p, 'w, 'h, 'q) service \<Rightarrow>
       stats_response response" where
  "web_GetRecordsIteratorStats parse_uuid show_uuid param itparam svc =
     (case GetStreamFromParameter parse_uuid show_uuid param svc of
        Inl e \<Rightarrow> HTTPResponse e
      | Inr (u, s) \<Rightarrow>
          (case iterator_param parse_uuid 0 ErrorInvalidStreamUuid ''invalid stream iterator uuid'' itparam of
             Inl e \<Rightarrow> HTTPResponse e
           | Inr itu \<Rightarrow>
               (case GetIterator show_uuid itu s of
                  Inl e \<Rightarrow> HTTPResponse ((simple_error 400 ErrorStreamIteratorNotFound ''iterator not found'' (Some e))
                    \<lparr>ae_StreamUUID := u\<rparr>)
                | Inr it \<Rightarrow> Reply 200 \<lparr>ir_StreamUUID = u, ir_StreamIteratorUUID = itu,
                    ir_LastRecordIdRead = it_LastRecordIdRead it, ir_Name = it_GetName it\<rparr>)))"

definition web_CloseRecordsIterator ::
    "('h, 'r) handler_ops \<Rightarrow> (string \<Rightarrow> go_error + uuid) \<Rightarrow> (uuid \<Rightarrow> string) \<Rightarrow> string \<Rightarrow> string \<Rightarrow>
       ('x, 'p, 'w, 'h, 'q) service \<Rightarrow> ('x, 'p, 'w, 'h, 'q) service \<times> iterator_response response" where
  "web_CloseRecordsIterator ho parse_uuid show_uuid param itparam svc =
     (case GetStreamFromParameter parse_uuid show_uuid param svc of
        Inl e \<Rightarrow> (svc, HTTPResponse e)
      | Inr (u, s) \<Rightarrow>
          (case iterator_param parse_uuid u ErrorInvalidStreamUuid ''invalid stream iterator uuid'' itparam of
             Inl e \<Rightarrow> (svc, HTTPResponse e)
           | Inr itu \<Rightarrow>
               (case CloseIterator (it_Close ho) itu s of
                  (s', Some e) \<Rightarrow> (setStreamMap u (Some s') svc, HTTPResponse
                    ((simple_error 400 ErrorCantCloseStreamIterator ''cannot close stream iterator uuid'' (Some e))
                      \<lparr>ae_StreamUUID := u, ae_ValidationErrors := [(''streamiteratoruuid'', ''parameter'', itparam)]\<rparr>))
                | (s', None) \<Rightarrow> (setStreamMap u (Some s') svc,
                    Reply 200 \<lparr>ir_StreamUUID = u, ir_StreamIteratorUUID = itu\<rparr>))))"

text \<open>
  \<open>get\<close> is the iterator's \<^verbatim>\<open>GetRecords\<close>, as in \<open>st_GetRecords\<close>. A busy iterator returns an \<^verbatim>\<open>APIError\<close>
  of its own, with status 425.
\<close>

definition busy_error :: "uuid \<Rightarrow> api_error" where
  "busy_error u = (simple_error 425 ErrorStreamIteratorIsBusy ''cannot get records'' (Some iterator_busy))
     \<lparr>ae_StreamUUID := u\<rparr>"

definition web_GetRecords ::
    "(('h, 'q) stream_iterator \<Rightarrow> nat \<Rightarrow> ('h, 'q) stream_iterator \<times> (go_error + 'r records_response)) \<Rightarrow>
       (string \<Rightarrow> go_error + uuid) \<Rightarrow> (uuid \<Rightarrow> string) \<Rightarrow> string \<Rightarrow> string \<Rightarrow> string \<Rightarrow>
       ('x, 'p, 'w, 'h, 'q) service \<Rightarrow> ('x, 'p, 'w, 'h, 'q) service \<times> 'r records_response response" where
  "web_GetRecords get parse_uuid show_uuid param itparam strMaxRecords svc =
     (case GetStreamFromParameter parse_uuid show_uuid param svc of
        Inl e \<Rightarrow> (svc, HTTPResponse e)
      | Inr (u, s) \<Rightarrow>
          (case iterator_param parse_uuid u ErrorInvalidIteratorUuid ''invalid iterator uuid'' itparam of
             Inl e \<Rightarrow> (svc, HTTPResponse e)
           | Inr itu \<Rightarrow>
               (case maxRecords_param u (cf_MaxMessagePerGetOperation (sv_conf svc)) strMaxRecords of
                  Inl e \<Rightarrow> (svc, HTTPResponse e)
                | Inr maxRecords \<Rightarrow>
                    (case st_GetRecords get itu maxRecords s of
                       (s', Inr r) \<Rightarrow> (setStreamMap u (Some s') svc, Reply 200 r)
                     | (s', Inl e) \<Rightarrow> (setStreamMap u (Some s') svc,
                         if is_panic e then Crash e
                         else if e = iterator_busy then HTTPResponse (busy_error u)
                         else HTTPResponse ((simple_error 500 ErrorCantGetMessagesFromStream ''cannot get records'' (Some e))
                           \<lparr>ae_StreamUUID := u\<rparr>))))))"

section \<open>Putting records\<close>

definition dedup_id :: "(uuid \<Rightarrow> string) \<Rightarrow> uuid \<Rightarrow> string \<Rightarrow> string" where
  "dedup_id show_uuid u batch_id = show_uuid u @ '':'' @ batch_id"

definition duplicated_batch :: "uuid \<Rightarrow> string \<Rightarrow> api_error" where
  "duplicated_batch u batch_id =
     (simple_error 400 ErrorDuplicatedBatchId ''batch id already processed''
        (Some (Error (''x-ministream-batch-id: '' @ batch_id))))\<lparr>ae_StreamUUID := u\<rparr>"

text \<open>
  \<open>sz\<close> gives the size of a message; \<open>t\<close> is the clock when the batch is noted, \<open>now\<close> when the messages get
  their time. \<open>None\<close>: a message waits for room in the channel of the stream. The body of \<^verbatim>\<open>PutRecord\<close> is
  parsed after its batch id was noted.
\<close>

definition web_PutRecord ::
    "('x iface \<Rightarrow> u64) \<Rightarrow> time \<Rightarrow> time \<Rightarrow> (string \<Rightarrow> go_error + uuid) \<Rightarrow> (uuid \<Rightarrow> string) \<Rightarrow> string \<Rightarrow> string \<Rightarrow>
       go_error + 'x iface \<Rightarrow> ('x, 'p, 'w, 'h, 'q) web \<Rightarrow> (('x, 'p, 'w, 'h, 'q) web \<times> put_response response) option" where
  "web_PutRecord sz t now parse_uuid show_uuid param batch_id body w =
     (case GetStreamFromParameter parse_uuid show_uuid param (wb_service w) of
        Inl e \<Rightarrow> Some (w, HTTPResponse e)
      | Inr (u, s) \<Rightarrow>
          (let i = dedup_id show_uuid (GetUUID s) batch_id in
           if batch_id \<noteq> [] \<and> rd_Exists i (wb_reqDedupManager w)
           then Some (w, HTTPResponse (duplicated_batch (GetUUID s) batch_id))
           else
             (let w1 = (if batch_id \<noteq> [] then w\<lparr>wb_reqDedupManager := rd_Add t i (wb_reqDedupManager w)\<rparr> else w) in
              case body of
                Inl e \<Rightarrow> Some (w1, HTTPResponse
                  (simple_error 400 ErrorCantCreateStream ''invalid json body format'' (Some e)))
              | Inr payload \<Rightarrow>
                  (case PutMessage sz now payload s of
                     None \<Rightarrow> None
                   | Some (s', Inl e) \<Rightarrow> Some (w1\<lparr>wb_service := setStreamMap u (Some s') (wb_service w1)\<rparr>, HTTPResponse
                       (simple_error 500 ErrorCantPutMessageIntoStream ''invalid json body format'' (Some e)))
                   | Some (s', Inr singleMessageId) \<Rightarrow> Some (w1\<lparr>wb_service := setStreamMap u (Some s') (wb_service w1)\<rparr>,
                       Reply 202 \<lparr>pu_StreamUUID = GetUUID s, pu_Count = 1, pu_MessageIds = [singleMessageId]\<rparr>)))))"

text \<open>
  \<open>ctype\<close> is the content type in lower case; \<open>decode\<close> is the JSON decoder into a list, and \<open>parse_body\<close> the
  framework's \<^verbatim>\<open>BodyParser\<close>. Every failure after the batch id was noted forgets it again.
\<close>

definition records_of_body ::
    "(string \<Rightarrow> go_error + 'x iface list) \<Rightarrow> (string \<Rightarrow> go_error + 'x iface list) \<Rightarrow> string \<Rightarrow> string \<Rightarrow>
       (string \<times> go_error) + 'x iface list" where
  "records_of_body decode parse_body ctype body =
     (if jsonlines_type ctype
      then map_sum (\<lambda>e. (''invalid jsonlines body format'', e)) id (decode (jsonlines_to_json body))
      else map_sum (\<lambda>e. (''invalid json body format'', e)) id (parse_body body))"

definition web_PutRecords ::
    "('x iface \<Rightarrow> u64) \<Rightarrow> time \<Rightarrow> time \<Rightarrow> (string \<Rightarrow> go_error + uuid) \<Rightarrow> (uuid \<Rightarrow> string) \<Rightarrow>
       (string \<Rightarrow> go_error + 'x iface list) \<Rightarrow> (string \<Rightarrow> go_error + 'x iface list) \<Rightarrow> string \<Rightarrow> string \<Rightarrow> string \<Rightarrow> string \<Rightarrow>
       ('x, 'p, 'w, 'h, 'q) web \<Rightarrow> (('x, 'p, 'w, 'h, 'q) web \<times> put_response response) option" where
  "web_PutRecords sz t now parse_uuid show_uuid decode parse_body param batch_id ctype body w =
     (case GetStreamFromParameter parse_uuid show_uuid param (wb_service w) of
        Inl e \<Rightarrow> Some (w, HTTPResponse e)
      | Inr (u, s) \<Rightarrow>
          (let i = dedup_id show_uuid (GetUUID s) batch_id in
           if batch_id \<noteq> [] \<and> rd_Exists i (wb_reqDedupManager w)
           then Some (w, HTTPResponse (duplicated_batch (GetUUID s) batch_id))
           else
             (let w1 = (if batch_id \<noteq> [] then w\<lparr>wb_reqDedupManager := rd_Add t i (wb_reqDedupManager w)\<rparr> else w);
                  forgotten = w1\<lparr>wb_reqDedupManager := rd_Remove i (wb_reqDedupManager w1)\<rparr> in
              case records_of_body decode parse_body ctype body of
                Inl (msg, e) \<Rightarrow> Some (forgotten, HTTPResponse
                  ((simple_error 400 ErrorCantDeserializeJsonRecords msg (Some e))\<lparr>ae_StreamUUID := GetUUID s\<rparr>))
              | Inr payload \<Rightarrow>
                  (case PutMessages sz now payload s of
                     None \<Rightarrow> None
                   | Some (s', Inl e) \<Rightarrow> Some (forgotten\<lparr>wb_service := setStreamMap u (Some s') (wb_service w1)\<rparr>, HTTPResponse
                       (simple_error 500 ErrorCantPutMessagesIntoStream ''invalid json body format'' (Some e)))
                   | Some (s', Inr messageIds) \<Rightarrow> Some (w1\<lparr>wb_service := setStreamMap u (Some s') (wb_service w1)\<rparr>,
                       Reply 202 \<lparr>pu_StreamUUID = GetUUID s, pu_Count = length payload, pu_MessageIds = messageIds\<rparr>)))))"

section \<open>Utilities (apiutils.go)\<close>

record pbkdf2_payload =
  pp_Digest :: string
  pp_Iterations :: int
  pp_Salt :: string
  pp_Password :: string

definition Ping :: "string response" where "Ping = Reply 200 ''ok''"

definition ApiServerUtilsPbkdf2 ::
    "key_fn \<Rightarrow> (pbkdf2_payload \<Rightarrow> validation_errors) \<Rightarrow> go_error + pbkdf2_payload option \<Rightarrow> string response" where
  "ApiServerUtilsPbkdf2 kdf validate body = snd (with_payload validate body () (\<lambda>payload.
     ((), case HashPassword kdf (pp_Digest payload) (pp_Iterations payload) (pp_Salt payload) (pp_Password payload) of
        Inr hash \<Rightarrow> Reply 200 hash
      | Inl e \<Rightarrow> HTTPResponse ((simple_error 400 ErrorInvalidParameterValue ''invalid hash value'' (Some e))
          \<lparr>ae_ValidationErrors := [(''hash'', ''parameter'', [])]\<rparr>))))"

end
