(* ===== verification/WebSteps.thy ===== *)
theory WebSteps
  imports WebApi
begin

text \<open>
  What the handlers do to the server over time: each of them is a step of the stream service, so the invariants
  of the service hold whatever requests arrive; the properties of a stream are never a nil map; and what the
  deduplication of batches gives.
\<close>

section \<open>Requests as steps\<close>

text \<open>
  One request that changes the state, or the goroutine of a stream that receives a message or saves its
  buffer, or the goroutine of the deduplicator.
\<close>

inductive web_step ::
    "('x, 'p, 'w, 'h) provider_ops \<Rightarrow> ('x, 'w) writer_ops \<Rightarrow> ('h, 'r) handler_ops \<Rightarrow>
       (string \<Rightarrow> go_error + 'q) \<Rightarrow> ('x, 'p, 'w, 'h, 'q) web \<Rightarrow> ('x, 'p, 'w, 'h, 'q) web \<Rightarrow> bool"
  for po wo ho parse where
  ws_create: "web_CreateStream po wo validate now ds body (wb_service w) = Some (svc, r) \<Longrightarrow>
     web_step po wo ho parse w (w\<lparr>wb_service := svc\<rparr>)"
| ws_set: "web_SetStreamProperties validate parse_uuid show_uuid param body (wb_service w) = (svc, r1) \<Longrightarrow>
     web_step po wo ho parse w (w\<lparr>wb_service := svc\<rparr>)"
| ws_update: "web_UpdateStreamProperties validate parse_uuid show_uuid param body (wb_service w) = (svc, r1) \<Longrightarrow>
     web_step po wo ho parse w (w\<lparr>wb_service := svc\<rparr>)"
| ws_delete: "web_DeleteStream po wo ho c parse_uuid show_uuid param (wb_service w) = (svc, r2) \<Longrightarrow>
     web_step po wo ho parse w (w\<lparr>wb_service := svc\<rparr>)"
| ws_index: "web_RebuildIndex po ho ks parse_uuid show_uuid param (wb_service w) = (svc, r3) \<Longrightarrow>
     web_step po wo ho parse w (w\<lparr>wb_service := svc\<rparr>)"
| ws_iterator: "web_CreateRecordsIterator po ho parse valid_req itu parse_uuid show_uuid param schema ibody (wb_service w) =
     (svc, r4) \<Longrightarrow> web_step po wo ho parse w (w\<lparr>wb_service := svc\<rparr>)"
| ws_close: "web_CloseRecordsIterator ho parse_uuid show_uuid param itparam (wb_service w) = (svc, r4) \<Longrightarrow>
     web_step po wo ho parse w (w\<lparr>wb_service := svc\<rparr>)"
| ws_get: "web_GetRecords get parse_uuid show_uuid param itparam n (wb_service w) = (svc, (r5 :: 'r records_response response)) \<Longrightarrow>
     web_step po wo ho parse w (w\<lparr>wb_service := svc\<rparr>)"
| ws_put: "web_PutRecord sz t now parse_uuid show_uuid param batch mbody w = Some (w', r6) \<Longrightarrow>
     web_step po wo ho parse w w'"
| ws_puts: "web_PutRecords sz t now parse_uuid show_uuid decode parse_body param batch ctype content w = Some (w', r6) \<Longrightarrow>
     web_step po wo ho parse w w'"
| ws_receive: "GetStream u (wb_service w) = Some s \<Longrightarrow> run_message (wo_Write wo) s = (s', err) \<Longrightarrow>
     web_step po wo ho parse w (w\<lparr>wb_service := setStreamMap u (Some s') (wb_service w)\<rparr>)"
| ws_flush: "GetStream u (wb_service w) = Some s \<Longrightarrow> st_Save (wo_Write wo) s = (s', err) \<Longrightarrow>
     web_step po wo ho parse w (w\<lparr>wb_service := setStreamMap u (Some s') (wb_service w)\<rparr>)"
| ws_clean: "web_step po wo ho parse w (w\<lparr>wb_reqDedupManager := CleanupExpiredEntries now (wb_reqDedupManager w)\<rparr>)"

section \<open>Each handler is a step of the service\<close>

lemma GetStreamFromParameter_Inr:
  "GetStreamFromParameter parse_uuid show_uuid param svc = Inr (u, s) \<Longrightarrow> GetStream u svc = Some s"
  by (auto simp: GetStreamFromParameter_def split: sum.splits option.splits)

lemma one_step: "svc_step po wo ho parse svc svc' \<Longrightarrow> (svc_step po wo ho parse)\<^sup>*\<^sup>* svc svc'"
  by (rule r_into_rtranclp)

text \<open>Nothing, or one operation on one stream of the table.\<close>

definition touches_one ::
    "('x, 'w) writer_ops \<Rightarrow> ('h, 'r) handler_ops \<Rightarrow> ('x, 'p, 'w, 'h, 'q) service \<Rightarrow> ('x, 'p, 'w, 'h, 'q) service \<Rightarrow> bool" where
  "touches_one wo ho svc svc' \<longleftrightarrow> svc' = svc \<or>
     (\<exists>u s s'. GetStream u svc = Some s \<and> stream_op wo ho s s' \<and> svc' = setStreamMap u (Some s') svc)"

lemma touches_one_step: "touches_one wo ho svc svc' \<Longrightarrow> (svc_step po wo ho parse)\<^sup>*\<^sup>* svc svc'"
  by (auto simp: touches_one_def intro: one_step svc_stream)

lemma change_touches:
  assumes "\<And>ps s s'. change ps s = Inr s' \<Longrightarrow> stream_op wo ho s s'"
    and "web_change_properties change validate parse_uuid show_uuid param body svc = (svc', r)"
  shows "touches_one wo ho svc svc'"
  using assms(2) unfolding web_change_properties_def
proof (cases rule: with_payload_cases)
  case (ok p)
  then show ?thesis
    using assms(1)
    by (fastforce simp: touches_one_def dest: GetStreamFromParameter_Inr split: sum.splits prod.splits)
qed (simp_all add: touches_one_def)

lemma CloseRecordsIterator_touches:
  "web_CloseRecordsIterator ho parse_uuid show_uuid param itparam svc = (svc', r) \<Longrightarrow> touches_one wo ho svc svc'"
  unfolding web_CloseRecordsIterator_def touches_one_def
  by (fastforce dest: GetStreamFromParameter_Inr intro: op_close_iterator split: sum.splits prod.splits option.splits)

lemma GetRecords_touches:
  assumes "web_GetRecords get parse_uuid show_uuid param itparam n svc = (svc', (r :: 'r records_response response))"
  shows "touches_one wo (ho :: ('h, 'r) handler_ops) svc svc'"
  using assms unfolding web_GetRecords_def touches_one_def
  by (fastforce dest: GetStreamFromParameter_Inr intro: op_read [of get] split: sum.splits prod.splits if_splits)

lemma PutRecord_touches:
  "web_PutRecord sz t now parse_uuid show_uuid param batch body w = Some (w', r) \<Longrightarrow>
     touches_one wo ho (wb_service w) (wb_service w')"
  unfolding web_PutRecord_def touches_one_def
  by (fastforce simp: Let_def dest: GetStreamFromParameter_Inr intro: op_put_one
      split: sum.splits prod.splits if_splits option.splits)

lemma PutRecords_touches:
  "web_PutRecords sz t now parse_uuid show_uuid decode parse_body param batch ctype body w = Some (w', r) \<Longrightarrow>
     touches_one wo ho (wb_service w) (wb_service w')"
  unfolding web_PutRecords_def touches_one_def
  by (fastforce simp: Let_def dest: GetStreamFromParameter_Inr intro: op_put
      split: sum.splits prod.splits if_splits option.splits)

lemma CreateStream_step:
  "web_CreateStream po wo validate now ds body svc = Some (svc', r) \<Longrightarrow> (svc_step po wo ho parse)\<^sup>*\<^sup>* svc svc'"
  by (fastforce simp: web_CreateStream_def dest: svc_create [where ho = ho and parse = parse] split: payload.splits option.splits)

lemma DeleteStream_step:
  "web_DeleteStream po wo ho c parse_uuid show_uuid param svc = (svc', r) \<Longrightarrow> (svc_step po wo ho parse)\<^sup>*\<^sup>* svc svc'"
  by (auto simp: web_DeleteStream_def intro: one_step svc_delete split: sum.splits prod.splits option.splits)

lemma CreateRecordsIterator_step:
  assumes "web_CreateRecordsIterator po ho parse validate itu parse_uuid show_uuid param schema body svc = (svc', r)"
  shows "(svc_step po wo ho parse)\<^sup>*\<^sup>* svc svc'"
proof (cases schema)
  case (Some e)
  with assms show ?thesis by (simp add: web_CreateRecordsIterator_def)
next
  case None
  with assms have "with_payload validate body svc (\<lambda>req.
      case GetStreamFromParameter parse_uuid show_uuid param svc of
        Inl e \<Rightarrow> (svc, HTTPResponse e)
      | Inr (u, s) \<Rightarrow>
          (case CreateRecordsIterator po ho parse itu req svc s of
             (s', Inl e) \<Rightarrow> (setStreamMap u (Some s') svc, HTTPResponse e)
           | (s', Inr itu') \<Rightarrow> (setStreamMap u (Some s') svc,
               Reply 200 \<lparr>ir_StreamUUID = u, ir_StreamIteratorUUID = itu'\<rparr>))) = (svc', r)"
    by (simp add: web_CreateRecordsIterator_def)
  then show ?thesis
  proof (cases rule: with_payload_cases)
    case (ok p)
    from ok(3) show ?thesis
      by (auto dest!: GetStreamFromParameter_Inr intro: one_step svc_iterator split: sum.splits prod.splits)
  qed auto
qed

lemma RebuildIndex_step:
  assumes "web_RebuildIndex po ho ks parse_uuid show_uuid param svc = (svc', r)"
  shows "(svc_step po wo ho parse)\<^sup>*\<^sup>* svc svc'"
proof (cases "GetStreamFromParameter parse_uuid show_uuid param svc")
  case (Inl e)
  with assms show ?thesis by (simp add: web_RebuildIndex_def)
next
  case (Inr us)
  obtain u s where us: "us = (u, s)" by fastforce
  obtain s1 e where c: "CloseIterators (it_Close ho) ks s = (s1, e)" by fastforce
  let ?svc1 = "setStreamMap u (Some s1) svc"
  have one: "svc_step po wo ho parse svc ?svc1"
    using Inr us c by (auto intro!: svc_stream op_close_iterators dest: GetStreamFromParameter_Inr)
  show ?thesis
  proof (cases e)
    case (Some x)
    with assms Inr us c one show ?thesis by (simp add: web_RebuildIndex_def)
  next
    case None
    obtain svc2 b where b: "svc_BuildIndex po u ?svc1 = (svc2, b)" by fastforce
    with assms Inr us c None have "svc' = svc2"
      by (simp add: web_RebuildIndex_def split: sum.splits prod.splits)
    with one b show ?thesis by (auto intro: svc_index converse_rtranclp_into_rtranclp)
  qed
qed

lemma web_step_service:
  "web_step po wo ho parse w w' \<Longrightarrow> (svc_step po wo ho parse)\<^sup>*\<^sup>* (wb_service w) (wb_service w')"
proof (induction rule: web_step.induct)
  case (ws_set validate parse_uuid show_uuid param body w svc r1)
  then have "touches_one wo ho (wb_service w) svc"
    unfolding web_SetStreamProperties_def by (rule change_touches [rotated]) (rule op_set)
  then show ?case by (simp add: touches_one_step)
next
  case (ws_update validate parse_uuid show_uuid param body w svc r1)
  then have "touches_one wo ho (wb_service w) svc"
    unfolding web_UpdateStreamProperties_def by (rule change_touches [rotated]) (rule op_update)
  then show ?case by (simp add: touches_one_step)
next
  case (ws_receive u w s s' err)
  then show ?case by (auto intro!: r_into_rtranclp svc_stream op_receive)
next
  case (ws_flush u w s s' err)
  then show ?case by (auto intro!: r_into_rtranclp svc_stream op_flush)
next
  case (ws_close parse_uuid show_uuid param itparam w svc r4)
  then show ?case by (simp add: touches_one_step CloseRecordsIterator_touches)
next
  case (ws_get get parse_uuid show_uuid param itparam n w svc r5)
  then show ?case by (simp add: touches_one_step GetRecords_touches)
next
  case (ws_put sz t now parse_uuid show_uuid param batch mbody w w' r6)
  then show ?case by (rule touches_one_step [OF PutRecord_touches])
next
  case (ws_puts sz t now parse_uuid show_uuid decode parse_body param batch ctype content w w' r6)
  then show ?case by (rule touches_one_step [OF PutRecords_touches])
qed (simp_all add: CreateStream_step DeleteStream_step RebuildIndex_step CreateRecordsIterator_step)

lemma web_steps_service:
  "(web_step po wo ho parse)\<^sup>*\<^sup>* w w' \<Longrightarrow> (svc_step po wo ho parse)\<^sup>*\<^sup>* (wb_service w) (wb_service w')"
  by (induction rule: rtranclp_induct) (auto dest: web_step_service)

section \<open>Properties of streams are never nil\<close>

definition has_properties :: "('x, 'w, 'it) stream \<Rightarrow> bool" where
  "has_properties s \<longleftrightarrow> si_Properties (st_info s) \<noteq> None"

definition all_have_properties :: "('x, 'p, 'w, 'h, 'q) service \<Rightarrow> bool" where
  "all_have_properties svc \<longleftrightarrow> (\<forall>u s. sv_Hashmap svc u = Some s \<longrightarrow> has_properties s)"

lemma all_have_properties_put:
  "all_have_properties svc \<Longrightarrow> has_properties s \<Longrightarrow> all_have_properties (setStreamMap u (Some s) svc)"
  by (auto simp: all_have_properties_def)

lemma put_all_properties:
  "put_all sz now (i, b) ms = Some ((i', b'), ids) \<Longrightarrow> si_Properties i' = si_Properties i"
  by (induction ms arbitrary: i b ids)
    (fastforce simp: ingest_one_def Let_def split: if_splits option.splits prod.splits)+

lemma first_ingested_properties [simp]: "si_Properties (first_ingested now i) = si_Properties i"
  by (simp add: first_ingested_def)

lemma change_properties_ok:
  assumes "has_properties s"
  shows "\<exists>s'. st_SetProperties ps s = Inr s' \<and> has_properties s'" "\<exists>s'. st_UpdateProperties ps s = Inr s' \<and> has_properties s'"
  using assms
  by (auto simp: has_properties_def st_SetProperties_def st_UpdateProperties_def props_defs Let_def
      split: option.splits)

context closable_writer
begin

lemma st_Save_properties: "st_Save store s = (s', err) \<Longrightarrow> si_Properties (st_info s') = si_Properties (st_info s)"
  by (auto simp: st_Save_def Save_frame(9) split: prod.splits)

lemma run_message_properties:
  "run_message store s = (s', err) \<Longrightarrow> si_Properties (st_info s') = si_Properties (st_info s)"
  by (auto simp: run_message_def bufferizeMessage_def Let_def split: list.splits if_splits dest: st_Save_properties)

lemma run_messages_properties:
  "si_Properties (st_info (((\<lambda>t. fst (run_message store t)) ^^ n) s)) = si_Properties (st_info s)"
proof (induction n)
  case (Suc n)
  let ?t = "((\<lambda>t. fst (run_message store t)) ^^ n) s"
  obtain t err where "run_message store ?t = (t, err)" by fastforce
  with run_message_properties [OF this] Suc show ?case by simp
qed simp

lemma run_done_properties:
  "run_done store cl itcl ks s = (s', err) \<Longrightarrow> si_Properties (st_info s') = si_Properties (st_info s)"
  by (auto simp: run_done_def ib_Close_def CloseIterators_def split: prod.splits option.splits
      dest!: st_Save_properties)

end

context stream_service
begin

lemma stream_op_properties: "stream_op wo ho s s' \<Longrightarrow> has_properties s \<Longrightarrow> has_properties s'"
proof (induction rule: stream_op.induct)
  case (op_put sz now records s s' r)
  then show ?case
    by (auto simp: has_properties_def PutMessages_def dest: put_all_properties split: if_splits option.splits)
next
  case (op_put_one sz now m s s' r1)
  then show ?case
    by (auto simp: has_properties_def PutMessage_def ingest_one_def Let_def split: if_splits)
next
  case (op_receive s s' err)
  with run_message_properties show ?case by (fastforce simp: has_properties_def)
next
  case (op_flush s s' err)
  with st_Save_properties show ?case by (fastforce simp: has_properties_def)
next
  case (op_read get itu n s s' r2)
  then show ?case
    by (auto simp: has_properties_def st_GetRecords_def split: if_splits option.splits prod.splits)
next
  case (op_close_iterator itu s s' err)
  then show ?case by (auto simp: has_properties_def CloseIterator_def split: option.splits prod.splits)
next
  case (op_close_iterators ks s s' err)
  then show ?case by (auto simp: has_properties_def CloseIterators_def split: option.splits prod.splits)
next
  case (op_set ps s s')
  with change_properties_ok(1) [OF op_set(2), of ps] show ?case by auto
next
  case (op_update ps s s')
  with change_properties_ok(2) [OF op_update(2), of ps] show ?case by auto
qed

lemma touches_one_properties:
  "touches_one wo ho svc svc' \<Longrightarrow> all_have_properties svc \<Longrightarrow> all_have_properties svc'"
  unfolding touches_one_def
  by (elim disjE exE conjE)
    (auto simp: GetStream_Some all_have_properties_def split: if_splits dest: stream_op_properties)

lemma close_stream_properties:
  assumes "close_stream wo ho c s = (s', err)" and "has_properties s"
  shows "has_properties s'"
proof (cases "st_Close s")
  case (Inl e)
  with assms show ?thesis by (simp add: close_stream_def)
next
  case (Inr s1)
  then have 1: "st_info s1 = st_info s" by (auto simp: st_Close_def setState_def split: if_splits)
  let ?s2 = "((\<lambda>t. fst (run_message (wo_Write wo) t)) ^^ fst c) s1"
  obtain s3 e where d: "run_done (wo_Write wo) (wo_Close wo) (it_Close ho) (snd c) ?s2 = (s3, e)" by fastforce
  have "s' = st_Close_wait s3" using assms(1) Inr d by (simp add: close_stream_def Let_def)
  with run_done_properties [OF d] run_messages_properties [of "fst c" s1] 1 assms(2)
  show ?thesis by (simp add: has_properties_def st_Close_wait_def setState_def)
qed

lemma DeleteStream_properties:
  assumes "svc_DeleteStream po wo ho c u svc = (svc', err)" and "all_have_properties svc"
  shows "all_have_properties svc'"
proof (cases "sv_Hashmap svc u")
  case None
  with assms show ?thesis by (simp add: svc_DeleteStream_def GetStream_def)
next
  case (Some s)
  obtain s' e where cl: "close_stream wo ho c s = (s', e)" by fastforce
  have "has_properties s'" using close_stream_properties [OF cl] assms(2) Some by (auto simp: all_have_properties_def)
  with assms Some cl show ?thesis
    by (auto simp: svc_DeleteStream_def GetStream_def Let_def saveStreamCatalog_def all_have_properties_def
        split: option.splits prod.splits if_splits)
qed

lemma CreateStream_properties:
  assumes "svc_CreateStream po wo now ds (Some m) svc = Some (svc', made, err)" and "all_have_properties svc"
  shows "all_have_properties svc'"
proof -
  have st: "all_have_properties svc2"
    if "startStream po wo ((NewStreamInfo now u)\<lparr>si_Properties := Some m\<rparr>) svc1 = (svc2, e)" "all_have_properties svc1"
    for u svc1 svc2 e
    using startStream_law [OF that(1)] that(2)
    by (auto simp: all_have_properties_def has_properties_def setState_def NewStream_def split: if_splits)
  have sp: "all_have_properties (svc\<lparr>sv_sp := p\<rparr>) = all_have_properties svc" for svc p
    by (simp add: all_have_properties_def)
  show ?thesis
    using assms
    by (auto simp: svc_CreateStream_def create_stream_def Let_def saveStreamCatalog_def sp
        split: if_splits option.splits prod.splits dest!: st)
qed

lemma CreateRecordsIterator_properties:
  "CreateRecordsIterator po ho parse itu req svc s = (s', res) \<Longrightarrow> st_info s' = st_info s"
  by (auto simp: CreateRecordsIterator_def Let_def AddIterator_def split: if_splits sum.splits prod.splits option.splits)

end

context stream_service
begin

lemma web_step_properties:
  assumes "web_step po wo ho parse w w'" and "all_have_properties (wb_service w)"
  shows "all_have_properties (wb_service w')"
  using assms
proof (induction rule: web_step.induct)
  case (ws_create validate now ds body w svc r)
  then show ?case
    by (auto simp: web_CreateStream_def convertToProperties_def dest: CreateStream_properties
        split: payload.splits option.splits)
next
  case (ws_set validate parse_uuid show_uuid param body w svc r1)
  from ws_set(1) have "touches_one wo ho (wb_service w) svc"
    unfolding web_SetStreamProperties_def by (rule change_touches [rotated]) (rule op_set)
  with ws_set(2) show ?case by (simp add: touches_one_properties)
next
  case (ws_update validate parse_uuid show_uuid param body w svc r1)
  from ws_update(1) have "touches_one wo ho (wb_service w) svc"
    unfolding web_UpdateStreamProperties_def by (rule change_touches [rotated]) (rule op_update)
  with ws_update(2) show ?case by (simp add: touches_one_properties)
next
  case (ws_delete c parse_uuid show_uuid param w svc r2)
  then show ?case
    by (auto simp: web_DeleteStream_def dest: DeleteStream_properties split: sum.splits prod.splits option.splits)
next
  case (ws_index ks parse_uuid show_uuid param w svc r3)
  then show ?case
    by (auto simp: web_RebuildIndex_def svc_BuildIndex_def CloseIterators_def all_have_properties_def has_properties_def
        GetStream_Some dest!: GetStreamFromParameter_Inr split: sum.splits prod.splits option.splits if_splits)
next
  case (ws_iterator valid_req itu parse_uuid show_uuid param schema ibody w svc r4)
  have *: "all_have_properties (setStreamMap u (Some s') (wb_service w))"
    if "GetStreamFromParameter parse_uuid show_uuid param (wb_service w) = Inr (u, s)"
      "CreateRecordsIterator po ho parse itu req (wb_service w) s = (s', res)" for u s s' req res
    using that ws_iterator(2) GetStreamFromParameter_Inr [OF that(1)] CreateRecordsIterator_properties [OF that(2)]
    by (intro all_have_properties_put) (auto simp: GetStream_Some all_have_properties_def has_properties_def)
  from ws_iterator(1,2) show ?case
    by (auto simp: web_CreateRecordsIterator_def with_payload_def dest: *
        split: option.splits payload.splits sum.splits prod.splits)
next
  case (ws_close parse_uuid show_uuid param itparam w svc r4)
  then show ?case by (auto dest: CloseRecordsIterator_touches touches_one_properties)
next
  case (ws_get get parse_uuid show_uuid param itparam n w svc r5)
  then show ?case by (auto dest: GetRecords_touches [where wo = wo and ho = ho] touches_one_properties)
next
  case (ws_put sz t now parse_uuid show_uuid param batch mbody w w' r6)
  then show ?case by (auto dest: PutRecord_touches [where wo = wo and ho = ho] touches_one_properties)
next
  case (ws_puts sz t now parse_uuid show_uuid decode parse_body param batch ctype content w w' r6)
  then show ?case by (auto dest: PutRecords_touches [where wo = wo and ho = ho] touches_one_properties)
next
  case (ws_receive u w s s' err)
  then have "touches_one wo ho (wb_service w) (setStreamMap u (Some s') (wb_service w))"
    by (auto simp: touches_one_def intro: op_receive)
  with ws_receive(3) show ?case by (simp add: touches_one_properties)
next
  case (ws_flush u w s s' err)
  then have "touches_one wo ho (wb_service w) (setStreamMap u (Some s') (wb_service w))"
    by (auto simp: touches_one_def intro: op_flush)
  with ws_flush(3) show ?case by (simp add: touches_one_properties)
qed simp

lemma web_steps_properties:
  "(web_step po wo ho parse)\<^sup>*\<^sup>* w w' \<Longrightarrow> all_have_properties (wb_service w) \<Longrightarrow> all_have_properties (wb_service w')"
  by (induction rule: rtranclp_induct) (auto dest: web_step_properties)

end

lemma change_answers:
  assumes "all_have_properties svc" and "body \<noteq> Inr None" and "change = st_SetProperties \<or> change = st_UpdateProperties"
  shows "status_of (snd (web_change_properties change validate parse_uuid show_uuid param body svc)) \<in> {Some 200, Some 400}"
proof -
  obtain svc' r where w: "web_change_properties change validate parse_uuid show_uuid param body svc = (svc', r)"
    by fastforce
  have e: "ae_HttpCode e = 400" if "GetStreamFromParameter parse_uuid show_uuid param svc = Inl e" for e
    using that by (auto simp: GetStreamFromParameter_def GetStreamUUIDFromParameter_def simple_error_def
        split: sum.splits option.splits)
  have changes: "\<exists>s'. change ps s = Inr s'" if "GetStreamFromParameter parse_uuid show_uuid param svc = Inr (u, s)" for ps u s
  proof -
    have "has_properties s"
      using GetStreamFromParameter_Inr [OF that] assms(1) by (auto simp: GetStream_Some all_have_properties_def)
    then show ?thesis using change_properties_ok [of s ps] assms(3) by auto
  qed
  from w have "status_of r \<in> {Some 200, Some 400}" unfolding web_change_properties_def
  proof (cases rule: with_payload_cases)
    case (ok p)
    show ?thesis
    proof (cases "GetStreamFromParameter parse_uuid show_uuid param svc")
      case (Inl x)
      with ok(3) e [OF Inl] show ?thesis by auto
    next
      case (Inr us)
      obtain u s where us: "us = (u, s)" by fastforce
      obtain s' where "change (Some (convertToProperties p)) s = Inr s'" using changes [OF Inr [unfolded us]] by blast
      with Inr us ok(3) show ?thesis by auto
    qed
  qed (use assms(2) in auto)
  with w show ?thesis by simp
qed

end
