(* ===== verification/WebProps.thy ===== *)
theory WebProps
  imports WebSteps
begin

text \<open>
  What the stream routes promise to clients: the service behind them keeps its invariants whatever is
  requested, an accepted batch is stored whole and once, and how the handlers answer.
\<close>

section \<open>What PutMessages gives back\<close>

lemma put_all_result:
  "put_all sz now (i, b) ms = Some ((i', b'), ids) \<Longrightarrow>
     \<exists>new. ib_channelMsg b' = ib_channelMsg b @ new \<and> map dr_Msg new = ms \<and> map dr_Id new = ids \<and>
       ids = map (\<lambda>k. LastMsgId (IngestedMessages i) + 1 + of_nat k) [0..<length ms]"
proof (induction ms arbitrary: i b ids)
  case Nil
  then show ?case by simp
next
  case (Cons m ms)
  obtain i1 b1 n where one: "ingest_one sz now m (i, b) = ((i1, b1), n)" by (metis surj_pair)
  have n: "n = LastMsgId (IngestedMessages i) + 1" "LastMsgId (IngestedMessages i1) = n"
    "ib_channelMsg b1 = ib_channelMsg b @ [\<lparr>dr_Id = n, dr_CreationDate = now, dr_Msg = m\<rparr>]"
    using one by (auto simp: ingest_one_def Let_def ib_PutMessage_def)
  from Cons.prems one obtain ids' where r: "put_all sz now (i1, b1) ms = Some ((i', b'), ids')" "ids = n # ids'"
    by (auto split: if_splits option.splits)
  from Cons.IH [OF r(1)] obtain new where new: "ib_channelMsg b' = ib_channelMsg b1 @ new" "map dr_Msg new = ms"
    "map dr_Id new = ids'" "ids' = map (\<lambda>k. n + 1 + of_nat k) [0..<length ms]" using n(2) by auto
  have "ids = map (\<lambda>k. n + of_nat k) [0..<length (m # ms)]"
    by (simp add: r(2) new(4) upt_conv_Cons map_Suc_upt [symmetric] add.assoc del: upt_Suc)
  with new n show ?case
    by (intro exI [of _ "\<lparr>dr_Id = n, dr_CreationDate = now, dr_Msg = m\<rparr> # new"]) (simp add: r(2))
qed

text \<open>The first message ever gets the id 1.\<close>

definition next_id :: "'x stream_info \<Rightarrow> u64" where
  "next_id i = (if CptMessages (IngestedMessages i) = 0 then 1 else LastMsgId (IngestedMessages i) + 1)"

lemma PutMessages_result:
  assumes "PutMessages sz now records s = Some (s', Inr ids)"
  shows "\<exists>new. ib_channelMsg (st_ingestBuffer s') = ib_channelMsg (st_ingestBuffer s) @ new \<and>
     map dr_Msg new = records \<and> map dr_Id new = ids \<and> ids = map (\<lambda>k. next_id (st_info s) + of_nat k) [0..<length records] \<and>
     records \<noteq> [] \<and> st_state s = STREAM_STATE_RUNNING"
  using assms put_all_result [of sz now "first_ingested now (st_info s)" "st_ingestBuffer s" records]
  by (auto simp: PutMessages_def next_id_def first_ingested_def split: if_splits option.splits)

section \<open>Batches are accepted once\<close>

text \<open>
  The requests that put a batch, with the clock: \<open>acc\<close> lists the time and the deduplication id of every batch
  with an id that was accepted, newest first. Requests run one after the other; any other request or goroutine
  leaves the deduplicator alone or only forgets expired entries.
\<close>

inductive batch_run ::
    "(string \<Rightarrow> go_error + uuid) \<Rightarrow> (uuid \<Rightarrow> string) \<Rightarrow> dedup \<Rightarrow> (time \<times> string) list \<Rightarrow> time \<Rightarrow> ('x, 'p, 'w, 'h, 'q) web \<Rightarrow> bool"
  for parse_uuid show_uuid d0 where
  br_start: "wb_reqDedupManager w = d0 \<Longrightarrow> batch_run parse_uuid show_uuid d0 [] t w"
| br_records: "batch_run parse_uuid show_uuid d0 acc t w \<Longrightarrow> t \<le> t' \<Longrightarrow>
     web_PutRecords sz t' now parse_uuid show_uuid decode parse_body param batch ctype body w = Some (w', r) \<Longrightarrow>
     batch_run parse_uuid show_uuid d0
       (case r of Reply c p \<Rightarrow> if batch = [] then acc else (t', dedup_id show_uuid (pu_StreamUUID p) batch) # acc | _ \<Rightarrow> acc) t' w'"
| br_record: "batch_run parse_uuid show_uuid d0 acc t w \<Longrightarrow> t \<le> t' \<Longrightarrow>
     web_PutRecord sz t' now parse_uuid show_uuid param batch mbody w = Some (w', r) \<Longrightarrow>
     batch_run parse_uuid show_uuid d0
       (case r of Reply c p \<Rightarrow> if batch = [] then acc else (t', dedup_id show_uuid (pu_StreamUUID p) batch) # acc | _ \<Rightarrow> acc) t' w'"
| br_clean: "batch_run parse_uuid show_uuid d0 acc t w \<Longrightarrow> t \<le> t' \<Longrightarrow>
     batch_run parse_uuid show_uuid d0 acc t' (w\<lparr>wb_reqDedupManager := CleanupExpiredEntries t' (wb_reqDedupManager w)\<rparr>)"
| br_other: "batch_run parse_uuid show_uuid d0 acc t w \<Longrightarrow> wb_reqDedupManager w' = wb_reqDedupManager w \<Longrightarrow>
     batch_run parse_uuid show_uuid d0 acc t w'"

text \<open>Every accepted batch is still known, or was accepted more than \<open>ttl\<close> ago.\<close>

definition remembered :: "int \<Rightarrow> (time \<times> string) list \<Rightarrow> time \<Rightarrow> dedup \<Rightarrow> bool" where
  "remembered ttl acc t d \<longleftrightarrow> rd_ttl d = ttl \<and>
     (\<forall>(t1, i) \<in> set acc. (\<exists>ts \<ge> t1. rd_processedIDs d i = Some ts) \<or> t - t1 > ttl)"

fun far_apart :: "int \<Rightarrow> (time \<times> string) list \<Rightarrow> bool" where
  "far_apart ttl [] = True"
| "far_apart ttl ((t2, i) # acc) \<longleftrightarrow> (\<forall>t1. (t1, i) \<in> set acc \<longrightarrow> t2 - t1 > ttl) \<and> far_apart ttl acc"

lemma remembered_later: "remembered ttl acc t d \<Longrightarrow> t \<le> t' \<Longrightarrow> remembered ttl acc t' d"
  by (fastforce simp: remembered_def)

lemma remembered_add:
  assumes "remembered ttl acc t d" and "t \<le> t'" and "\<not> rd_Exists i d"
  shows "remembered ttl acc t' (rd_Add t' i d)" "remembered ttl ((t', i) # acc) t' (rd_Add t' i d)"
    "far_apart ttl acc \<Longrightarrow> far_apart ttl ((t', i) # acc)" "remembered ttl acc t' (rd_Remove i (rd_Add t' i d))"
proof -
  from remembered_later [OF assms(1,2)] have r: "remembered ttl acc t' d" .
  have far: "t' - t1 > ttl" if "(t1, i) \<in> set acc" for t1
    using r that assms(3) by (fastforce simp: remembered_def rd_Exists_def)
  show "remembered ttl acc t' (rd_Add t' i d)" using r far by (auto simp: remembered_def rd_Add_def)
  then show "remembered ttl ((t', i) # acc) t' (rd_Add t' i d)" by (simp add: remembered_def rd_Add_def)
  show "far_apart ttl acc \<Longrightarrow> far_apart ttl ((t', i) # acc)" using far by simp
  show "remembered ttl acc t' (rd_Remove i (rd_Add t' i d))"
    using r far by (auto simp: remembered_def rd_Add_def rd_Remove_def)
qed

lemma remembered_clean:
  assumes "remembered ttl acc t d" and "t \<le> t'"
  shows "remembered ttl acc t' (CleanupExpiredEntries t' d)"
proof -
  have "(\<exists>ts \<ge> t1. rd_processedIDs (CleanupExpiredEntries t' d) i = Some ts) \<or> t' - t1 > ttl"
    if "(t1, i) \<in> set acc" for t1 i
  proof -
    from assms that consider ts where "ts \<ge> t1" "rd_processedIDs d i = Some ts" | "t' - t1 > ttl"
      by (fastforce simp: remembered_def)
    then show ?thesis
    proof cases
      case 1
      then show ?thesis using assms(1) Cleanup_keeps [of d i ts t'] by (cases "t' - ts \<le> ttl") (auto simp: remembered_def)
    qed simp
  qed
  then show ?thesis using assms(1) by (auto simp: remembered_def)
qed

text \<open>
  What putting a batch does to the deduplicator, in terms of its id \<open>i\<close>: refused without a change, or accepted
  and noted, or failed.
\<close>

definition batch_effect :: "time \<Rightarrow> string \<Rightarrow> (uuid \<Rightarrow> string) \<Rightarrow> dedup \<Rightarrow> dedup \<Rightarrow> put_response response \<Rightarrow> bool" where
  "batch_effect t batch show_uuid d d' r \<longleftrightarrow>
     (case r of
        Reply c p \<Rightarrow>
          (let i = dedup_id show_uuid (pu_StreamUUID p) batch in
           if batch = [] then d' = d else \<not> rd_Exists i d \<and> d' = rd_Add t i d)
      | _ \<Rightarrow> d' = d \<or> (\<exists>u. d' = rd_Remove (dedup_id show_uuid u []) d \<and> batch = []) \<or>
          (\<exists>i. \<not> rd_Exists i d \<and> (d' = rd_Add t i d \<or> d' = rd_Remove i (rd_Add t i d)) \<and> batch \<noteq> []))"

lemma batch_effectI:
  "batch_effect t batch su d d (HTTPResponse e)"
  "batch = [] \<Longrightarrow> batch_effect t batch su d (rd_Remove (dedup_id su u []) d) (HTTPResponse e)"
  "batch \<noteq> [] \<Longrightarrow> \<not> rd_Exists i d \<Longrightarrow> batch_effect t batch su d (rd_Add t i d) (HTTPResponse e)"
  "batch \<noteq> [] \<Longrightarrow> \<not> rd_Exists i d \<Longrightarrow> batch_effect t batch su d (rd_Remove i (rd_Add t i d)) (HTTPResponse e)"
  "batch = [] \<Longrightarrow> batch_effect t batch su d d (Reply c p)"
  "batch \<noteq> [] \<Longrightarrow> pu_StreamUUID p = u \<Longrightarrow> \<not> rd_Exists (dedup_id su u batch) d \<Longrightarrow>
     batch_effect t batch su d (rd_Add t (dedup_id su u batch) d) (Reply c p)"
  by (auto simp: batch_effect_def)

lemma PutRecords_batch_effect:
  assumes "web_PutRecords sz t now parse_uuid show_uuid decode parse_body param batch ctype body w = Some (w', r)"
  shows "batch_effect t batch show_uuid (wb_reqDedupManager w) (wb_reqDedupManager w') r"
proof (cases "GetStreamFromParameter parse_uuid show_uuid param (wb_service w)")
  case (Inl e)
  with assms show ?thesis by (auto simp: web_PutRecords_def batch_effectI)
next
  case (Inr us)
  obtain u s where us: "us = (u, s)" by fastforce
  let ?i = "dedup_id show_uuid (GetUUID s) batch"
  show ?thesis
  proof (cases "batch \<noteq> [] \<and> rd_Exists ?i (wb_reqDedupManager w)")
    case True
    with assms Inr us show ?thesis by (auto simp: web_PutRecords_def batch_effectI)
  next
    case False
    with assms Inr us show ?thesis
      by (auto simp: web_PutRecords_def batch_effectI Let_def split: sum.splits option.splits if_splits)
  qed
qed

lemma PutRecord_batch_effect:
  assumes "web_PutRecord sz t now parse_uuid show_uuid param batch body w = Some (w', r)"
  shows "batch_effect t batch show_uuid (wb_reqDedupManager w) (wb_reqDedupManager w') r"
proof (cases "GetStreamFromParameter parse_uuid show_uuid param (wb_service w)")
  case (Inl e)
  with assms show ?thesis by (auto simp: web_PutRecord_def batch_effectI)
next
  case (Inr us)
  obtain u s where us: "us = (u, s)" by fastforce
  let ?i = "dedup_id show_uuid (GetUUID s) batch"
  show ?thesis
  proof (cases "batch \<noteq> [] \<and> rd_Exists ?i (wb_reqDedupManager w)")
    case True
    with assms Inr us show ?thesis by (auto simp: web_PutRecord_def batch_effectI)
  next
    case False
    with assms Inr us show ?thesis
      by (auto simp: web_PutRecord_def batch_effectI Let_def split: sum.splits option.splits if_splits)
  qed
qed

text \<open>Ids with an empty batch id are never added, so forgetting one changes nothing that was accepted.\<close>

definition full_ids :: "(uuid \<Rightarrow> string) \<Rightarrow> (time \<times> string) list \<Rightarrow> bool" where
  "full_ids show_uuid acc \<longleftrightarrow> (\<forall>(t, i) \<in> set acc. \<exists>u b. i = dedup_id show_uuid u b \<and> b \<noteq> [])"

lemma dedup_id_batch:
  "(\<And>u. length (show_uuid u) = 36) \<Longrightarrow> dedup_id show_uuid u b = dedup_id show_uuid v c \<Longrightarrow> b = c"
  by (simp add: dedup_id_def)

lemma batch_effect_run:
  assumes e: "batch_effect t' batch show_uuid d d' r" and "remembered ttl acc t d" and "far_apart ttl acc"
    and "full_ids show_uuid acc" and "t \<le> t'" and len: "\<And>u. length (show_uuid u) = 36"
  defines "acc' \<equiv> (case r of Reply c p \<Rightarrow>
      if batch = [] then acc else (t', dedup_id show_uuid (pu_StreamUUID p) batch) # acc | _ \<Rightarrow> acc)"
  shows "remembered ttl acc' t' d' \<and> far_apart ttl acc' \<and> full_ids show_uuid acc'"
proof -
  note later = remembered_later [OF assms(2) assms(5)]
  note add = remembered_add [OF assms(2) assms(5)]
  have rem: "remembered ttl acc t' (rd_Remove (dedup_id show_uuid u []) d)" for u
  proof -
    have "i \<noteq> dedup_id show_uuid u []" if "(t1, i) \<in> set acc" for t1 i
    proof -
      from assms(4) that obtain v b where "i = dedup_id show_uuid v b" "b \<noteq> []" by (auto simp: full_ids_def)
      with dedup_id_batch [of show_uuid v b u "[]"] len show ?thesis by auto
    qed
    with later show ?thesis by (auto simp: remembered_def rd_Remove_def)
  qed
  show ?thesis
  proof (cases r)
    case (Reply c p)
    show ?thesis
    proof (cases "batch = []")
      case True
      with Reply e later assms(3,4) show ?thesis by (simp add: batch_effect_def acc'_def Let_def)
    next
      case False
      with Reply e add(2,3) assms(3,4) show ?thesis
        by (fastforce simp: batch_effect_def acc'_def Let_def full_ids_def)
    qed
  next
    case (HTTPResponse x)
    with e later add(1,4) rem assms(3,4) show ?thesis by (auto simp: batch_effect_def acc'_def)
  next
    case (Crash x)
    with e later add(1,4) rem assms(3,4) show ?thesis by (auto simp: batch_effect_def acc'_def)
  qed
qed

lemma batch_run_inv:
  assumes "batch_run parse_uuid show_uuid d0 acc t w" and len: "\<And>u. length (show_uuid u) = 36"
  shows "remembered (rd_ttl d0) acc t (wb_reqDedupManager w) \<and> far_apart (rd_ttl d0) acc \<and> full_ids show_uuid acc"
  using assms(1)
proof (induction rule: batch_run.induct)
  case (br_start w t)
  then show ?case by (simp add: remembered_def full_ids_def)
next
  case (br_records acc t w t' sz now decode parse_body param batch ctype body w' r)
  show ?case
    by (rule batch_effect_run [OF PutRecords_batch_effect [OF br_records(3)] _ _ _ br_records(2) len])
      (use br_records.IH in simp_all)
next
  case (br_record acc t w t' sz now param batch mbody w' r)
  show ?case
    by (rule batch_effect_run [OF PutRecord_batch_effect [OF br_record(3)] _ _ _ br_record(2) len])
      (use br_record.IH in simp_all)
next
  case (br_clean acc t w t')
  from remembered_clean [OF conjunct1 [OF br_clean.IH] br_clean(2)] br_clean.IH show ?case by simp
qed simp

lemma far_apart_nth:
  "far_apart ttl acc \<Longrightarrow> j < k \<Longrightarrow> k < length acc \<Longrightarrow> acc ! j = (t2, i) \<Longrightarrow> acc ! k = (t1, i) \<Longrightarrow> t2 - t1 > ttl"
proof (induction acc arbitrary: j k)
  case (Cons a acc)
  obtain ta ia where a: "a = (ta, ia)" by fastforce
  obtain k' where k: "k = Suc k'" using Cons.prems(2) by (cases k) auto
  show ?case
  proof (cases j)
    case 0
    with Cons.prems a k have "(t1, ia) \<in> set acc" "ta = t2" "ia = i" by (auto simp: in_set_conv_nth)
    with Cons.prems(1) a show ?thesis by auto
  next
    case (Suc j')
    with Cons.prems Cons.IH [of j' k'] a k show ?thesis by auto
  qed
qed simp

section \<open>A sample server\<close>

definition sample_web_stream :: "(nat, nat, nat, nat) svc_stream" where
  "sample_web_stream = \<lparr>st_info = NewStreamInfo 0 7, st_iterators = Map.empty,
     st_ingestBuffer = \<lparr>ib_bulkFlushFrequency = 0, ib_bulkMaxSize = 2, ib_channelSize = 8, ib_channelMsg = [],
       ib_msgBuffer = [], ib_writer = 0\<rparr>, st_doneClosed = False, st_state = STREAM_STATE_RUNNING\<rparr>"

definition sample_web :: "(nat, nat, nat, nat, nat) web" where
  "sample_web = \<lparr>wb_service = \<lparr>sv_Hashmap = [7 \<mapsto> sample_web_stream], sv_sp = 0, sv_conf = sample_conf\<rparr>,
     wb_reqDedupManager = NewRequestDeduplicatorManager 300\<rparr>"

definition sample_show :: "uuid \<Rightarrow> string" where
  "sample_show u = replicate 36 CHR ''0''"

lemmas sample_web_defs = sample_web_def sample_web_stream_def NewRequestDeduplicatorManager_def
  GetStreamFromParameter_def GetStreamUUIDFromParameter_def GetStream_def GetUUID_def NewStreamInfo_def rd_defs

definition sample_put ::
    "time \<Rightarrow> (nat, nat, nat, nat, nat) web \<Rightarrow> ((nat, nat, nat, nat, nat) web \<times> put_response response) option" where
  "sample_put t w = web_PutRecords (\<lambda>_. 1) t t (\<lambda>_. Inr 7) sample_show (\<lambda>_. Inr [IOther 1, IOther 2])
     (\<lambda>_. Inr [IOther 3]) [] ''b'' ''application/json'' [] w"

lemma sample_put_once:
  assumes "\<not> rd_Exists (dedup_id sample_show 7 ''b'') (wb_reqDedupManager w)"
    and "GetStream 7 (wb_service w) = Some s" and "st_state s = STREAM_STATE_RUNNING" and "GetUUID s = 7"
    and "length (ib_channelMsg (st_ingestBuffer s)) < ib_channelSize (st_ingestBuffer s)"
  shows "\<exists>w' s' p. sample_put t w = Some (w', Reply 202 p) \<and> pu_StreamUUID p = 7 \<and>
     wb_reqDedupManager w' = rd_Add t (dedup_id sample_show 7 ''b'') (wb_reqDedupManager w) \<and>
     GetStream 7 (wb_service w') = Some s' \<and> st_state s' = STREAM_STATE_RUNNING \<and> GetUUID s' = 7 \<and>
     ib_channelSize (st_ingestBuffer s') = ib_channelSize (st_ingestBuffer s) \<and>
     length (ib_channelMsg (st_ingestBuffer s')) = Suc (length (ib_channelMsg (st_ingestBuffer s)))"
  using assms
  by (simp add: sample_put_def web_PutRecords_def GetStreamFromParameter_def GetStreamUUIDFromParameter_def
      records_of_body_def jsonlines_type_def PutMessages_def ingest_one_def first_ingested_def Let_def
      ib_PutMessage_def ib_sent_def GetUUID_def setStreamMap_def GetStream_def split: option.splits)

section \<open>Properties\<close>


definition created_web ::
    "((nat, (nat, nat stream_info) im_storage, nat in_memory_stream, nat in_memory_stream \<times> im_handler, nat) service \<Rightarrow> bool) \<Rightarrow> bool" where
  "created_web P \<longleftrightarrow> (\<exists>svc. web_CreateStream im_provider_ops (im_writer_ops (\<lambda>_. 1)) (\<lambda>_. []) 0 [7] (Inr (Some None)) sample_service =
     Some (svc, Reply 201 (st_info (the (GetStream 7 svc)))) \<and> GetStream 7 svc \<noteq> None \<and> P svc)"

lemma created_webI:
  assumes "\<And>svc. web_CreateStream im_provider_ops (im_writer_ops (\<lambda>_. 1)) (\<lambda>_. []) 0 [7] (Inr (Some None)) sample_service =
     Some (svc, Reply 201 (st_info (the (GetStream 7 svc)))) \<Longrightarrow> GetStream 7 svc \<noteq> None \<Longrightarrow> P svc"
  shows "created_web P"
proof -
  obtain svc where c: "svc_CreateStream im_provider_ops (im_writer_ops (\<lambda>_. 1)) 0 [7] (Some Map.empty) sample_service =
     Some (svc, Some 7, None)" "sv_Hashmap svc 7 \<noteq> None" using sample_create by blast
  then have "GetStream 7 svc \<noteq> None" by (simp add: GetStream_def split: option.splits)
  with c have "web_CreateStream im_provider_ops (im_writer_ops (\<lambda>_. 1)) (\<lambda>_. []) 0 [7] (Inr (Some None)) sample_service =
     Some (svc, Reply 201 (st_info (the (GetStream 7 svc)))) \<and> GetStream 7 svc \<noteq> None"
    by (auto simp: web_CreateStream_def GetPayload_def ValidateStruct_def convertToProperties_def)
  with assms show ?thesis by (auto simp: created_web_def)
qed


text \<open>
  C26: the properties of a stream are a map. In every state the server over the in-memory provider reaches, no
  stream has a nil map of properties, so setting and updating properties never panics: unless the body is the
  JSON value \<^verbatim>\<open>null\<close>, the answer is 200 or 400.
\<close>

theorem properties_never_nil:
  assumes "NewService im_provider_ops (im_writer_ops sz) order (NewInMemoryStorageProvider parsed maxRecords) conf = Inr svc0"
    and "order [] = []" and "wb_service w0 = svc0"
    and "(web_step im_provider_ops (im_writer_ops sz) ho parse)\<^sup>*\<^sup>* w0 w"
    and "body \<noteq> Inr None"
  shows "(\<forall>u s. GetStream u (wb_service w) = Some s \<longrightarrow> st_GetProperties s \<noteq> None) \<and>
    status_of (snd (web_SetStreamProperties validate parse_uuid show_uuid param body (wb_service w))) \<in> {Some 200, Some 400} \<and>
    status_of (snd (web_UpdateStreamProperties validate parse_uuid show_uuid param body (wb_service w))) \<in> {Some 200, Some 400}"
proof -
  have "all_have_properties (wb_service w0)"
    using im_NewService [OF assms(1,2)] assms(3) by (simp add: all_have_properties_def)
  with im_service.web_steps_properties [OF assms(4)] have p: "all_have_properties (wb_service w)" by blast
  show ?thesis
  proof (intro conjI)
    show "\<forall>u s. GetStream u (wb_service w) = Some s \<longrightarrow> st_GetProperties s \<noteq> None"
      using p by (simp add: all_have_properties_def has_properties_def GetStream_Some st_GetProperties_def)
  qed (unfold web_SetStreamProperties_def web_UpdateStreamProperties_def, (rule change_answers [OF p assms(5)], simp)+)
qed

lemma properties_never_nil_witness:
  "created_web (\<lambda>svc. st_GetProperties (the (GetStream 7 svc)) \<noteq> None)"
proof (rule created_webI)
  fix svc
  assume c: "web_CreateStream im_provider_ops (im_writer_ops (\<lambda>_. 1)) (\<lambda>_. []) 0 [7] (Inr (Some None)) sample_service =
     Some (svc, Reply 201 (st_info (the (GetStream 7 svc))))" and g: "GetStream 7 svc \<noteq> None"
  let ?w = "\<lparr>wb_service = sample_service, wb_reqDedupManager = NewRequestDeduplicatorManager 1\<rparr>"
  have "(web_step im_provider_ops (im_writer_ops (\<lambda>_. 1)) im_ops (\<lambda>_. Inr 0))\<^sup>*\<^sup>* ?w (?w\<lparr>wb_service := svc\<rparr>)"
    by (rule r_into_rtranclp, rule ws_create) (use c in simp)
  from properties_never_nil [OF new_sample_service [unfolded new_sample_service_def] _ _ this,
      of "Inl (Error [])" "\<lambda>_. []" "\<lambda>_. Inr 7" "\<lambda>_. []" "[]"] g
  show "st_GetProperties (the (GetStream 7 svc)) \<noteq> None" by auto
qed



lemma setStreamMap_same: "GetStream u svc = Some s \<Longrightarrow> setStreamMap u (Some s) svc = svc"
  by (simp add: setStreamMap_def GetStream_Some fun_upd_idem)

lemma PutMessages_error: "PutMessages sz now records s = Some (s', Inl e) \<Longrightarrow> s' = s"
  by (auto simp: PutMessages_def split: if_splits option.splits)



text \<open>
  The single-record route forgets nothing. When the body of a record with a batch id cannot be parsed the
  answer is 400 and nothing is stored, but the batch id stays noted: sending the record again, with a correct
  body, is refused as already processed until the id expires. (The route for several records forgets the id.)
\<close>

theorem failed_record_blocks_retry:
  assumes "GetStreamFromParameter parse_uuid show_uuid param (wb_service w) = Inr (u, s)" and "batch \<noteq> []"
    and "\<not> rd_Exists (dedup_id show_uuid (GetUUID s) batch) (wb_reqDedupManager w)"
  shows "\<exists>w1. web_PutRecord sz t now parse_uuid show_uuid param batch (Inl e) w =
       Some (w1, HTTPResponse (simple_error 400 ErrorCantCreateStream ''invalid json body format'' (Some e))) \<and>
     wb_service w1 = wb_service w \<and>
     (t' - t \<le> rd_ttl (wb_reqDedupManager w) \<longrightarrow>
      (\<forall>w2. w2 = w1\<lparr>wb_reqDedupManager := CleanupExpiredEntries t' (wb_reqDedupManager w1)\<rparr> \<longrightarrow>
        web_PutRecord sz t' now' parse_uuid show_uuid param batch (Inr m) w2 =
          Some (w2, HTTPResponse (duplicated_batch (GetUUID s) batch))))"
proof -
  let ?i = "dedup_id show_uuid (GetUUID s) batch"
  let ?w1 = "w\<lparr>wb_reqDedupManager := rd_Add t ?i (wb_reqDedupManager w)\<rparr>"
  have 1: "web_PutRecord sz t now parse_uuid show_uuid param batch (Inl e) w =
       Some (?w1, HTTPResponse (simple_error 400 ErrorCantCreateStream ''invalid json body format'' (Some e)))"
    using assms by (simp add: web_PutRecord_def Let_def)
  have "web_PutRecord sz t' now' parse_uuid show_uuid param batch (Inr m) w2 =
      Some (w2, HTTPResponse (duplicated_batch (GetUUID s) batch))"
    if "t' - t \<le> rd_ttl (wb_reqDedupManager w)"
      "w2 = ?w1\<lparr>wb_reqDedupManager := CleanupExpiredEntries t' (wb_reqDedupManager ?w1)\<rparr>" for w2
  proof -
    have "rd_processedIDs (CleanupExpiredEntries t' (wb_reqDedupManager ?w1)) ?i = Some t"
      by (rule Cleanup_keeps) (use that(1) in \<open>simp_all add: rd_Add_def\<close>)
    with that(2) have "rd_Exists ?i (wb_reqDedupManager w2)" by (simp add: rd_Exists_def)
    moreover have "wb_service w2 = wb_service w" using that(2) by simp
    ultimately show ?thesis using assms(1,2) by (simp add: web_PutRecord_def)
  qed
  with 1 show ?thesis by (intro exI [of _ ?w1]) simp
qed

lemma failed_record_blocks_retry_witness:
  "\<exists>w1. web_PutRecord (\<lambda>_. 1) 0 0 (\<lambda>_. Inr 7) sample_show [] ''b'' (Inl (Error ''bad'')) sample_web =
      Some (w1, HTTPResponse (simple_error 400 ErrorCantCreateStream ''invalid json body format'' (Some (Error ''bad'')))) \<and>
    (\<exists>w2 :: (nat, nat, nat, nat, nat) web. web_PutRecord (\<lambda>_. 1) 200 200 (\<lambda>_. Inr 7) sample_show [] ''b'' (Inr (IOther 1)) w2 =
      Some (w2, HTTPResponse (duplicated_batch 7 ''b'')))"
proof -
  have g: "GetStreamFromParameter (\<lambda>_. Inr 7) sample_show [] (wb_service sample_web) = Inr (7, sample_web_stream)"
    and u: "GetUUID sample_web_stream = 7" and b: "''b'' \<noteq> []"
    and n: "\<not> rd_Exists (dedup_id sample_show (GetUUID sample_web_stream) ''b'') (wb_reqDedupManager sample_web)"
    and ttl: "200 - 0 \<le> rd_ttl (wb_reqDedupManager sample_web)"
    by (simp_all add: sample_web_defs)
  from failed_record_blocks_retry [OF g b n, of "\<lambda>_. 1" 0 0 "Error ''bad''" 200 200 "IOther 1"]
  obtain w1 where "web_PutRecord (\<lambda>_. 1) 0 0 (\<lambda>_. Inr 7) sample_show [] ''b'' (Inl (Error ''bad'')) sample_web =
      Some (w1, HTTPResponse (simple_error 400 ErrorCantCreateStream ''invalid json body format'' (Some (Error ''bad''))))"
    "web_PutRecord (\<lambda>_. 1) 200 200 (\<lambda>_. Inr 7) sample_show [] ''b'' (Inr (IOther 1))
      (w1\<lparr>wb_reqDedupManager := CleanupExpiredEntries 200 (wb_reqDedupManager w1)\<rparr>) =
      Some (w1\<lparr>wb_reqDedupManager := CleanupExpiredEntries 200 (wb_reqDedupManager w1)\<rparr>,
        HTTPResponse (duplicated_batch 7 ''b''))"
    using ttl u by auto
  then show ?thesis by (intro exI conjI)
qed

text \<open>
  A body that is the JSON value \<^verbatim>\<open>null\<close> crashes the server. Creating a stream, changing its properties
  and hashing a password panic on it, whatever the state, and nothing recovers the panic.
\<close>

theorem null_body_crashes:
  "web_CreateStream po wo validate now ds (Inr None) svc = Some (svc, Crash (Panic ''interface conversion'')) \<and>
   web_SetStreamProperties validate parse_uuid show_uuid param (Inr None) svc = (svc, Crash (Panic ''interface conversion'')) \<and>
   web_UpdateStreamProperties validate parse_uuid show_uuid param (Inr None) svc = (svc, Crash (Panic ''interface conversion'')) \<and>
   ApiServerUtilsPbkdf2 kdf valid_payload (Inr None) = Crash (Panic ''interface conversion'')"
  by (simp add: web_CreateStream_def GetPayload_def ValidateStruct_def web_SetStreamProperties_def
      web_UpdateStreamProperties_def web_change_properties_def ApiServerUtilsPbkdf2_def)

end
