(* ===== verification/Jwt.thy ===== *)
theory Jwt
  imports Rbac Auth ApiError
begin

text \<open>
  JSON web tokens and the login routes (web/jwt.go, web/apiuser.go, web/apiaccount.go, web/apiserver.go,
  account/account.go, auditlog/auditlog.go): issuing tokens, checking them, and the chain of handlers in
  front of a protected route.
\<close>

section \<open>Claims and configuration\<close>

text \<open>
  The values of claims as the code looks into them. A JSON number is kept by its integer part, the
  only thing the code takes of it.
\<close>

datatype jvalue = JStr string | JBool bool | JNum int | JList "jvalue list" | JOther

type_synonym claims = "string \<rightharpoonup> jvalue"

record jwt_config =
  jc_Enable :: bool
  jc_SecretKey :: string
  jc_TokenExpireInMinutes :: int
  jc_ISS :: string
  jc_Sub :: string
  jc_Aud :: string
  jc_AccountId :: string
  jc_RevokeEmittedBeforeDate :: time

text \<open>\<open>key\<close> is what \<^verbatim>\<open>rand.Read\<close> gives, or its error.\<close>

definition jwt_Initialize :: "go_error + string \<Rightarrow> jwt_config \<Rightarrow> go_error + jwt_config" where
  "jwt_Initialize key conf =
     (if jc_SecretKey conf \<noteq> [] then Inr conf
      else case key of Inl e \<Rightarrow> Inl (Panic ''rand'') | Inr k \<Rightarrow> Inr (conf\<lparr>jc_SecretKey := k\<rparr>))"

definition RevokeAll :: "time \<Rightarrow> jwt_config \<Rightarrow> jwt_config" where
  "RevokeAll now m = m\<lparr>jc_RevokeEmittedBeforeDate := now\<rparr>"

definition ResetConfig :: "jwt_config \<Rightarrow> jwt_config" where
  "ResetConfig m = \<lparr>jc_Enable = False, jc_SecretKey = [], jc_TokenExpireInMinutes = 0, jc_ISS = [], jc_Sub = [],
     jc_Aud = [], jc_AccountId = [], jc_RevokeEmittedBeforeDate = zero_time\<rparr>"

section \<open>Issuing tokens\<close>

definition base_claims :: "jwt_config \<Rightarrow> time \<Rightarrow> string \<Rightarrow> claims" where
  "base_claims m now jti =
     [''iss'' \<mapsto> JStr (jc_ISS m), ''sub'' \<mapsto> JStr (jc_Sub m), ''aud'' \<mapsto> JStr (jc_Aud m),
      ''exp'' \<mapsto> JNum (Unix (now + seconds (60 * jc_TokenExpireInMinutes m))), ''iat'' \<mapsto> JNum (Unix now),
      ''jti'' \<mapsto> JStr jti, ''account'' \<mapsto> JStr (jc_AccountId m)]"

record jwt_result =
  jr_success :: bool
  jr_token :: string
  jr_claims :: claims
  jr_err :: "go_error option"

text \<open>
  \<^verbatim>\<open>GenerateJWT\<close>. \<open>auth u pw\<close> is \<^verbatim>\<open>auth.AuthMgr.AuthenticateUser\<close> as it answers now, \<open>sign key cs\<close> the
  signed token. An access manager without a configuration is dereferenced.
\<close>

definition GenerateJWT ::
    "(string \<Rightarrow> string \<Rightarrow> go_error + bool) \<Rightarrow> (string \<Rightarrow> claims \<Rightarrow> go_error + string) \<Rightarrow> 'q rbac_manager \<Rightarrow>
       jwt_config \<Rightarrow> time \<Rightarrow> string \<Rightarrow> bool \<Rightarrow> string \<Rightarrow> string \<Rightarrow> go_error + jwt_result" where
  "GenerateJWT auth sign mgr m now jti isSuperUser accessKeyId secretAccessKey =
     (let claims = (if isSuperUser then (base_claims m now jti)(''superuser'' \<mapsto> JBool True)
                    else base_claims m now jti);
          finish = (\<lambda>success cs err.
            if \<not> success then Inr \<lparr>jr_success = success, jr_token = [], jr_claims = cs, jr_err = err\<rparr>
            else case sign (jc_SecretKey m) cs of
              Inl e \<Rightarrow> Inr \<lparr>jr_success = success, jr_token = [], jr_claims = cs, jr_err = Some e\<rparr>
            | Inr t \<Rightarrow> Inr \<lparr>jr_success = True, jr_token = t, jr_claims = cs, jr_err = None\<rparr>) in
      if accessKeyId \<noteq> [] \<and> secretAccessKey \<noteq> [] then
        (case mg_Rbac mgr of
           None \<Rightarrow> Inl (Panic ''nil pointer dereference'')
         | Some r \<Rightarrow>
             (case GetUser r accessKeyId of
                Inl e \<Rightarrow> finish isSuperUser claims (Some e)
              | Inr user \<Rightarrow>
                  (let cs = claims(''user'' \<mapsto> JStr (us_Id user), ''roles'' \<mapsto> JList (map JStr (user_GetRoles user))) in
                   case auth accessKeyId secretAccessKey of
                     Inl (Panic p) \<Rightarrow> Inl (Panic p)
                   | Inl (Error e) \<Rightarrow>
                       Inr \<lparr>jr_success = False, jr_token = [], jr_claims = cs, jr_err = Some (Error e)\<rparr>
                   | Inr ok \<Rightarrow> finish ok cs None)))
      else finish isSuperUser claims None)"

section \<open>Checking tokens\<close>

text \<open>How a handler in front of a route ends.\<close>

datatype 'q gate = Pass "'q ctx" | Answer api_error | Fail go_error | Die go_error

definition jwt_rejected :: "string \<Rightarrow> 'q gate" where
  "jwt_rejected msg = Answer (simple_error 401 ErrorJWTInvalidOrExpired msg None)"

definition jwtError :: "go_error \<Rightarrow> 'q gate" where
  "jwtError err =
     (if err = Error ''Missing or malformed JWT''
      then Answer (simple_error 400 ErrorJWTMissingOrMalformed ''missing or malformed jwt'' None)
      else jwt_rejected ''invalid or expired jwt'')"

definition GetJWTClaim :: "claims option \<Rightarrow> string \<Rightarrow> go_error + jvalue option" where
  "GetJWTClaim token key = (case token of None \<Rightarrow> Inl (Error ''JWT not found'') | Some cs \<Rightarrow> Inr (cs key))"

definition as_string :: "jvalue \<Rightarrow> go_error + string" where
  "as_string v = (case v of JStr s \<Rightarrow> Inr s | _ \<Rightarrow> Inl (Panic ''interface conversion''))"

text \<open>
  \<^verbatim>\<open>JWTPostValidate\<close> on the claims of a token that the JWT library accepted. A type assertion that fails
  panics.
\<close>

definition JWTPostValidate :: "'q rbac_manager \<Rightarrow> jwt_config \<Rightarrow> claims \<Rightarrow> 'q ctx \<Rightarrow> 'q gate" where
  "JWTPostValidate mgr m cs c =
     (if \<not> (cs ''iss'' = Some (JStr (jc_ISS m)) \<and> cs ''sub'' = Some (JStr (jc_Sub m)) \<and>
            cs ''aud'' = Some (JStr (jc_Aud m)) \<and> cs ''account'' = Some (JStr (jc_AccountId m)))
      then jwt_rejected ''invalid jwt''
      else case cs ''iat'' of
        Some (JNum iat) \<Rightarrow>
          if iat < Unix (jc_RevokeEmittedBeforeDate m) then jwt_rejected ''jwt was revoked''
          else if cs ''superuser'' = Some (JBool True) then Pass (c\<lparr>cx_superuser := True\<rparr>)
          else if IsEnabled mgr then
            (case cs ''roles'' of
               Some (JList vs) \<Rightarrow>
                 (case collect as_string vs of
                    Inl e \<Rightarrow> Die e
                  | Inr names \<Rightarrow>
                      (case mg_Rbac mgr of
                         None \<Rightarrow> Die (Panic ''nil pointer dereference'')
                       | Some r \<Rightarrow>
                           (case GetRoles r names of
                              Inl e \<Rightarrow> Answer (simple_error 403 ErrorJWTRBACUnknownRole ''invalid jwt'' (Some e))
                            | Inr roles \<Rightarrow> Pass (c\<lparr>cx_roles := Some (Some roles),
                                cx_user := (case cs ''user'' of Some (JStr u) \<Rightarrow> Some u | _ \<Rightarrow> None)\<rparr>))))
             | _ \<Rightarrow> Die (Panic ''interface conversion''))
          else Pass c
      | _ \<Rightarrow> Die (Panic ''interface conversion''))"

text \<open>
  The middleware of the library: skipped when tokens are disabled; otherwise \<open>checked\<close> is the result of
  finding the token in the request, checking its signature and its expiration.
\<close>

definition JWTProtected :: "'q rbac_manager \<Rightarrow> jwt_config \<Rightarrow> go_error + claims \<Rightarrow> 'q ctx \<Rightarrow> 'q gate" where
  "JWTProtected mgr m checked c =
     (if \<not> jc_Enable m then Pass c
      else case checked of Inl e \<Rightarrow> jwtError e | Inr cs \<Rightarrow> JWTPostValidate mgr m cs c)"

section \<open>The audit log and the chain in front of a route\<close>

record audit_config =
  au_Enable :: bool
  au_EnableLogAccessGranted :: bool

definition is_string :: "jvalue option \<Rightarrow> bool" where
  "is_string v = (case v of Some (JStr s) \<Rightarrow> True | _ \<Rightarrow> False)"

definition RBACHandlerLogAccessGranted :: "claims option \<Rightarrow> 'q ctx \<Rightarrow> 'q gate" where
  "RBACHandlerLogAccessGranted token c =
     (case token of
        None \<Rightarrow> Fail (Error ''JWT not found'')
      | Some cs \<Rightarrow> if is_string (cs ''account'') \<and> is_string (cs ''jti'') then Pass c
                   else Die (Panic ''interface conversion''))"

definition RBACHandlerLogAccessDeny :: "claims option \<Rightarrow> go_error option \<Rightarrow> bool \<Rightarrow> 'q ctx \<Rightarrow> 'q gate" where
  "RBACHandlerLogAccessDeny token err auditLogEnabled c =
     (let answer = (\<lambda>action. case err of
            Some e \<Rightarrow> Answer (simple_error 500 ErrorRBACInvalidRule ''rbac error'' (Some e))
          | None \<Rightarrow> Answer (simple_error 403 ErrorRBACForbidden ''rbac action forbidden'' (map_option Error action))) in
      case cx_rbac c of
        None \<Rightarrow>
          if auditLogEnabled \<and> err = None then Die (Panic ''nil pointer dereference'') else answer None
      | Some attrs \<Rightarrow>
          (case map_of attrs ''action'' of
             None \<Rightarrow> Die (Panic ''nil pointer dereference'')
           | Some action \<Rightarrow>
               if \<not> auditLogEnabled then answer (Some action)
               else (case token of
                   None \<Rightarrow> Fail (Error ''JWT not found'')
                 | Some cs \<Rightarrow> if is_string (cs ''account'') \<and> is_string (cs ''jti'') then answer (Some action)
                              else Die (Panic ''interface conversion''))))"

text \<open>The answer to a request that no rule allows.\<close>

definition forbidden :: "string \<Rightarrow> 'q gate" where
  "forbidden action = Answer (simple_error 403 ErrorRBACForbidden ''rbac action forbidden'' (Some (Error action)))"

text \<open>The middleware of access control with the audit handlers that \<^verbatim>\<open>AddRoutes\<close> installs; the routes pass
  no condition handler.\<close>

definition rbac_gate ::
    "('q \<Rightarrow> nat iface \<Rightarrow> nat iface list) \<Rightarrow> audit_config \<Rightarrow> bool \<Rightarrow> string \<Rightarrow> claims option \<Rightarrow> 'q ctx \<Rightarrow> 'q gate" where
  "rbac_gate run au enableRBAC action token c =
     (case NewRBACHandler run (RBACProtected enableRBAC action None) c of
        Inl e \<Rightarrow> Die e
      | Inr (c', Next_Handler) \<Rightarrow> Pass c'
      | Inr (c', Success_Handler) \<Rightarrow>
          if \<not> au_Enable au \<or> \<not> au_EnableLogAccessGranted au then Pass c'
          else RBACHandlerLogAccessGranted token c'
      | Inr (c', Error_Handler err) \<Rightarrow> RBACHandlerLogAccessDeny token err (au_Enable au) c')"

definition empty_ctx :: "'q ctx" where
  "empty_ctx = \<lparr>cx_superuser = False, cx_roles = None, cx_user = None, cx_rbac = None, cx_abac = None\<rparr>"

definition protected_route ::
    "('q \<Rightarrow> nat iface \<Rightarrow> nat iface list) \<Rightarrow> 'q rbac_manager \<Rightarrow> jwt_config \<Rightarrow> audit_config \<Rightarrow> bool \<Rightarrow> string \<Rightarrow>
       go_error + claims \<Rightarrow> 'q gate" where
  "protected_route run mgr m au enableRBAC action checked =
     (let token = (if jc_Enable m then (case checked of Inl e \<Rightarrow> None | Inr cs \<Rightarrow> Some cs) else None) in
      case JWTProtected mgr m checked empty_ctx of
        Pass c \<Rightarrow> rbac_gate run au enableRBAC action token c
      | g \<Rightarrow> g)"

section \<open>The account and the login routes\<close>

record account =
  ca_Id :: uuid
  ca_Name :: string
  ca_SecretAPIKey :: string

text \<open>
  \<open>u\<close> is a random UUID, \<open>key\<close> a random secret. \<^verbatim>\<open>UUID.ID()\<close> is the first 32 bits of the UUID: they decide
  whether it counts as unset.
\<close>

definition account_Initialize :: "uuid \<Rightarrow> string \<Rightarrow> account \<Rightarrow> account" where
  "account_Initialize u key a =
     (let a1 = (if drop_bit 96 (ca_Id a) = 0 then a\<lparr>ca_Id := u\<rparr> else a) in
      if ca_SecretAPIKey a1 = [] then a1\<lparr>ca_SecretAPIKey := key\<rparr> else a1)"

text \<open>What a login route answers: the token.\<close>

definition GetAccount :: "account \<Rightarrow> (uuid \<times> string) response" where
  "GetAccount a = Reply 200 (ca_Id a, ca_Name a)"

definition jwt_not_enabled :: "'b response" where
  "jwt_not_enabled = HTTPResponse (simple_error 400 ErrorJWTNotEnabled ''bad Request''
     (Some (Error ''JWT is not enabled on server'')))"

definition ValidateApiKey :: "bool \<Rightarrow> account \<Rightarrow> string \<Rightarrow> unit response" where
  "ValidateApiKey jwtEnable a apiKey =
     (if \<not> jwtEnable then jwt_not_enabled
      else if apiKey = ca_SecretAPIKey a then Reply 200 ()
      else HTTPResponse ((simple_error 403 ErrorInvalidParameterValue ''invalid hash value''
        (Some (Error ''wrong secret value or non existing header key/value'')))
          \<lparr>ae_ValidationErrors := [(''API-KEY'', ''header'', [])]\<rparr>))"

definition LoginAccount ::
    "(bool \<Rightarrow> string \<Rightarrow> string \<Rightarrow> go_error + jwt_result) \<Rightarrow> bool \<Rightarrow> account \<Rightarrow> string \<Rightarrow> string response" where
  "LoginAccount generate jwtEnable a apiKey =
     (if \<not> jwtEnable then jwt_not_enabled
      else
        (let refused = HTTPResponse ((simple_error 403 ErrorInvalidParameterValue ''wrong credentials'' None)
               \<lparr>ae_ValidationErrors := [(''API-KEY'', ''header'', [])]\<rparr>) in
         if apiKey = ca_SecretAPIKey a then
           (case generate True [] [] of
              Inl e \<Rightarrow> Crash e
            | Inr r \<Rightarrow> if \<not> jr_success r \<or> jr_err r \<noteq> None then refused else Reply 200 (jr_token r))
         else refused))"

definition LoginUser ::
    "(bool \<Rightarrow> string \<Rightarrow> string \<Rightarrow> go_error + jwt_result) \<Rightarrow> bool \<Rightarrow> bool \<Rightarrow> string \<Rightarrow> string \<Rightarrow> string response" where
  "LoginUser generate jwtEnable rbacEnable accessKeyId secretAccessKey =
     (if \<not> jwtEnable then jwt_not_enabled
      else if \<not> rbacEnable then HTTPResponse (simple_error 400 ErrorJWTNotEnabled ''bad Request''
        (Some (Error ''RBAC is not enabled on server'')))
      else case generate False accessKeyId secretAccessKey of
        Inl e \<Rightarrow> Crash e
      | Inr r \<Rightarrow>
          if jr_err r \<noteq> None then HTTPResponse (simple_error 500 ErrorAuthInternalError ''authenticate user error'' None)
          else if \<not> jr_success r then HTTPResponse (simple_error 403 ErrorWrongCredentials ''wrong credentials'' None)
          else Reply 200 (jr_token r))"

definition ListUsers :: "bool \<Rightarrow> 'q rbac_manager \<Rightarrow> string list \<Rightarrow> string list response" where
  "ListUsers rbacEnable mgr ks =
     (if \<not> rbacEnable then HTTPResponse (simple_error 400 ErrorRBACNotEnabled ''bad Request''
        (Some (Error ''RBAC is not enabled on server'')))
      else case mg_Rbac mgr of None \<Rightarrow> Crash (Panic ''nil pointer dereference'') | Some r \<Rightarrow> Reply 200 ks)"

definition ActionJWTRevokeAll :: "time \<Rightarrow> jwt_config \<Rightarrow> jwt_config \<times> unit response" where
  "ActionJWTRevokeAll now m = (RevokeAll now m, Reply 200 ())"

section \<open>Lemmas\<close>

lemma collect_as_string: "collect as_string (map JStr names) = Inr names"
  by (induction names) (simp_all add: as_string_def)

text \<open>The claims of a token that \<^verbatim>\<open>GenerateJWT\<close> issued to a user.\<close>

lemma GenerateJWT_user:
  assumes "GenerateJWT auth sign mgr m now jti False u pw = Inr res" and "jr_success res" and "jr_err res = None"
  shows "\<exists>r user. mg_Rbac mgr = Some r \<and> GetUser r u = Inr user \<and> auth u pw = Inr True \<and>
     jr_claims res = (base_claims m now jti)(''user'' \<mapsto> JStr (us_Id user), ''roles'' \<mapsto> JList (map JStr (user_GetRoles user)))"
  using assms
  by (auto simp: GenerateJWT_def Let_def split: if_splits option.splits sum.splits go_error.splits)

lemma JWTPostValidate_user:
  assumes "jr_claims res = (base_claims m now jti)(''user'' \<mapsto> JStr uid, ''roles'' \<mapsto> JList (map JStr names))"
    and "mg_enabled mgr" and "mg_Rbac mgr = Some r"
  shows "JWTPostValidate mgr m (jr_claims res) c =
    (if Unix now < Unix (jc_RevokeEmittedBeforeDate m) then jwt_rejected ''jwt was revoked''
     else case GetRoles r names of
       Inl e \<Rightarrow> Answer (simple_error 403 ErrorJWTRBACUnknownRole ''invalid jwt'' (Some e))
     | Inr roles \<Rightarrow> Pass (c\<lparr>cx_roles := Some (Some roles), cx_user := Some uid\<rparr>))"
  using assms by (auto simp: JWTPostValidate_def base_claims_def collect_as_string IsEnabled_def split: sum.splits)

lemma rbac_gate_user:
  assumes "\<not> cx_superuser c" and "cx_roles c = Some (Some roles)" and "cx_user c = Some u"
    and "is_string (cs ''account'')" and "is_string (cs ''jti'')"
  shows "if \<exists>rule. names_action action roles rule then \<exists>c'. rbac_gate run au True action (Some cs) c = Pass c'
     else rbac_gate run au True action (Some cs) c = forbidden action"
proof (cases "\<exists>rule. names_action action roles rule")
  case True
  with handler_no_condition [OF assms(1-3), of action run] obtain c' where
    "NewRBACHandler run (RBACProtected True action None) c = Inr (c', Success_Handler)" by auto
  with True assms(4,5) show ?thesis by (auto simp: rbac_gate_def RBACHandlerLogAccessGranted_def)
next
  case False
  with handler_no_condition [OF assms(1-3), of action run] obtain c' where
    "NewRBACHandler run (RBACProtected True action None) c = Inr (c', Error_Handler None)"
    "cx_rbac c' = Some [(''user'', u), (''action'', action)]" by auto
  with False assms(4,5) show ?thesis by (auto simp: rbac_gate_def RBACHandlerLogAccessDeny_def forbidden_def Let_def)
qed

text \<open>What a token issued to a user meets at a route.\<close>

lemma issued_token_route:
  assumes "GenerateJWT auth sign mgr m now jti False u pw = Inr res" and "jr_success res" and "jr_err res = None"
    and "mg_enabled mgr" and "mg_Rbac mgr = Some r" and "jc_Enable m"
    and "GetUserRoles r u = Inr names" and "GetRoles r names = Inr roles"
  shows "auth u pw = Inr True" and
    "Unix now < Unix (jc_RevokeEmittedBeforeDate m) \<Longrightarrow>
       protected_route run mgr m au True action (Inr (jr_claims res)) = jwt_rejected ''jwt was revoked''" and
    "Unix (jc_RevokeEmittedBeforeDate m) \<le> Unix now \<Longrightarrow>
       if \<exists>rule. names_action action roles rule
       then \<exists>c. protected_route run mgr m au True action (Inr (jr_claims res)) = Pass c
       else protected_route run mgr m au True action (Inr (jr_claims res)) = forbidden action"
proof -
  from GenerateJWT_user [OF assms(1-3)] assms(5) obtain user where user: "GetUser r u = Inr user"
    and auth: "auth u pw = Inr True"
    and cl: "jr_claims res = (base_claims m now jti)(''user'' \<mapsto> JStr (us_Id user),
        ''roles'' \<mapsto> JList (map JStr (user_GetRoles user)))" by auto
  show "auth u pw = Inr True" by (rule auth)
  have names: "user_GetRoles user = names"
    using user assms(7) by (auto simp: GetUser_def GetUserRoles_def split: option.splits)
  let ?c = "empty_ctx\<lparr>cx_roles := Some (Some roles), cx_user := Some (us_Id user)\<rparr>"
  have pv: "JWTPostValidate mgr m (jr_claims res) empty_ctx =
      (if Unix now < Unix (jc_RevokeEmittedBeforeDate m) then jwt_rejected ''jwt was revoked'' else Pass ?c)"
    using JWTPostValidate_user [OF cl assms(4,5), of empty_ctx] assms(8) by (simp add: names)
  have st: "is_string (jr_claims res ''account'')" "is_string (jr_claims res ''jti'')"
    by (simp_all add: cl base_claims_def is_string_def)
  have route: "protected_route run mgr m au True action (Inr (jr_claims res)) =
      (if Unix now < Unix (jc_RevokeEmittedBeforeDate m) then jwt_rejected ''jwt was revoked''
       else rbac_gate run au True action (Some (jr_claims res)) ?c)"
    using assms(6) pv by (simp add: protected_route_def JWTProtected_def jwt_rejected_def)
  show "Unix now < Unix (jc_RevokeEmittedBeforeDate m) \<Longrightarrow>
      protected_route run mgr m au True action (Inr (jr_claims res)) = jwt_rejected ''jwt was revoked''"
    using route by simp
  have "if \<exists>rule. names_action action roles rule
      then \<exists>c'. rbac_gate run au True action (Some (jr_claims res)) ?c = Pass c'
      else rbac_gate run au True action (Some (jr_claims res)) ?c = forbidden action"
    by (rule rbac_gate_user) (simp_all add: empty_ctx_def st)
  with route show "if \<exists>rule. names_action action roles rule
      then \<exists>c. protected_route run mgr m au True action (Inr (jr_claims res)) = Pass c
      else protected_route run mgr m au True action (Inr (jr_claims res)) = forbidden action"
    if "Unix (jc_RevokeEmittedBeforeDate m) \<le> Unix now"
    using that by simp
qed

text \<open>Revoking changes nothing but the date of the revocation.\<close>

lemma RevokeAll_sel [simp]:
  "base_claims (RevokeAll t m) = base_claims m" "jc_SecretKey (RevokeAll t m) = jc_SecretKey m"
  "jc_Enable (RevokeAll t m) = jc_Enable m" "jc_RevokeEmittedBeforeDate (RevokeAll t m) = t"
  by (auto simp: RevokeAll_def base_claims_def fun_eq_iff)

lemma GenerateJWT_RevokeAll [simp]:
  "GenerateJWT auth sign mgr (RevokeAll t m) = GenerateJWT auth sign mgr m"
  by (intro ext) (simp only: GenerateJWT_def RevokeAll_sel)

lemma collect_as_string_iff: "collect as_string vs = Inr names \<longleftrightarrow> vs = map JStr names"
proof
  show "collect as_string vs = Inr names \<Longrightarrow> vs = map JStr names"
    by (induction vs arbitrary: names) (auto simp: as_string_def split: sum.splits jvalue.splits)
qed (simp add: collect_as_string)

lemma JWTPostValidate_Pass:
  assumes "JWTPostValidate mgr m cs c = Pass c'"
  shows "cs ''iss'' = Some (JStr (jc_ISS m))" "cs ''sub'' = Some (JStr (jc_Sub m))" "cs ''aud'' = Some (JStr (jc_Aud m))"
    "cs ''account'' = Some (JStr (jc_AccountId m))"
    "\<exists>iat. cs ''iat'' = Some (JNum iat) \<and> Unix (jc_RevokeEmittedBeforeDate m) \<le> iat"
    "cs ''superuser'' = Some (JBool True) \<and> c' = c\<lparr>cx_superuser := True\<rparr> \<or>
     (\<exists>r names roles u. mg_Rbac mgr = Some r \<and> cs ''roles'' = Some (JList (map JStr names)) \<and>
        GetRoles r names = Inr roles \<and> c' = c\<lparr>cx_roles := Some (Some roles), cx_user := u\<rparr>) \<or>
     \<not> mg_enabled mgr \<and> c' = c"
  using assms
  by (auto simp: JWTPostValidate_def jwt_rejected_def IsEnabled_def collect_as_string_iff
      split: if_splits option.splits jvalue.splits sum.splits)

lemma rbac_gate_Pass:
  assumes "rbac_gate run au True action token c = Pass c'" and "\<not> cx_superuser c"
  shows "\<exists>roles rule. cx_roles c = Some (Some roles) \<and> names_action action roles rule"
proof -
  obtain roles u where ru: "cx_roles c = Some (Some roles)" "cx_user c = Some u"
    using assms
    by (auto simp: rbac_gate_def NewRBACHandler_def RBACProtected_def RBACHandlerLogAccessDeny_def Let_def
        split: option.splits if_splits)
  show ?thesis
  proof (cases "\<exists>rule. names_action action roles rule")
    case False
    with handler_no_condition [OF assms(2) ru, of action run] obtain c1 where
      "NewRBACHandler run (RBACProtected True action None) c = Inr (c1, Error_Handler None)" by auto
    with assms(1) show ?thesis
      by (auto simp: rbac_gate_def RBACHandlerLogAccessDeny_def Let_def split: if_splits option.splits)
  qed (use ru in auto)
qed

lemma rbac_without_jwt_refuses:
  assumes "\<not> jc_Enable m"
  shows "protected_route run mgr m au True action checked =
    Answer (simple_error 500 ErrorRBACInvalidRule ''rbac error'' (Some (Error ''role key not found in locals'')))"
  using assms by (simp add: protected_route_def JWTProtected_def rbac_gate_def NewRBACHandler_def RBACProtected_def
      empty_ctx_def RBACHandlerLogAccessDeny_def Let_def)

section \<open>Properties\<close>

text \<open>
  C15: with access control on, nobody gets past a protected route without a token. When the handlers
  let a request through, tokens are enabled, the request carried a token the library accepted, its issuer,
  subject, audience and account are the server's, it was not revoked, and it is a super user's or names
  known roles of which one has a rule with the action of the route.
\<close>

theorem pass_needs_token:
  assumes "protected_route run mgr m au True action checked = Pass c"
  shows "jc_Enable m \<and> (\<exists>cs iat. checked = Inr cs \<and>
     cs ''iss'' = Some (JStr (jc_ISS m)) \<and> cs ''sub'' = Some (JStr (jc_Sub m)) \<and> cs ''aud'' = Some (JStr (jc_Aud m)) \<and>
     cs ''account'' = Some (JStr (jc_AccountId m)) \<and>
     cs ''iat'' = Some (JNum iat) \<and> Unix (jc_RevokeEmittedBeforeDate m) \<le> iat \<and>
     (cs ''superuser'' = Some (JBool True) \<or>
      (\<exists>r names roles rule. mg_Rbac mgr = Some r \<and> cs ''roles'' = Some (JList (map JStr names)) \<and>
         GetRoles r names = Inr roles \<and> names_action action roles rule)))"
proof -
  have en: "jc_Enable m" using assms rbac_without_jwt_refuses [of m run mgr au action checked] by fastforce
  from assms en obtain cs c1 where cs: "checked = Inr cs" "JWTPostValidate mgr m cs empty_ctx = Pass c1"
    "rbac_gate run au True action (Some cs) c1 = Pass c"
    by (auto simp: protected_route_def JWTProtected_def jwtError_def jwt_rejected_def Let_def
        split: sum.splits if_splits gate.splits)
  note v = JWTPostValidate_Pass [OF cs(2)]
  have "cs ''superuser'' = Some (JBool True) \<or>
      (\<exists>r names roles rule. mg_Rbac mgr = Some r \<and> cs ''roles'' = Some (JList (map JStr names)) \<and>
         GetRoles r names = Inr roles \<and> names_action action roles rule)"
  proof (cases "cx_superuser c1")
    case True
    with v(6) show ?thesis by (auto simp: empty_ctx_def)
  next
    case False
    from rbac_gate_Pass [OF cs(3) False] v(6) show ?thesis by (auto simp: empty_ctx_def)
  qed
  with v(1-5) en cs(1) show ?thesis by blast
qed

text \<open>
  Revocation goes by whole seconds. After the administrator revokes all tokens at time \<open>t\<close>, a token
  issued to a user in an earlier second is refused everywhere; a token issued in the same second, even
  before the revocation, still opens every route that the user's roles open.
\<close>

theorem revocation_by_seconds:
  assumes "GenerateJWT auth sign mgr m now jti False u pw = Inr res" and "jr_success res" and "jr_err res = None"
    and "mg_enabled mgr" and "mg_Rbac mgr = Some r" and "jc_Enable m"
    and "GetUserRoles r u = Inr names" and "GetRoles r names = Inr roles"
    and "ActionJWTRevokeAll t m = (m', answer)"
  shows "(Unix now < Unix t \<longrightarrow>
      protected_route run mgr m' au True action (Inr (jr_claims res)) = jwt_rejected ''jwt was revoked'') \<and>
    (Unix now = Unix t \<longrightarrow> names_action action roles rule \<longrightarrow>
      (\<exists>c. protected_route run mgr m' au True action (Inr (jr_claims res)) = Pass c))"
proof -
  have m': "m' = RevokeAll t m" using assms(9) by (simp add: ActionJWTRevokeAll_def)
  have g: "GenerateJWT auth sign mgr m' now jti False u pw = Inr res" and e: "jc_Enable m'"
    and t: "jc_RevokeEmittedBeforeDate m' = t"
    using assms(1,6) m' by simp_all
  note i = issued_token_route [OF g assms(2,3,4,5) e assms(7,8), unfolded t]
  have "\<exists>c. protected_route run mgr m' au True action (Inr (jr_claims res)) = Pass c"
    if "Unix now = Unix t" "names_action action roles rule"
    using i(3) [of action run au] that by (auto split: if_splits)
  with i(2) [of run au action] show ?thesis by blast
qed

text \<open>
  C8: from the configuration file to the route. A user of the file who logged in was authenticated,
  and with the token, until it is revoked, passes in front of a route exactly when the file gives one
  of the user's roles a rule with the action of the route; otherwise the answer is 403. This holds with
  the audit log on or off, and whatever conditions the rules carry.
\<close>

theorem login_to_route:
  assumes "DeserializeRBACConfig parse s = Inr r" and "mg_enabled mgr" and "mg_Rbac mgr = Some r" and "jc_Enable m"
    and "u \<in> set (sb_Users s)"
    and "GenerateJWT auth sign mgr m now jti False (su_Id u) pw = Inr res" and "jr_success res" and "jr_err res = None"
    and "Unix (jc_RevokeEmittedBeforeDate m) \<le> Unix now"
  shows "auth (su_Id u) pw = Inr True \<and>
     (if \<exists>ro \<in> set (sb_Roles s). \<exists>ru \<in> set (sb_Rules s).
           sl_Id ro \<in> set (su_Roles u) \<and> sr_Id ru \<in> set (sl_Rules ro) \<and> action \<in> set (sr_Actions ru)
      then \<exists>c. protected_route run mgr m au True action (Inr (jr_claims res)) = Pass c
      else protected_route run mgr m au True action (Inr (jr_claims res)) = forbidden action)"
proof -
  from loaded_user_grants [OF assms(1,5), of action] obtain roles where
    roles: "GetUserRoles r (su_Id u) = Inr (su_Roles u)" "GetRoles r (su_Roles u) = Inr roles"
    "(\<exists>rule. names_action action roles rule) \<longleftrightarrow>
        (\<exists>ro \<in> set (sb_Roles s). \<exists>ru \<in> set (sb_Rules s).
           sl_Id ro \<in> set (su_Roles u) \<and> sr_Id ru \<in> set (sl_Rules ro) \<and> action \<in> set (sr_Actions ru))" by blast
  note t = issued_token_route [OF assms(6,7,8,2,3,4) roles(1,2)]
  from t(1) t(3) [OF assms(9), of action run au] show ?thesis unfolding roles(3) ..
qed

definition sample_jwt :: jwt_config where
  "sample_jwt = \<lparr>jc_Enable = True, jc_SecretKey = ''k'', jc_TokenExpireInMinutes = 1, jc_ISS = ''i'', jc_Sub = ''s'',
     jc_Aud = ''a'', jc_AccountId = ''id'', jc_RevokeEmittedBeforeDate = 0\<rparr>"

lemma sample_login:
  "\<exists>r res. DeserializeRBACConfig (\<lambda>s. Inr s) sample_rbac = Inr r \<and>
     GenerateJWT (\<lambda>u p. Inr (p = ''pw'')) (\<lambda>k c. Inr ''t'')
       \<lparr>mg_ActionList = [], mg_Rbac = Some r, mg_enabled = True\<rparr> sample_jwt 0 ''j'' False ''joe'' ''pw'' = Inr res \<and>
     jr_success res \<and> jr_err res = None"
proof -
  have "\<exists>r. DeserializeRBACConfig (\<lambda>s. Inr s) sample_rbac = Inr r"
    by (simp add: DeserializeRBACConfig_def sample_rbac_def makeABAC_def lookup_each_def)
  then obtain r where d: "DeserializeRBACConfig (\<lambda>s. Inr s) sample_rbac = Inr r" by blast
  have "\<lparr>su_Id = ''joe'', su_Description = [], su_Roles = [''reader'']\<rparr> \<in> set (sb_Users sample_rbac)"
    by (simp add: sample_rbac_def)
  from loaded_user_grants [OF d this, of "''x''"] have "GetUserRoles r ''joe'' = Inr [''reader'']" by simp
  then obtain user where "GetUser r ''joe'' = Inr user" by (auto simp: GetUser_def GetUserRoles_def split: option.splits)
  with d show ?thesis by (auto simp: GenerateJWT_def sample_jwt_def Let_def)
qed

lemma sample_login_roles:
  "\<exists>r res names roles rule. GenerateJWT (\<lambda>u p. Inr (p = ''pw'')) (\<lambda>k c. Inr ''t'')
       \<lparr>mg_ActionList = [], mg_Rbac = Some (r :: string rbac), mg_enabled = True\<rparr> sample_jwt 0 ''j'' False ''joe'' ''pw'' = Inr res \<and>
     jr_success res \<and> jr_err res = None \<and> GetUserRoles r ''joe'' = Inr names \<and> GetRoles r names = Inr roles \<and>
     names_action ''GetRecords'' roles rule"
proof -
  obtain r res where l: "DeserializeRBACConfig (\<lambda>s. Inr s) sample_rbac = Inr r"
     "GenerateJWT (\<lambda>u p. Inr (p = ''pw'')) (\<lambda>k c. Inr ''t'')
       \<lparr>mg_ActionList = [], mg_Rbac = Some r, mg_enabled = True\<rparr> sample_jwt 0 ''j'' False ''joe'' ''pw'' = Inr res"
     "jr_success res" "jr_err res = None" using sample_login by blast
  have "\<lparr>su_Id = ''joe'', su_Description = [], su_Roles = [''reader'']\<rparr> \<in> set (sb_Users sample_rbac)"
    by (simp add: sample_rbac_def)
  from loaded_user_grants [OF l(1) this, of "''GetRecords''"] obtain roles where
    "GetUserRoles r ''joe'' = Inr [''reader'']" "GetRoles r [''reader''] = Inr roles"
    "\<exists>rule. names_action ''GetRecords'' roles rule" by (auto simp: sample_rbac_def)
  with l(2-4) show ?thesis by blast
qed

lemma login_to_route_witness:
  "\<exists>mgr res c. GenerateJWT (\<lambda>u p. Inr (p = ''pw'')) (\<lambda>k c. Inr ''t'') (mgr :: string rbac_manager) sample_jwt 0 ''j'' False ''joe'' ''pw'' = Inr res \<and>
     protected_route (\<lambda>q p. []) mgr sample_jwt \<lparr>au_Enable = True, au_EnableLogAccessGranted = True\<rparr> True ''GetRecords''
       (Inr (jr_claims res)) = Pass c"
proof -
  obtain r res where l: "DeserializeRBACConfig (\<lambda>s. Inr s) sample_rbac = Inr r"
     "GenerateJWT (\<lambda>u p. Inr (p = ''pw'')) (\<lambda>k c. Inr ''t'')
       \<lparr>mg_ActionList = [], mg_Rbac = Some r, mg_enabled = True\<rparr> sample_jwt 0 ''j'' False ''joe'' ''pw'' = Inr res"
     "jr_success res" "jr_err res = None" using sample_login by blast
  have u: "\<lparr>su_Id = ''joe'', su_Description = [], su_Roles = [''reader'']\<rparr> \<in> set (sb_Users sample_rbac)"
    by (simp add: sample_rbac_def)
  from login_to_route [OF l(1) _ _ _ u, of "\<lparr>mg_ActionList = [], mg_Rbac = Some r, mg_enabled = True\<rparr>" sample_jwt
      "\<lambda>u p. Inr (p = ''pw'')" "\<lambda>k c. Inr ''t''" 0 "''j''" "''pw''" res "''GetRecords''" "\<lambda>q p. []"
      "\<lparr>au_Enable = True, au_EnableLogAccessGranted = True\<rparr>"] l(2-4)
  obtain c where "protected_route (\<lambda>q p. []) \<lparr>mg_ActionList = [], mg_Rbac = Some r, mg_enabled = True\<rparr> sample_jwt
      \<lparr>au_Enable = True, au_EnableLogAccessGranted = True\<rparr> True ''GetRecords'' (Inr (jr_claims res)) = Pass c"
    by (auto simp: sample_jwt_def sample_rbac_def)
  with l(2) show ?thesis by blast
qed

lemma pass_needs_token_witness:
  "\<exists>mgr res. GenerateJWT (\<lambda>u p. Inr (p = ''pw'')) (\<lambda>k c. Inr ''t'') (mgr :: string rbac_manager) sample_jwt 0 ''j'' False ''joe'' ''pw'' = Inr res \<and>
     (\<exists>r names roles rule. mg_Rbac mgr = Some r \<and> GetRoles r names = Inr roles \<and> names_action ''GetRecords'' roles rule)"
proof -
  obtain r res names roles where l: "GenerateJWT (\<lambda>u p. Inr (p = ''pw'')) (\<lambda>k c. Inr ''t'')
       \<lparr>mg_ActionList = [], mg_Rbac = Some (r :: string rbac), mg_enabled = True\<rparr> sample_jwt 0 ''j'' False ''joe'' ''pw'' = Inr res"
     "jr_success res" "jr_err res = None" "GetUserRoles r ''joe'' = Inr names" "GetRoles r names = Inr roles"
     "\<exists>rule. names_action ''GetRecords'' roles rule" using sample_login_roles by blast
  let ?mgr = "\<lparr>mg_ActionList = [], mg_Rbac = Some r, mg_enabled = True\<rparr>"
  have "\<exists>c. protected_route (\<lambda>q p. []) ?mgr sample_jwt \<lparr>au_Enable = True, au_EnableLogAccessGranted = True\<rparr> True ''GetRecords''
      (Inr (jr_claims res)) = Pass c"
    using issued_token_route(3) [OF l(1-3) _ _ _ l(4,5), of "''GetRecords''"] l(6) by (auto simp: sample_jwt_def)
  then obtain c where p: "protected_route (\<lambda>q p. []) ?mgr sample_jwt \<lparr>au_Enable = True, au_EnableLogAccessGranted = True\<rparr> True ''GetRecords''
      (Inr (jr_claims res)) = Pass c" by blast
  from GenerateJWT_user [OF l(1-3)] have "jr_claims res ''superuser'' \<noteq> Some (JBool True)"
    by (auto simp: base_claims_def)
  with pass_needs_token [OF p] have "\<exists>r' names roles rule. mg_Rbac ?mgr = Some r' \<and> GetRoles r' names = Inr roles \<and>
      names_action ''GetRecords'' roles rule" by blast
  with l(1) show ?thesis by blast
qed

lemma revocation_by_seconds_witness:
  "\<exists>mgr res c. GenerateJWT (\<lambda>u p. Inr (p = ''pw'')) (\<lambda>k c. Inr ''t'') (mgr :: string rbac_manager) sample_jwt 0 ''j'' False ''joe'' ''pw'' = Inr res \<and>
     protected_route (\<lambda>q p. []) mgr (fst (ActionJWTRevokeAll 5 sample_jwt)) \<lparr>au_Enable = True, au_EnableLogAccessGranted = True\<rparr>
       True ''GetRecords'' (Inr (jr_claims res)) = Pass c"
proof -
  obtain r res names roles rule where l: "GenerateJWT (\<lambda>u p. Inr (p = ''pw'')) (\<lambda>k c. Inr ''t'')
       \<lparr>mg_ActionList = [], mg_Rbac = Some (r :: string rbac), mg_enabled = True\<rparr> sample_jwt 0 ''j'' False ''joe'' ''pw'' = Inr res"
     "jr_success res" "jr_err res = None" "GetUserRoles r ''joe'' = Inr names" "GetRoles r names = Inr roles"
     "names_action ''GetRecords'' roles rule" using sample_login_roles by blast
  have e: "jc_Enable sample_jwt" by (simp add: sample_jwt_def)
  have a: "ActionJWTRevokeAll 5 sample_jwt = (RevokeAll 5 sample_jwt, Reply 200 ())" by (simp add: ActionJWTRevokeAll_def)
  from revocation_by_seconds [OF l(1-3) _ _ e l(4,5) a] l(6) a
  obtain c where "protected_route (\<lambda>q p. []) \<lparr>mg_ActionList = [], mg_Rbac = Some r, mg_enabled = True\<rparr>
      (fst (ActionJWTRevokeAll 5 sample_jwt)) \<lparr>au_Enable = True, au_EnableLogAccessGranted = True\<rparr>
      True ''GetRecords'' (Inr (jr_claims res)) = Pass c"
    by (fastforce simp: Unix_def)
  with l(1) show ?thesis by blast
qed

end
