(* ===== verification/Config.thy ===== *)
theory Config
  imports Jwt Service MySqlWriter
begin

text \<open>
  The configuration file as the program holds it (config/config.go), the logger made of it (log/log.go), and
  loading it. The parts that a component reads are the records of that component.
\<close>

section \<open>The records\<close>

record rate =
  rl_MaxRequests :: int
  rl_DurationInSeconds :: int

record web_server_config =
  wc_HTTP_Enable :: bool
  wc_HTTP_Address :: string
  wc_HTTPS_Enable :: bool
  wc_HTTPS_Address :: string
  wc_HTTPS_CertFile :: string
  wc_HTTPS_KeyFile :: string
  wc_Logs_Enable :: bool
  wc_Cors_Enable :: bool
  wc_Cors_AllowOrigins :: string
  wc_Cors_AllowHeaders :: string
  wc_RateLimiter_Enable :: bool
  wc_RouteStream :: rate
  wc_RouteJob :: rate
  wc_RouteAccount :: rate
  wc_JWT :: jwt_config
  wc_Monitor_Enable :: bool
  wc_Metrics_Enable :: bool
  wc_Swagger_Enable :: bool

record rbac_settings =
  cg_RBAC_Enable :: bool
  cg_RBAC_Filename :: string

text \<open>\<open>'z\<close> is the logging library's own configuration.\<close>

record 'z config =
  cg_Storage_Type :: string
  cg_Storage_LoggerConfig :: 'z
  cg_Storage_LogVerbosity :: int
  cg_JSONFile_DataDirectory :: string
  cg_InMemory_MaxRecordsByStream :: u64
  cg_InMemory_MaxSize :: string
  cg_MySQL :: mysql_conf
  cg_DataDirectory :: string
  cg_LoggerConfig :: 'z
  cg_Account :: account
  cg_Streams :: streams_config
  cg_Streams_LogVerbosity :: int
  cg_Auth :: auth_config
  cg_RBAC :: rbac_settings
  cg_AuditLog :: audit_config
  cg_WebServer :: web_server_config

section \<open>Loading\<close>

text \<open>The text of an error.\<close>

fun error_text :: "go_error \<Rightarrow> string" where
  "error_text (Error m) = m"
| "error_text (Panic m) = m"

text \<open>\<open>build\<close> is \<^verbatim>\<open>zap.Config.Build\<close>: the logger or an error, on which the program panics.\<close>

definition InitLogger :: "('z \<Rightarrow> go_error + 'l) \<Rightarrow> 'z \<Rightarrow> go_error + 'l" where
  "InitLogger build loggerConfig =
     (case build loggerConfig of Inl e \<Rightarrow> Inl (Panic (error_text e)) | Inr l \<Rightarrow> Inr l)"

text \<open>\<open>opened\<close> and \<open>decoded\<close>: opening the file and decoding it with the YAML library.\<close>

definition LoadConfig ::
    "('z \<Rightarrow> go_error + 'l) \<Rightarrow> go_error option \<Rightarrow> go_error + 'z config \<Rightarrow> string \<Rightarrow> go_error + 'z config" where
  "LoadConfig build opened decoded filename =
     (case opened of
        Some e \<Rightarrow> Inl (Error (''error while opening configuration file '' @ filename @ '' : '' @ error_text e))
      | None \<Rightarrow>
          (case decoded of
             Inl e \<Rightarrow> Inl (Error (''error while parsing configuration file '' @ filename @ '' : '' @ error_text e))
           | Inr c \<Rightarrow>
               if cg_RBAC_Enable (cg_RBAC c) \<and> cg_RBAC_Filename (cg_RBAC c) = []
               then Inl (Error ''error in configuration file: you must specify a filename for RBAC'')
               else (case InitLogger build (cg_LoggerConfig c) of Inl e \<Rightarrow> Inl e | Inr l \<Rightarrow> Inr c)))"

lemma LoadConfig_cases:
  "LoadConfig build opened decoded filename = Inr c \<longleftrightarrow>
     opened = None \<and> decoded = Inr c \<and> (cg_RBAC_Enable (cg_RBAC c) \<longrightarrow> cg_RBAC_Filename (cg_RBAC c) \<noteq> []) \<and>
     (\<exists>l. build (cg_LoggerConfig c) = Inr l)"
  by (auto simp: LoadConfig_def InitLogger_def split: option.splits sum.splits)

end
