(* ===== verification/Server.thy ===== *)
theory Server
  imports Config Dedup
begin

text \<open>
  The process around the service: the registry of storage providers (storageprovider/registry/registry.go), the
  routes and their guards (web/webapiserver.go, web/ratelimiter.go), the web server with its signals
  (web/webserver/webserver.go, web/apiserver.go), start-up and the restart loop (cmd/ministream/ministream.go), and the generators of random texts (generators/generators.go).
\<close>

section \<open>The registry of storage providers\<close>

text \<open>A factory is left open (\<open>'f\<close>); \<open>None\<close> is a nil factory.\<close>

type_synonym 'f registry = "string \<rightharpoonup> 'f"

definition Register :: "string \<Rightarrow> 'f option \<Rightarrow> 'f registry \<Rightarrow> 'f registry \<times> go_error option" where
  "Register name factory registry =
     (if name = [] then (registry, Some (Error ''error registering storage provider: name cannot be empty''))
      else case factory of
        None \<Rightarrow> (registry, Some (Error ''error registering storage provider: factory cannot be empty''))
      | Some f \<Rightarrow>
          if registry name \<noteq> None
          then (registry, Some (Error ''error registering storage provider: already registered''))
          else (registry(name \<mapsto> f), None))"

definition GetFactory :: "string \<Rightarrow> 'f registry \<Rightarrow> go_error + 'f" where
  "GetFactory name registry =
     (case registry name of
        None \<Rightarrow> Inl (Error ''error creating storage provider. No such storage provider type exists'')
      | Some f \<Rightarrow> Inr f)"

fun register_all :: "(string \<times> 'f option) list \<Rightarrow> 'f registry \<Rightarrow> 'f registry \<times> go_error option" where
  "register_all [] registry = (registry, None)"
| "register_all ((name, f) # fs) registry =
     (case Register name f registry of
        (r, Some e) \<Rightarrow> (r, Some e) | (r, None) \<Rightarrow> register_all fs r)"

definition SetupStorageProviders :: "'f \<Rightarrow> 'f \<Rightarrow> 'f \<Rightarrow> 'f registry \<Rightarrow> 'f registry \<times> go_error option" where
  "SetupStorageProviders jsonfile inmemory mysql registry =
     register_all [(''JSONFile'', Some jsonfile), (''InMemory'', Some inmemory), (''MySQL'', Some mysql)] registry"

definition FinalizeStorageProviders :: "'f registry \<Rightarrow> 'f registry" where
  "FinalizeStorageProviders registry = (\<lambda>k. None)"

text \<open>\<open>logger\<close> is the result of building the provider's logger; \<open>call\<close> calls a factory.\<close>

definition reg_NewStorageProvider ::
    "string \<Rightarrow> go_error + 'l \<Rightarrow> ('f \<Rightarrow> 'l \<Rightarrow> go_error + 'p) \<Rightarrow> 'f registry \<Rightarrow> go_error + 'p" where
  "reg_NewStorageProvider type logger call registry =
     (case GetFactory type registry of
        Inl e \<Rightarrow> Inl e
      | Inr factory \<Rightarrow> (case logger of Inl e \<Rightarrow> Inl e | Inr l \<Rightarrow> call factory l))"

section \<open>Routes\<close>

text \<open>
  A route is a method and a path, with what stands in front of its handler: the check of the token, the
  limiter of its group, and the action that access control asks for.
\<close>

datatype limiter = No_Limiter | RateLimiterStreams | RateLimiterJobs | RateLimiterAccounts | RateLimiterUtils

record route =
  rt_Method :: string
  rt_Path :: string
  rt_JWT :: bool
  rt_Limiter :: limiter
  rt_Action :: "string option"

definition guarded :: "limiter \<Rightarrow> string \<Rightarrow> string \<Rightarrow> string \<Rightarrow> route" where
  "guarded l m p a = \<lparr>rt_Method = m, rt_Path = p, rt_JWT = True, rt_Limiter = l, rt_Action = Some a\<rparr>"

definition open_route :: "limiter \<Rightarrow> string \<Rightarrow> string \<Rightarrow> route" where
  "open_route l m p = \<lparr>rt_Method = m, rt_Path = p, rt_JWT = False, rt_Limiter = l, rt_Action = None\<rparr>"

definition AddRoutes :: "route list" where
  "AddRoutes = [
     guarded RateLimiterStreams ''GET'' ''/api/v1/stream/:streamuuid/iterator/:streamiteratoruuid/records'' ''GetRecords'',
     guarded RateLimiterStreams ''PUT'' ''/api/v1/stream/:streamuuid/records'' ''PutRecords'',
     guarded RateLimiterStreams ''PUT'' ''/api/v1/stream/:streamuuid/record'' ''PutRecord'',
     guarded RateLimiterStreams ''POST'' ''/api/v1/stream/:streamuuid/iterator'' ''CreateRecordsIterator'',
     guarded RateLimiterStreams ''GET'' ''/api/v1/stream/:streamuuid/iterator/:streamiteratoruuid/stats'' ''GetRecordsIteratorStats'',
     guarded RateLimiterStreams ''DELETE'' ''/api/v1/stream/:streamuuid/iterator/:streamiteratoruuid'' ''CloseRecordsIterator'',
     guarded RateLimiterStreams ''GET'' ''/api/v1/stream/:streamuuid'' ''GetStreamDescription'',
     guarded RateLimiterStreams ''GET'' ''/api/v1/stream/:streamuuid/properties'' ''GetStreamProperties'',
     guarded RateLimiterStreams ''POST'' ''/api/v1/stream/:streamuuid/properties'' ''SetStreamProperties'',
     guarded RateLimiterStreams ''PATCH'' ''/api/v1/stream/:streamuuid/properties'' ''UpdateStreamProperties'',
     guarded RateLimiterStreams ''POST'' ''/api/v1/stream/'' ''CreateStream'',
     guarded RateLimiterStreams ''DELETE'' ''/api/v1/stream/:streamuuid'' ''DeleteStream'',
     guarded RateLimiterStreams ''POST'' ''/api/v1/stream/:streamuuid/index/rebuild'' ''RebuildIndex'',
     guarded RateLimiterStreams ''GET'' ''/api/v1/streams/'' ''ListStreams'',
     guarded RateLimiterStreams ''GET'' ''/api/v1/streams/properties'' ''ListStreamsProperties'',
     open_route RateLimiterAccounts ''GET'' ''/api/v1/user/login'',
     guarded RateLimiterAccounts ''GET'' ''/api/v1/users/'' ''ListUsers'',
     open_route RateLimiterAccounts ''GET'' ''/api/v1/account/validate'',
     open_route RateLimiterAccounts ''GET'' ''/api/v1/account/login'',
     guarded RateLimiterAccounts ''GET'' ''/api/v1/account/'' ''GetAccount'',
     guarded No_Limiter ''POST'' ''/api/v1/admin/server/shutdown'' ''ShutdownServer'',
     guarded No_Limiter ''POST'' ''/api/v1/admin/server/restart'' ''RestartServer'',
     guarded No_Limiter ''POST'' ''/api/v1/admin/jwt/revoke'' ''JWTRevokeAll'',
     open_route RateLimiterUtils ''POST'' ''/api/v1/utils/pbkdf2'',
     open_route No_Limiter ''GET'' ''/api/v1/utils/ping'']"

text \<open>The keys under which the limiters count; \<open>account\<close> is the claim of the token, if there is one.\<close>

definition account_key :: "string option \<Rightarrow> string \<Rightarrow> string \<Rightarrow> string" where
  "account_key account path method =
     (case account of None \<Rightarrow> ''noaccount'' | Some a \<Rightarrow> a) @ ''#'' @ path @ ''#'' @ method"

definition limiter_key :: "limiter \<Rightarrow> string option \<Rightarrow> string \<Rightarrow> string \<Rightarrow> string option" where
  "limiter_key l account path method =
     (case l of
        No_Limiter \<Rightarrow> None
      | RateLimiterStreams \<Rightarrow> Some (account_key account path method)
      | RateLimiterJobs \<Rightarrow> Some (account_key account path method)
      | RateLimiterAccounts \<Rightarrow> Some (account_key account path method)
      | RateLimiterUtils \<Rightarrow> Some ''utils'')"

section \<open>The web server\<close>

datatype server_status = ServerStatusNone | ServerStatusInitialized | ServerStatusRunning | ServerStatusStopping

text \<open>The number of a status as \<^verbatim>\<open>%d\<close> prints it.\<close>

definition status_code :: "server_status \<Rightarrow> string" where
  "status_code st =
     (case st of ServerStatusNone \<Rightarrow> ''0'' | ServerStatusInitialized \<Rightarrow> ''1'' | ServerStatusRunning \<Rightarrow> ''2''
      | ServerStatusStopping \<Rightarrow> ''3'')"

datatype os_signal = SIGHUP | SIGINT | SIGQUIT | SIGTERM

text \<open>
  \<open>sr_signals\<close> is the channel of signals, whose capacity is 1; \<open>sr_reading\<close> says whether the main goroutine
  is still in \<^verbatim>\<open>HandleSignals\<close> and reads it.
\<close>

record server =
  sr_signals :: "os_signal list"
  sr_status :: server_status
  sr_dedup :: dedup
  sr_reading :: bool

definition NewServer :: server where
  "NewServer = \<lparr>sr_signals = [], sr_status = ServerStatusNone,
     sr_dedup = NewRequestDeduplicatorManager (5 * 60 * 1000000000), sr_reading = False\<rparr>"

text \<open>\<^verbatim>\<open>Initialize\<close> makes a new API server with its own deduplicator.\<close>

definition sr_Initialize :: "server \<Rightarrow> server \<times> go_error option" where
  "sr_Initialize s =
     (if sr_status s \<noteq> ServerStatusNone then (s, Some (Error (''cannot initilize server: invalid status code '' @ status_code (sr_status s))))
      else (s\<lparr>sr_dedup := NewRequestDeduplicatorManager (5 * 60 * 1000000000), sr_status := ServerStatusInitialized\<rparr>, None))"

text \<open>\<^verbatim>\<open>Start\<close> up to its call of \<^verbatim>\<open>HandleSignals\<close>, and the rest of it.\<close>

definition sr_Start :: "server \<Rightarrow> server \<times> go_error option" where
  "sr_Start s =
     (if sr_status s \<noteq> ServerStatusInitialized then (s, Some (Error (''cannot start server: invalid status code '' @ status_code (sr_status s))))
      else (s\<lparr>sr_dedup := rd_Init (sr_dedup s), sr_status := ServerStatusRunning, sr_reading := True\<rparr>, None))"

definition sr_Start_end :: "server \<Rightarrow> server" where
  "sr_Start_end s = s\<lparr>sr_status := ServerStatusInitialized, sr_reading := False\<rparr>"

text \<open>What \<^verbatim>\<open>HandleSignals\<close> receives, and the result with which it ends on it, if it does.\<close>

datatype main_event = Ctx_Done | Signal os_signal | Server_Err go_error

definition ErrRequestRestart :: go_error where
  "ErrRequestRestart = Error ''ErrRequestRestart''"

definition handle_event :: "main_event \<Rightarrow> go_error option option" where
  "handle_event ev =
     (case ev of
        Ctx_Done \<Rightarrow> Some None
      | Signal sig \<Rightarrow> (case sig of SIGHUP \<Rightarrow> Some (Some ErrRequestRestart) | SIGTERM \<Rightarrow> Some None | SIGINT \<Rightarrow> Some None
          | SIGQUIT \<Rightarrow> None)
      | Server_Err e \<Rightarrow> Some (Some e))"

fun HandleSignals :: "main_event list \<Rightarrow> go_error option option" where
  "HandleSignals [] = None"
| "HandleSignals (ev # evs) = (case handle_event ev of Some r \<Rightarrow> Some r | None \<Rightarrow> HandleSignals evs)"

text \<open>Sending to the channel blocks while it is full (\<open>None\<close>).\<close>

definition send_signal :: "os_signal \<Rightarrow> server \<Rightarrow> server option" where
  "send_signal sig s = (if sr_signals s = [] then Some (s\<lparr>sr_signals := [sig]\<rparr>) else None)"

definition RequestShutdownServer :: "server \<Rightarrow> server option" where
  "RequestShutdownServer = send_signal SIGTERM"

definition RequestRestartServer :: "server \<Rightarrow> server option" where
  "RequestRestartServer = send_signal SIGHUP"

definition sr_Shutdown :: "server \<Rightarrow> (server \<times> go_error option) option" where
  "sr_Shutdown s =
     (if sr_status s \<noteq> ServerStatusRunning then Some (s, Some (Error (''cannot stop server: invalid status code '' @ status_code (sr_status s))))
      else map_option (\<lambda>t. (t, None)) (RequestShutdownServer (s\<lparr>sr_status := ServerStatusStopping\<rparr>)))"

definition sr_Finalize :: "server \<Rightarrow> server option" where
  "sr_Finalize s = (if sr_status s = ServerStatusRunning then map_option fst (sr_Shutdown s) else Some s)"

text \<open>
  The routes of the administrator. \<^verbatim>\<open>ShutdownServer\<close> and \<^verbatim>\<open>RestartServer\<close> ignore the error of the
  deduplicator's \<^verbatim>\<open>Stop\<close>, not its panic. \<open>None\<close>: the handler never returns.
\<close>

definition ApiServerShutdown :: "server \<Rightarrow> (server \<times> unit response) option" where
  "ApiServerShutdown s =
     (case rd_Stop (sr_dedup s) of
        None \<Rightarrow> None
      | Some (d, Some (Panic e)) \<Rightarrow> Some (s, Crash (Panic e))
      | Some (d, _) \<Rightarrow> map_option (\<lambda>t. (t, Reply 200 ())) (RequestShutdownServer (s\<lparr>sr_dedup := d\<rparr>)))"

definition ApiServerRestart :: "server \<Rightarrow> (server \<times> unit response) option" where
  "ApiServerRestart s =
     (case rd_Stop (sr_dedup s) of
        None \<Rightarrow> None
      | Some (d, Some (Panic e)) \<Rightarrow> Some (s, Crash (Panic e))
      | Some (d, _) \<Rightarrow> map_option (\<lambda>t. (t, Reply 200 ())) (RequestRestartServer (s\<lparr>sr_dedup := rd_Init d\<rparr>)))"

text \<open>The main goroutine takes a signal out of the channel.\<close>

definition take_signal :: "server \<Rightarrow> (server \<times> go_error option option) option" where
  "take_signal s =
     (case sr_signals s of
        [] \<Rightarrow> None
      | sig # rest \<Rightarrow> if sr_reading s
          then Some ((if handle_event (Signal sig) = None then s else sr_Start_end s)\<lparr>sr_signals := rest\<rparr>,
            handle_event (Signal sig))
          else None)"

section \<open>The main program\<close>

text \<open>
  One run of the server. The arguments are the outcomes of its stages: the managers of accounts and of
  authentication, access control and the service (which end the process on an error), and \<^verbatim>\<open>Start\<close>. The
  global state kept across runs is the registry; the deferred calls run on every return. A fatal error ends the
  process without them.
\<close>

definition RunServer ::
    "'f \<Rightarrow> 'f \<Rightarrow> 'f \<Rightarrow> go_error option \<Rightarrow> go_error option \<Rightarrow> bool \<Rightarrow> go_error option \<Rightarrow> 'f registry \<Rightarrow>
       go_error + ('f registry \<times> bool \<times> go_error option)" where
  "RunServer jsonfile inmemory mysql account auth services_ok started registry =
     (case SetupStorageProviders jsonfile inmemory mysql registry of
        (r, Some e) \<Rightarrow> Inr (r, False, Some e)
      | (r, None) \<Rightarrow>
          (let finish = (\<lambda>restart err. Inr (FinalizeStorageProviders r, restart, err)) in
           case account of
             Some e \<Rightarrow> finish False (Some e)
           | None \<Rightarrow>
               (case auth of
                  Some e \<Rightarrow> finish False (Some e)
                | None \<Rightarrow>
                    if \<not> services_ok then Inl fatal
                    else (case started of
                        None \<Rightarrow> finish False None
                      | Some e \<Rightarrow> if e = ErrRequestRestart then finish True None else finish False (Some e)))))"

text \<open>
  The loop of \<^verbatim>\<open>main\<close> and the exit status of the process. Each element of the list is one turn of the
  loop: the loaded configuration and the outcomes of its run. \<open>None\<close>: it is still running. A fatal error and a
  panic end the process with a status other than 0.
\<close>

type_synonym run_outcome = "go_error option \<times> go_error option \<times> bool \<times> go_error option"

datatype exit_status = Exit nat | Fatal

fun main_loop :: "'f \<Rightarrow> 'f \<Rightarrow> 'f \<Rightarrow> (go_error + run_outcome) list \<Rightarrow> 'f registry \<Rightarrow> exit_status option" where
  "main_loop jsonfile inmemory mysql [] registry = None"
| "main_loop jsonfile inmemory mysql (turn # turns) registry =
     (case turn of
        Inl e \<Rightarrow> Some (if is_panic e then Fatal else Exit 1)
      | Inr (account, auth, services_ok, started) \<Rightarrow>
          (case RunServer jsonfile inmemory mysql account auth services_ok started registry of
             Inl e \<Rightarrow> Some Fatal
           | Inr (r, restartServer, serverErr) \<Rightarrow>
               if \<not> restartServer \<or> serverErr \<noteq> None then Some (Exit 0)
               else main_loop jsonfile inmemory mysql turns r))"

section \<open>Random texts\<close>

definition SaltChars :: string where
  "SaltChars = ''ABCDEFGHIJKLMNOPQRSTUVWXYZabcdefghijklmnopqrstuvwxyz0123456789''"

definition PasswordChars :: string where
  "PasswordChars = ''ABCDEFGHIJKLMNOPQRSTUVWXYZabcdefghijklmnopqrstuvwxyz0123456789_-.''"

definition SecretAPIKeyChars :: string where
  "SecretAPIKeyChars = ''ABCDEFGHIJKLMNOPQRSTUVWXYZabcdefghijklmnopqrstuvwxyz0123456789''"

text \<open>
  \<open>rnd k\<close> is the \<open>k\<close>-th result of \<^verbatim>\<open>rand.Intn(n)\<close>, taken modulo \<open>n\<close> here so that it is one; the source that
  \<^verbatim>\<open>initSeed\<close> makes is dropped, so the flag changes nothing.
\<close>

definition GenerateRandomString :: "(nat \<Rightarrow> nat) \<Rightarrow> int \<Rightarrow> string \<Rightarrow> bool \<Rightarrow> go_error + string" where
  "GenerateRandomString rnd n chars initSeed =
     (if chars = [] \<and> n > 0 then Inl (Panic ''invalid argument to Intn'')
      else Inr (map (\<lambda>k. chars ! (rnd k mod length chars)) [0..<nat n]))"

definition GenerateRandomSalt :: "(nat \<Rightarrow> nat) \<Rightarrow> int \<Rightarrow> bool \<Rightarrow> go_error + string" where
  "GenerateRandomSalt rnd n initSeed = GenerateRandomString rnd n SaltChars initSeed"

definition GenerateRandomPassword :: "(nat \<Rightarrow> nat) \<Rightarrow> int \<Rightarrow> bool \<Rightarrow> go_error + string" where
  "GenerateRandomPassword rnd n initSeed = GenerateRandomString rnd n PasswordChars initSeed"

definition GenerateRandomSecretAPIKey :: "(nat \<Rightarrow> nat) \<Rightarrow> int \<Rightarrow> go_error + string" where
  "GenerateRandomSecretAPIKey rnd n = GenerateRandomString rnd n SecretAPIKeyChars True"

section \<open>Lemmas\<close>

lemma SetupStorageProviders_empty:
  "SetupStorageProviders j i m Map.empty = ([''JSONFile'' \<mapsto> j, ''InMemory'' \<mapsto> i, ''MySQL'' \<mapsto> m], None)"
  by (simp add: SetupStorageProviders_def Register_def)

lemma SetupStorageProviders_again:
  "SetupStorageProviders j i m registry = (r, None) \<Longrightarrow> SetupStorageProviders j' i' m' r = (r, Some (Error ''error registering storage provider: already registered''))"
  by (auto simp: SetupStorageProviders_def Register_def split: if_splits)

lemma RunServer_registry:
  "RunServer j i m a au ok st Map.empty = Inr (r, restart, err) \<Longrightarrow> r = Map.empty"
  by (auto simp: RunServer_def SetupStorageProviders_empty FinalizeStorageProviders_def Let_def
      split: option.splits if_splits)

text \<open>A random text has the asked length and only the given characters, so a salt parses back.\<close>

lemma GenerateRandomString_chars:
  "chars \<noteq> [] \<Longrightarrow> GenerateRandomString rnd n chars seed = Inr s \<Longrightarrow> length s = nat n \<and> set s \<subseteq> set chars"
  by (auto simp: GenerateRandomString_def)

lemma HandleSignals_quit: "HandleSignals (Signal SIGQUIT # evs) = HandleSignals evs"
  by (simp add: handle_event_def)

section \<open>Properties\<close>


definition started_server :: server where
  "started_server = fst (sr_Start (fst (sr_Initialize NewServer)))"

text \<open>
  The administrator must not ask twice. After a start, a request to shut down is answered with 200, and
  the next one crashes the process, whether or not the first signal was already taken; a request to restart
  is answered with 200, and the next one, while the first signal stands in the channel, never returns.
\<close>

theorem second_admin_request:
  "\<exists>s1 s2 s3. ApiServerShutdown started_server = Some (s1, Reply 200 ()) \<and>
     ApiServerShutdown s1 = Some (s1, Crash (Panic ''close of closed channel'')) \<and>
     take_signal s1 = Some (s2, Some None) \<and> sr_status s2 = ServerStatusInitialized \<and>
     ApiServerShutdown s2 = Some (s2, Crash (Panic ''close of closed channel'')) \<and>
     ApiServerRestart started_server = Some (s3, Reply 200 ()) \<and> ApiServerRestart s3 = None"
  by (simp add: started_server_def NewServer_def sr_Initialize_def sr_Start_def ApiServerShutdown_def
      ApiServerRestart_def rd_Stop_def rd_Init_def NewRequestDeduplicatorManager_def rd_Clear_def
      RequestShutdownServer_def RequestRestartServer_def send_signal_def take_signal_def handle_event_def
      sr_Start_end_def)

definition restarts :: "go_error + run_outcome \<Rightarrow> bool" where
  "restarts turn \<longleftrightarrow> turn = Inr (None, None, True, Some ErrRequestRestart)"

text \<open>
  How the process ends. The registry is emptied after each run, so a restart sets the providers up again;
  restarts continue the loop. The process exits with status 1 exactly when the configuration cannot be
  loaded, with status 0 when the server stops, also when it stops with an error, and with a fatal error when
  access control or the service cannot be set up.
\<close>

theorem main_exit_status:
  "main_loop jsonfile inmemory mysql turns Map.empty =
     (case dropWhile restarts turns of
        [] \<Rightarrow> None
      | Inl e # _ \<Rightarrow> Some (if is_panic e then Fatal else Exit 1)
      | Inr (account, auth, services_ok, started) # _ \<Rightarrow>
          Some (if account = None \<and> auth = None \<and> \<not> services_ok then Fatal else Exit 0))"
proof (induction turns)
  case (Cons turn turns)
  show ?case
  proof (cases turn)
    case (Inl e)
    then show ?thesis by (simp add: restarts_def)
  next
    case (Inr out)
    obtain account auth ok started where o: "out = (account, auth, ok, started)" by (metis surj_pair)
    have run: "RunServer jsonfile inmemory mysql account auth ok started Map.empty =
       (if account \<noteq> None then Inr (Map.empty, False, account) else if auth \<noteq> None then Inr (Map.empty, False, auth)
        else if \<not> ok then Inl fatal
        else if started = Some ErrRequestRestart then Inr (Map.empty, True, None) else Inr (Map.empty, False, started))"
      by (auto simp: RunServer_def SetupStorageProviders_empty FinalizeStorageProviders_def Let_def
          split: option.splits)
    show ?thesis
      using Cons.IH by (auto simp: Inr o run restarts_def split: option.splits if_splits)
  qed
qed simp

text \<open>
  A restart forgets the revocation. With a secret key from the configuration file, a user's token that was
  revoked by the administrator is refused until the server restarts; the restarted server, which reads the same
  configuration, lets it through again wherever the user's roles allow.
\<close>

theorem restart_forgets_revocation:
  assumes "jwt_Initialize key conf = Inr m" and "jc_SecretKey conf \<noteq> []" and "jc_Enable conf"
    and "GenerateJWT auth sign mgr m now jti False u pw = Inr res" and "jr_success res" and "jr_err res = None"
    and "mg_enabled mgr" and "mg_Rbac mgr = Some r"
    and "GetUserRoles r u = Inr names" and "GetRoles r names = Inr roles" and "names_action action roles rule"
    and "Unix (jc_RevokeEmittedBeforeDate conf) \<le> Unix now" and "Unix now < Unix t"
    and "jwt_Initialize key' conf = Inr m'"
  shows "protected_route run mgr (RevokeAll t m) au True action (Inr (jr_claims res)) = jwt_rejected ''jwt was revoked'' \<and>
     (\<exists>c. protected_route run mgr m' au True action (Inr (jr_claims res)) = Pass c)"
proof -
  have m: "m = conf" "m' = conf" using assms(1,2,14) by (simp_all add: jwt_Initialize_def)
  have g: "GenerateJWT auth sign mgr (RevokeAll t conf) now jti False u pw = Inr res" and e: "jc_Enable (RevokeAll t conf)"
    using assms(3,4) m by simp_all
  note i = issued_token_route [OF g assms(5-8) e assms(9,10)]
  note j = issued_token_route [OF assms(4) [unfolded m] assms(5-8) assms(3) assms(9,10)]
  show ?thesis
    using i(2) [of run au action] j(3) [of action run au] assms(11-13) by (auto simp: m split: if_splits)
qed

lemma restart_forgets_revocation_witness:
  "\<exists>mgr res c. GenerateJWT (\<lambda>u p. Inr (p = ''pw'')) (\<lambda>k c. Inr ''t'') (mgr :: string rbac_manager) sample_jwt 0 ''j'' False ''joe'' ''pw'' = Inr res \<and>
     protected_route (\<lambda>q p. []) mgr (RevokeAll 2000000000 sample_jwt) \<lparr>au_Enable = True, au_EnableLogAccessGranted = True\<rparr>
       True ''GetRecords'' (Inr (jr_claims res)) = jwt_rejected ''jwt was revoked'' \<and>
     protected_route (\<lambda>q p. []) mgr sample_jwt \<lparr>au_Enable = True, au_EnableLogAccessGranted = True\<rparr>
       True ''GetRecords'' (Inr (jr_claims res)) = Pass c"
proof -
  obtain r res names roles rule where l: "GenerateJWT (\<lambda>u p. Inr (p = ''pw'')) (\<lambda>k c. Inr ''t'')
       \<lparr>mg_ActionList = [], mg_Rbac = Some (r :: string rbac), mg_enabled = True\<rparr> sample_jwt 0 ''j'' False ''joe'' ''pw'' = Inr res"
     "jr_success res" "jr_err res = None" "GetUserRoles r ''joe'' = Inr names" "GetRoles r names = Inr roles"
     "names_action ''GetRecords'' roles rule" using sample_login_roles by blast
  have i: "jwt_Initialize (Inl fatal) sample_jwt = Inr sample_jwt" and s: "jc_SecretKey sample_jwt \<noteq> []"
    and e: "jc_Enable sample_jwt" and z: "Unix (jc_RevokeEmittedBeforeDate sample_jwt) \<le> Unix 0" "Unix 0 < Unix 2000000000"
    by (simp_all add: jwt_Initialize_def sample_jwt_def Unix_def)
  from restart_forgets_revocation [OF i s e l(1-3) _ _ l(4-6) z i] l(1) show ?thesis by fastforce
qed

end
