(* ===== verification/Stores.thy ===== *)
theory Stores
  imports StreamRun MySqlWriter FileWriter
begin

text \<open>
  The life of a stream over the other writers. The ingest loop was verified for every writer that
  keeps the contract; here it runs over MySQL, whose writes are atomic, and over files, whose writes
  are not, which is what decides whether a save that failed stores records twice when it is repeated.
\<close>

section \<open>Writers whose failed writes store nothing\<close>

locale atomic_writer = closable_writer +
  assumes failed_keeps: "holds w old \<Longrightarrow> store (i, w) rs = ((i', w'), Some e) \<Longrightarrow> holds w' old"
begin

text \<open>\<open>located\<close> with its last argument true says that every accepted record is in exactly one place.\<close>

lemma exact_Save:
  assumes "located holds base old b acc True" and "ib_Save store (i, b) = ((i', b'), err)"
  shows "\<exists>old'. located holds base old' b' acc True"
proof (cases err)
  case None
  with located_Save [OF assms] show ?thesis by simp
next
  case (Some e)
  obtain i1 w1 e1 where w: "store (i, ib_writer b) (ib_msgBuffer b) = ((i1, w1), e1)" by (metis surj_pair)
  with assms(2) Some have b': "b' = b\<lparr>ib_writer := w1\<rparr>" and e1: "e1 = Some e"
    by (auto simp: ib_Save_def split: option.splits)
  have "holds w1 (base @ old)"
    using failed_keeps [OF _ w [unfolded e1]] assms(1) by (simp add: located_def)
  with assms(1) b' show ?thesis by (intro exI [of _ old]) (auto simp: located_def)
qed

lemma exact_st_Save:
  "located holds base old (st_ingestBuffer s) acc True \<Longrightarrow> st_Save store s = (s', err) \<Longrightarrow>
     \<exists>old'. located holds base old' (st_ingestBuffer s') acc True"
  by (auto simp: st_Save_def split: prod.splits dest: exact_Save)

lemma exact_run_message:
  assumes "located holds base old (st_ingestBuffer s) acc True" and "run_message store s = (s', err)"
    and "ib_channelMsg (st_ingestBuffer s) \<noteq> []"
  shows "\<exists>old'. located holds base old' (st_ingestBuffer s') acc True"
proof -
  obtain r rs where c: "ib_channelMsg (st_ingestBuffer s) = r # rs"
    using assms(3) by (cases "ib_channelMsg (st_ingestBuffer s)") auto
  let ?s = "s\<lparr>st_ingestBuffer := AppendMesssage r ((st_ingestBuffer s)\<lparr>ib_channelMsg := rs\<rparr>)\<rparr>"
  have l: "located holds base old (st_ingestBuffer ?s) acc True"
    using located_receive [OF assms(1) c] by simp
  from assms(2) c have "st_Save store ?s = (s', err) \<or> s' = ?s \<and> err = None"
    by (auto simp: run_message_def bufferizeMessage_def Let_def split: if_splits)
  with l exact_st_Save [OF l] show ?thesis by auto
qed

lemma exact_run_done:
  assumes "located holds base old (st_ingestBuffer s) acc True"
    and "run_done store wclose itclose ks s = (s', err)"
  shows "\<exists>old'. located holds base old' (st_ingestBuffer s') acc True"
proof -
  obtain s1 where s1: "st_Save store s = (s1, err)"
    using assms(2) by (auto simp: run_done_def split: prod.splits)
  obtain b e where b: "ib_Close wclose (st_ingestBuffer s1) = (b, e)" by fastforce
  from assms(2) s1 b have "st_ingestBuffer s' = b"
    by (auto simp: run_done_def split: prod.splits)
  with exact_st_Save [OF assms(1) s1] located_close [OF _ b] show ?thesis by blast
qed

lemma exact_step:
  assumes "stream_step store wclose itclose sz p q" and "located holds base old (pr_buf p) (pr_accepted p) True"
  shows "\<exists>old'. located holds base old' (pr_buf q) (pr_accepted q) True"
  using assms(1)
proof cases
  case (step_send now m ms)
  with located_push [OF assms(2)] show ?thesis
    by (auto simp: send_step_def ingest_one_def ib_PutMessage_def Let_def)
next
  case (step_receive s err)
  with exact_run_message [OF assms(2)] show ?thesis by auto
next
  case (step_flush s err)
  with exact_st_Save [OF assms(2)] show ?thesis by auto
next
  case (step_done ks s err)
  with exact_run_done [OF assms(2)] show ?thesis by auto
qed (use assms(2) in \<open>auto simp: st_Start_def st_Close_def st_Close_wait_def setState_def split: if_splits\<close>)

lemma run_exact:
  assumes "stream_run store wclose itclose sz info b p"
    and "holds (ib_writer b) base" and "ib_channelMsg b = []" and "ib_msgBuffer b = []"
  shows "\<exists>new. holds (ib_writer (pr_buf p)) (base @ new) \<and>
     pr_accepted p = new @ ib_msgBuffer (pr_buf p) @ ib_channelMsg (pr_buf p)"
proof -
  from assms(1) have "\<exists>old. located holds base old (pr_buf p) (pr_accepted p) True"
  proof (induction rule: stream_run.induct)
    case run_new
    with assms(2-4) show ?case
      by (auto simp: located_def new_proc_def NewStream_def intro!: exI [of _ "[]"])
  next
    case (run_step p q)
    then show ?case using exact_step by blast
  qed
  then show ?thesis by (auto simp: located_def)
qed

end

interpretation my_atomic: atomic_writer "mysql_Write mj db" "my_holds mj" "json_size mj" mw_Close
  for mj :: "'x deferred \<Rightarrow> go_error + string" and db
proof unfold_locales
  fix w w' :: mysql_writer and i i' :: "'x stream_info" and old rs :: "'x deferred list" and e
  assume h: "my_holds mj w old" and st: "mysql_Write mj db (i, w) rs = ((i', w'), Some e)"
  have ne: "rs \<noteq> []" using st by auto
  have "insert_query w' = insert_query w" using mysql_Write_names [OF st] ..
  with st ne h show "my_holds mj w' old"
    by (cases rule: mysql_Write_cases [where q = "insert_query w"])
      (simp_all add: my_holds_def my_rows_def committed_state)
qed

section \<open>Properties\<close>


text \<open>A run in which the database is down: one message is accepted and its save fails.\<close>

definition sample_mysql_ib :: "(nat, mysql_writer) ingest_buffer" where
  "sample_mysql_ib = \<lparr>ib_bulkFlushFrequency = 0, ib_bulkMaxSize = 1, ib_channelSize = 1, ib_channelMsg = [],
     ib_msgBuffer = [], ib_writer = sample_mysql_writer\<rparr>"

definition sample_mysql_started :: "(nat, mysql_writer, nat) proc" where
  "sample_mysql_started = (new_proc (NewStreamInfo 0 7) sample_mysql_ib)
     \<lparr>pr_stream := setState STREAM_STATE_RUNNING (NewStream (NewStreamInfo 0 7) sample_mysql_ib), pr_loop := True\<rparr>"

definition sample_mysql_put :: "(nat, mysql_writer, nat) stream" where
  "sample_mysql_put = fst (the (PutMessages (\<lambda>_. 1) 9 [INil] (pr_stream sample_mysql_started)))"

definition down_db :: sql_db where
  "down_db log c = Some (Error ''connection refused'')"

lemmas sample_mysql_run_defs = sample_mysql_started_def sample_mysql_ib_def new_proc_def NewStream_def setState_def
  NewStreamInfo_def no_msgs_def PutMessages_def first_ingested_def ingest_one_def ib_PutMessage_def ib_sent_def Let_def

lemma sample_mysql_PutMessages:
  "PutMessages (\<lambda>_. 1) 9 [INil] (pr_stream sample_mysql_started) = Some (sample_mysql_put, Inr [1])"
  "pr_batch sample_mysql_started = None" "ib_sent (pr_buf sample_mysql_started)"
  "pr_accepted sample_mysql_started = []" "pr_loop sample_mysql_started"
  by (simp_all add: sample_mysql_put_def sample_mysql_run_defs)


text \<open>
  With files it is otherwise. When the line of the first record reached the data file but its row could not be
  added to the index, the save fails and keeps the buffer; the next save, without faults, writes the whole
  batch again: the first record is in the file twice.
\<close>

theorem file_failed_save_repeats:
  assumes "fw_holds mj (ib_writer b) base" and "ib_msgBuffer b = r # rs" and "mj r = Inr s"
    and "ib_Save (fw_Write mj mji (no_faults\<lparr>ff_write_index := [0 \<mapsto> (n, e)]\<rparr>)) (i, b) = ((i1, b1), err1)"
    and "fw_state (ib_writer b) = STREAM_WRITER_FILE_STATE_OPENED"
    and "ib_Save (fw_Write mj mji no_faults) (i1, b1) = ((i2, b2), None)"
  shows "err1 = Some e \<and> fw_holds mj (ib_writer b2) (base @ r # r # rs)"
proof -
  let ?w = "ib_writer b" and ?flt = "no_faults\<lparr>ff_write_index := [0 \<mapsto> (n, e)]\<rparr>"
  have a: "append_file (Some (n, e)) ys g = (map_option (\<lambda>f. f @ take n ys) g, Some e)" for ys :: bytes and g
    by (simp add: append_file_def)
  obtain i' w' where w: "fw_Write mj mji ?flt (i, ?w) (r # rs) = ((i', w'), Some e)"
    and d: "sf_data (fw_files w') = map_option (\<lambda>f. f @ s @ [EOL]) (sf_data (fw_files ?w))"
    using assms(3,5) by (simp add: fw_Write_def a Let_def)
  then have b1: "err1 = Some e" "b1 = b\<lparr>ib_writer := w'\<rparr>"
    using assms(2,4) by (auto simp: ib_Save_def)
  have h: "fw_holds mj (ib_writer b1) (base @ [r])"
    using fw_holds_snoc [OF assms(1,3) d] b1 by simp
  obtain i3 w3 where "fw_Write mj mji no_faults (i1, ib_writer b1) (ib_msgBuffer b1) = ((i3, w3), None)" "ib_writer b2 = w3"
    using assms(6) by (auto simp: ib_Save_def ib_Clear_def split: option.splits prod.splits)
  with fw_writer.store_ok [OF h] have "fw_holds mj (ib_writer b2) ((base @ [r]) @ ib_msgBuffer b1)" by simp
  with b1 assms(2) show ?thesis by simp
qed

end
