(* ===== verification/FileService.thy ===== *)
theory FileService
  imports FileProvider Service
begin

text \<open>
  The provider of streams stored in files behind the service: its operations as the service calls
  them, and the proof that it keeps the laws of a provider, so that everything proved of the
  service over any provider holds for streams stored in files.
\<close>

text \<open>
  What lies outside the program: the JSON library, errors of the operating system on a call, the
  order in which the map of descriptions is visited, and the value made of the statistics of an index.
\<close>

record 'x file_env =
  fe_marshal_catalog :: "uuid list option \<Rightarrow> go_error + string"
  fe_decode_catalog :: "string \<Rightarrow> go_error + uuid list"
  fe_decode_info :: "string \<Rightarrow> go_error + 'x stream_info"
  fe_unmarshal :: "'x deferred option \<Rightarrow> string \<Rightarrow> go_error + 'x deferred option"
  fe_mkdir :: "go_error option"
  fe_write :: "(nat \<times> go_error) option"
  fe_remove :: "go_error option"
  fe_order :: "'x file_storage \<Rightarrow> uuid list"
  fe_stats :: "index_stats \<Rightarrow> 'x iface"

definition file_provider_ops :: "'x file_env \<Rightarrow> ('x, 'x file_storage, file_writer, file_handler) provider_ops" where
  "file_provider_ops E = \<lparr>
     po_Init = fsp_Init (fe_marshal_catalog E) (fe_mkdir E) (fe_write E), po_Stop = fsp_Stop,
     po_GenerateNewStreamUuid = fsp_GenerateNewStreamUuid, po_StreamExists = fsp_StreamExists,
     po_SaveStreamCatalog = (\<lambda>s. fsp_SaveStreamCatalog (fe_marshal_catalog E) (fe_write E) (fe_order E s) s),
     po_LoadStreams = fsp_LoadStreams (fe_decode_catalog E) (fe_decode_info E),
     po_OnCreateStream = (\<lambda>i s. fsp_OnCreateStream (fe_mkdir E) s (si_UUID i) i),
     po_GetStreamInfo = (\<lambda>u s. fsp_GetStreamInfo s u),
     po_BuildIndex = (\<lambda>u s. case fsp_BuildIndex (fe_unmarshal E) s u of
        (s', Inl e) \<Rightarrow> (s', Inl e) | (s', Inr stats) \<Rightarrow> (s', Inr (fe_stats E stats))),
     po_NewStreamIteratorHandler = (\<lambda>u itu s. fsp_NewStreamIteratorHandler s u),
     po_NewStreamWriter = (\<lambda>i s. fsp_NewStreamWriter s (si_UUID i)),
     po_DeleteStream = (\<lambda>u s. fsp_DeleteStream (fe_remove E) s u)\<rparr>"

definition file_writer_ops ::
    "('x deferred \<Rightarrow> go_error + string) \<Rightarrow> ('x stream_info \<Rightarrow> go_error + string) \<Rightarrow> 'x stream_info \<Rightarrow>
       ('x, file_writer) writer_ops" where
  "file_writer_ops mj mji info = \<lparr>wo_Init = fw_Init mji no_faults info, wo_Open = fw_Open no_faults,
     wo_Close = fw_Close no_faults, wo_Write = fw_Write mj mji no_faults\<rparr>"

lemma file_po_sel:
  "po_StreamExists (file_provider_ops E) = fsp_StreamExists"
  "po_OnCreateStream (file_provider_ops E) i s = fsp_OnCreateStream (fe_mkdir E) s (si_UUID i) i"
  "po_DeleteStream (file_provider_ops E) u s = fsp_DeleteStream (fe_remove E) s u"
  "po_SaveStreamCatalog (file_provider_ops E) s = fsp_SaveStreamCatalog (fe_marshal_catalog E) (fe_write E) (fe_order E s) s"
  "po_BuildIndex (file_provider_ops E) u s = (case fsp_BuildIndex (fe_unmarshal E) s u of
      (s', Inl e) \<Rightarrow> (s', Inl e) | (s', Inr stats) \<Rightarrow> (s', Inr (fe_stats E stats)))"
  "po_GenerateNewStreamUuid (file_provider_ops E) = fsp_GenerateNewStreamUuid"
  by (simp_all add: file_provider_ops_def)

lemma fsp_StreamExists_find: "fsp_StreamExists s u \<longleftrightarrow> fc_find s u \<noteq> None"
  by (simp add: fsp_StreamExists_def file_cat.exists_find)

lemma fc_find_disk [simp]: "fc_find (s\<lparr>fsp_disk := d\<rparr>) = fc_find s"
  by (simp add: fc_find_def fun_eq_iff)

interpretation file_provider: storage_provider "file_provider_ops E" for E :: "'x file_env"
proof unfold_locales
  let ?P = "file_provider_ops E"
  fix p p' :: "'x file_storage" and u v
  show "po_StreamExists ?P p' u \<longleftrightarrow> u = si_UUID i \<or> po_StreamExists ?P p u"
    if "po_OnCreateStream ?P i p = (p', None)" for i
    using that by (auto simp: file_po_sel fsp_OnCreateStream_def fsp_StreamExists_find Let_def
        split: option.splits sum.splits if_splits dest!: file_cat.find_create)
  show "po_StreamExists ?P p' u" if "po_OnCreateStream ?P i p = (p', err)" "po_StreamExists ?P p u" for i err
    using that by (auto simp: file_po_sel fsp_OnCreateStream_def fsp_StreamExists_find Let_def
        split: option.splits sum.splits if_splits dest!: file_cat.find_create)
  show "po_StreamExists ?P p' u \<longleftrightarrow> u \<noteq> v \<and> po_StreamExists ?P p u" if "po_DeleteStream ?P v p = (p', None)"
    using that by (auto simp: file_po_sel fsp_DeleteStream_def fsp_StreamExists_find Let_def
        split: option.splits sum.splits if_splits dest!: file_cat.find_delete)
  show "po_StreamExists ?P p' u = po_StreamExists ?P p u" if "po_DeleteStream ?P v p = (p', Some e)" for e
    using that by (auto simp: file_po_sel fsp_DeleteStream_def fsp_StreamExists_find Let_def fc_OnDeleteStream_def
        split: option.splits sum.splits)
  show "po_StreamExists ?P p' u = po_StreamExists ?P p u" if "po_SaveStreamCatalog ?P p = (p', err)" for err
    using that by (auto simp: file_po_sel fsp_SaveStreamCatalog_def fc_SaveStreamCatalog_def write_catalog_def
        fsp_StreamExists_find split: option.splits sum.splits)
  show "po_StreamExists ?P p' u = po_StreamExists ?P p u" if "po_BuildIndex ?P v p = (p', r)" for r
    using that by (auto simp: file_po_sel fsp_BuildIndex_def fsp_StreamExists_find
        split: option.splits sum.splits prod.splits if_splits)
  show "\<not> po_StreamExists ?P p u" if "po_GenerateNewStreamUuid ?P p ds = Some u" for ds
    using that fresh_uuid_free by (auto simp: file_po_sel fsp_GenerateNewStreamUuid_def)
qed

interpretation file_service: stream_service "file_provider_ops E" "file_writer_ops mj mji info" "fw_holds mj" "line_size mj"
  for E :: "'x file_env" and mj :: "'x deferred \<Rightarrow> go_error + string" and mji info
  by (intro stream_service.intro file_provider.storage_provider_axioms)
    (simp add: file_writer_ops_def fw_writer.closable_writer_axioms)

end
