(* ===== verification/IteratorRequest.thy ===== *)
theory IteratorRequest
  imports StreamIter
begin

text \<open>
  The body of a request that creates a record iterator: its JSON schema and its validation
  (stream/streamiterator.go), and what the decoded request of a body that passed may look like
  (types/istreamiteratorhandler.go).
\<close>

section \<open>JSON values\<close>

text \<open>
  The values of the fields, as far as the schema and the decoder tell them apart: an integer written
  with digits only, an integer written with a fraction or an exponent, another number, and arrays
  and objects without what is in them. A body is an object with distinct keys or something else.
\<close>

datatype js_value =
    JSNull | JSBool bool | JSString string | JSInt int | JSIntegral int | JSFraction | JSArray | JSObject

datatype js_doc = Fields "(string \<times> js_value) list" | Not_An_Object

section \<open>The schema\<close>

definition is_enum :: "string list \<Rightarrow> js_value \<Rightarrow> bool" where
  "is_enum names v = (case v of JSString s \<Rightarrow> s \<in> set names | _ \<Rightarrow> False)"

definition is_text :: "nat \<Rightarrow> nat \<Rightarrow> js_value \<Rightarrow> bool" where
  "is_text minLength maxLength v =
     (case v of JSString s \<Rightarrow> minLength \<le> length s \<and> length s \<le> maxLength | _ \<Rightarrow> False)"

definition is_integer :: "int \<Rightarrow> int option \<Rightarrow> js_value \<Rightarrow> bool" where
  "is_integer minimum maximum v =
     (let ok = (\<lambda>n. minimum \<le> n \<and> (case maximum of None \<Rightarrow> True | Some m \<Rightarrow> n \<le> m)) in
      case v of JSInt n \<Rightarrow> ok n | JSIntegral n \<Rightarrow> ok n | _ \<Rightarrow> False)"

text \<open>The pattern of a timestamp, one test per character.\<close>

definition is_digit_char :: "char \<Rightarrow> bool" where
  "is_digit_char c \<longleftrightarrow> c \<in> set ''0123456789''"

definition is_timestamp :: "js_value \<Rightarrow> bool" where
  "is_timestamp v =
     (let d = is_digit_char; eq = (\<lambda>c x. x = c) in
      case v of
        JSString s \<Rightarrow> list_all2 (\<lambda>p c. p c)
          [d, d, d, d, eq (CHR ''-''), d, d, eq (CHR ''-''), d, d, eq (CHR ''T''), d, d, eq (CHR 0x3A), d, d,
           eq (CHR 0x3A), d, d, eq (CHR ''Z'')] s
      | _ \<Rightarrow> False)"

text \<open>An object of the schema: a test for each allowed key, no other key, and the required keys.\<close>

definition object_schema :: "(string \<times> (js_value \<Rightarrow> bool)) list \<Rightarrow> string list \<Rightarrow> (string \<times> js_value) list \<Rightarrow> bool" where
  "object_schema properties required fs \<longleftrightarrow>
     list_all (\<lambda>(k, v). case map_of properties k of None \<Rightarrow> False | Some test \<Rightarrow> test v) fs \<and>
     list_all (\<lambda>k. k \<in> set (map fst fs)) required"

definition common_properties :: "(string \<times> (js_value \<Rightarrow> bool)) list" where
  "common_properties =
     [(''jqFilter'', is_text 1 512), (''name'', is_text 1 256), (''maxWaitTimeSeconds'', is_integer 0 (Some 60))]"

definition end_schema :: "(string \<times> js_value) list \<Rightarrow> bool" where
  "end_schema = object_schema
     ((''iteratorType'', is_enum [''FIRST_MESSAGE'', ''LAST_MESSAGE'', ''AFTER_LAST_MESSAGE'']) # common_properties)
     [''iteratorType'']"

definition id_schema :: "(string \<times> js_value) list \<Rightarrow> bool" where
  "id_schema = object_schema
     ((''iteratorType'', is_enum [''AT_MESSAGE_ID'', ''AFTER_MESSAGE_ID'']) #
      (''messageId'', is_integer 0 None) # common_properties)
     [''iteratorType'', ''messageId'']"

definition time_schema :: "(string \<times> js_value) list \<Rightarrow> bool" where
  "time_schema = object_schema
     ((''iteratorType'', is_enum [''AT_TIMESTAMP'']) # (''timestamp'', is_timestamp) # common_properties)
     [''iteratorType'', ''timestamp'']"

text \<open>\<^verbatim>\<open>oneOf\<close>: exactly one of the three.\<close>

definition request_schema :: "js_doc \<Rightarrow> bool" where
  "request_schema doc =
     (case doc of
        Not_An_Object \<Rightarrow> False
      | Fields fs \<Rightarrow> length (filter (\<lambda>schema. schema fs) [end_schema, id_schema, time_schema]) = 1)"

text \<open>
  The library reports the errors of a body; their texts \<open>errs\<close> are joined into one error, and there is
  at least one when the body does not match. A body that is not JSON gives \<open>Inl\<close>.
\<close>

fun join_errors :: "string list \<Rightarrow> string" where
  "join_errors [] = []"
| "join_errors [e] = e"
| "join_errors (e # es) = e @ '', '' @ join_errors es"

definition ValidateStreamIteratorRequest :: "(js_doc \<Rightarrow> string list) \<Rightarrow> go_error + js_doc \<Rightarrow> go_error option" where
  "ValidateStreamIteratorRequest errs data =
     (case data of
        Inl e \<Rightarrow> Some e
      | Inr doc \<Rightarrow> if errs doc = [] then None else Some (Error (join_errors (errs doc))))"

text \<open>Documented of the library: it reports no error exactly for the bodies that match the schema.\<close>

definition reports :: "(js_doc \<Rightarrow> string list) \<Rightarrow> bool" where
  "reports errs \<longleftrightarrow> (\<forall>doc. errs doc = [] \<longleftrightarrow> request_schema doc)"

section \<open>Decoding\<close>

text \<open>
  \<^verbatim>\<open>encoding/json\<close> on the structure of a request: an absent field and \<^verbatim>\<open>null\<close> leave the zero value, a number
  has to be written as an integer of the range of its type, and \<open>parse_time\<close> reads a timestamp.
\<close>

definition wrong_type :: go_error where
  "wrong_type = Error ''json: cannot unmarshal''"

definition text_field :: "(string \<times> js_value) list \<Rightarrow> string \<Rightarrow> go_error + string" where
  "text_field fs k =
     (case map_of fs k of None \<Rightarrow> Inr [] | Some JSNull \<Rightarrow> Inr [] | Some (JSString s) \<Rightarrow> Inr s | _ \<Rightarrow> Inl wrong_type)"

definition int_field :: "int \<Rightarrow> int \<Rightarrow> (string \<times> js_value) list \<Rightarrow> string \<Rightarrow> go_error + int" where
  "int_field least bound fs k =
     (case map_of fs k of None \<Rightarrow> Inr 0 | Some JSNull \<Rightarrow> Inr 0
      | Some (JSInt n) \<Rightarrow> if least \<le> n \<and> n < bound then Inr n else Inl wrong_type | _ \<Rightarrow> Inl wrong_type)"

definition time_field :: "(string \<Rightarrow> go_error + time) \<Rightarrow> (string \<times> js_value) list \<Rightarrow> string \<Rightarrow> go_error + time" where
  "time_field parse_time fs k =
     (case map_of fs k of None \<Rightarrow> Inr zero_time | Some JSNull \<Rightarrow> Inr zero_time
      | Some (JSString s) \<Rightarrow> parse_time s | _ \<Rightarrow> Inl wrong_type)"

definition decode_request :: "(string \<Rightarrow> go_error + time) \<Rightarrow> js_doc \<Rightarrow> go_error + iterator_request" where
  "decode_request parse_time doc =
     (case doc of
        Not_An_Object \<Rightarrow> Inl wrong_type
      | Fields fs \<Rightarrow>
          (case (text_field fs ''iteratorType'', int_field 0 (2 ^ 64) fs ''messageId'', time_field parse_time fs ''timestamp'',
                 text_field fs ''jqFilter'', int_field (- (2 ^ 63)) (2 ^ 63) fs ''maxWaitTimeSeconds'', text_field fs ''name'') of
             (Inr ty, Inr i, Inr t, Inr jq, Inr wait, Inr name) \<Rightarrow> Inr
               \<lparr>rq_IteratorType = ty, rq_MessageId = word_of_int i, rq_Timestamp = t, rq_JqFilter = jq,
                rq_MaxWaitTimeSeconds = wait, rq_Name = name\<rparr>
           | _ \<Rightarrow> Inl wrong_type))"

section \<open>Lemmas\<close>

lemma object_schema_field:
  assumes "object_schema ps req fs" and "map_of fs k = Some v"
  shows "\<exists>test. map_of ps k = Some test \<and> test v"
proof -
  have "(k, v) \<in> set fs" using assms(2) by (rule map_of_SomeD)
  with assms(1) have "case map_of ps k of None \<Rightarrow> False | Some test \<Rightarrow> test v"
    unfolding object_schema_def list_all_iff by fastforce
  then show ?thesis by (auto split: option.splits)
qed

lemma object_schema_required:
  assumes "object_schema ps req fs" and "k \<in> set req"
  shows "\<exists>v. map_of fs k = Some v"
proof -
  have "k \<in> fst ` set fs" using assms by (simp add: object_schema_def list_all_iff)
  then show ?thesis by (metis map_of_eq_None_iff not_None_eq)
qed

text \<open>The three schemas exclude each other, so \<^verbatim>\<open>oneOf\<close> means any of them.\<close>

lemmas schema_defs = end_schema_def id_schema_def time_schema_def

lemma schema_type:
  "end_schema fs \<Longrightarrow> \<exists>s. map_of fs ''iteratorType'' = Some (JSString s) \<and> s \<in> {''FIRST_MESSAGE'', ''LAST_MESSAGE'', ''AFTER_LAST_MESSAGE''}"
  "id_schema fs \<Longrightarrow> \<exists>s. map_of fs ''iteratorType'' = Some (JSString s) \<and> s \<in> {''AT_MESSAGE_ID'', ''AFTER_MESSAGE_ID''}"
  "time_schema fs \<Longrightarrow> \<exists>s. map_of fs ''iteratorType'' = Some (JSString s) \<and> s \<in> {''AT_TIMESTAMP''}"
  unfolding schema_defs
  by (frule object_schema_required [where k = "''iteratorType''"], simp, erule exE,
      drule (1) object_schema_field, auto simp: is_enum_def split: js_value.splits)+

lemma schemas_exclude: "\<not> (end_schema fs \<and> id_schema fs)" "\<not> (end_schema fs \<and> time_schema fs)" "\<not> (id_schema fs \<and> time_schema fs)"
  using schema_type [of fs] by auto

lemma request_schema_any:
  "request_schema (Fields fs) \<longleftrightarrow> end_schema fs \<or> id_schema fs \<or> time_schema fs"
  using schemas_exclude [of fs] by (auto simp: request_schema_def)

lemma schema_common:
  assumes "request_schema (Fields fs)"
  shows "map_of fs ''maxWaitTimeSeconds'' = Some v \<Longrightarrow> is_integer 0 (Some 60) v"
    and "map_of fs ''jqFilter'' = Some v \<Longrightarrow> is_text 1 512 v"
    and "map_of fs ''name'' = Some v \<Longrightarrow> is_text 1 256 v"
  using assms unfolding request_schema_any schema_defs common_properties_def
  by (auto dest!: object_schema_field)

text \<open>What a request looks like that was validated and decoded.\<close>

lemma validated_request:
  assumes "request_schema doc" and "decode_request parse_time doc = Inr rq"
  shows "rq_IteratorType rq \<in> {''FIRST_MESSAGE'', ''LAST_MESSAGE'', ''AFTER_LAST_MESSAGE'', ''AT_MESSAGE_ID'',
      ''AFTER_MESSAGE_ID'', ''AT_TIMESTAMP''}"
    and "0 \<le> rq_MaxWaitTimeSeconds rq \<and> rq_MaxWaitTimeSeconds rq \<le> 60"
    and "length (rq_JqFilter rq) \<le> 512 \<and> length (rq_Name rq) \<le> 256"
proof -
  obtain fs where doc: "doc = Fields fs" using assms(1) by (cases doc) (auto simp: request_schema_def)
  note s = assms(1) [unfolded doc]
  from assms(2) doc have f: "text_field fs ''iteratorType'' = Inr (rq_IteratorType rq)"
    "int_field (- (2 ^ 63)) (2 ^ 63) fs ''maxWaitTimeSeconds'' = Inr (rq_MaxWaitTimeSeconds rq)"
    "text_field fs ''jqFilter'' = Inr (rq_JqFilter rq)" "text_field fs ''name'' = Inr (rq_Name rq)"
    by (auto simp: decode_request_def split: sum.splits)
  from s have "end_schema fs \<or> id_schema fs \<or> time_schema fs" by (simp add: request_schema_any)
  with schema_type [of fs] f(1) show "rq_IteratorType rq \<in> {''FIRST_MESSAGE'', ''LAST_MESSAGE'', ''AFTER_LAST_MESSAGE'',
      ''AT_MESSAGE_ID'', ''AFTER_MESSAGE_ID'', ''AT_TIMESTAMP''}"
    unfolding text_field_def by (elim disjE) (auto split: option.splits js_value.splits)
  from f(2) schema_common(1) [OF s] show "0 \<le> rq_MaxWaitTimeSeconds rq \<and> rq_MaxWaitTimeSeconds rq \<le> 60"
    by (auto simp: int_field_def is_integer_def split: option.splits js_value.splits if_splits)
  from f(3,4) schema_common(2,3) [OF s] show "length (rq_JqFilter rq) \<le> 512 \<and> length (rq_Name rq) \<le> 256"
    by (auto simp: text_field_def is_text_def split: option.splits js_value.splits if_splits)
qed

section \<open>Properties\<close>


text \<open>
  The comment behind the schema lists valid requests; one of them writes the waiting time as a text,
  which the schema rejects.
\<close>

lemma documented_example_rejected:
  "\<not> request_schema (Fields [(''iteratorType'', JSString ''FIRST_MESSAGE''), (''maxWaitTimeSeconds'', JSString ''20'')])"
  "request_schema (Fields [(''iteratorType'', JSString ''FIRST_MESSAGE''), (''maxWaitTimeSeconds'', JSInt 20)])"
  "request_schema (Fields [(''iteratorType'', JSString ''AT_TIMESTAMP''), (''timestamp'', JSString ''2006-01-02T15:04:06Z'')])"
  by (simp_all add: request_schema_any schema_defs object_schema_def common_properties_def is_integer_def is_enum_def
      is_timestamp_def is_digit_char_def Let_def)

text \<open>
  An integer written with an exponent passes the schema and is refused by the decoder.
\<close>

lemma exponent_passes_schema:
  "request_schema (Fields [(''iteratorType'', JSString ''FIRST_MESSAGE''), (''maxWaitTimeSeconds'', JSIntegral 20)]) \<and>
   decode_request parse_time (Fields [(''iteratorType'', JSString ''FIRST_MESSAGE''), (''maxWaitTimeSeconds'', JSIntegral 20)]) =
     Inl wrong_type"
  by (simp add: request_schema_any schema_defs object_schema_def common_properties_def is_integer_def is_enum_def
      decode_request_def text_field_def int_field_def time_field_def Let_def)

definition sample_reader :: "(unit in_memory_stream \<times> im_handler, string) stream_iterator" where
  "sample_reader = (sample_it 0 None)\<lparr>it_request := Some ((sample_request ''FIRST_MESSAGE'' 0)\<lparr>rq_Timestamp := zero_time\<rparr>)\<rparr>"


end
