(* ===== verification/Consumer.thy ===== *)
theory Consumer
  imports StreamRun StreamIter
begin

text \<open>
  A stream from its producers to a consumer, for every storage provider. The writer of a stream and the
  handler of an iterator work on the same storage (an \<^verbatim>\<open>InMemoryStream\<close>, the data file, the table); here the
  stream runs as in StreamRun, the iterator is called as in StreamIter, and what the handler works on is the
  storage as the writer has left it, also while a call of the consumer is under way. The locales say what a
  provider has to promise so that nothing is lost between the two.
\<close>

section \<open>Storage that a handler shares with the writer\<close>

text \<open>
  A handler \<open>s\<close> works on the storage \<open>c\<close>. \<open>contents\<close> is what the storage holds, as a handler at its beginning
  would deliver it; \<open>extends c d\<close>: the storage \<open>c\<close> may grow into \<open>d\<close>; \<open>sound\<close> is what a storage has to satisfy
  at the end of a run; \<open>unopened\<close> and \<open>fresh\<close> are handlers as they are made and as they are opened.
\<close>

locale shared_storage = positioned_source get_next pending hinv ops parked
  for get_next :: "'c \<times> 's \<Rightarrow> go_error + ('c \<times> 's) \<times> 'r next_result" and pending and hinv and ops and parked +
  fixes contents :: "'c \<Rightarrow> (u64 \<times> (go_error + 'r iface)) list"
    and extends :: "'c \<Rightarrow> 'c \<Rightarrow> bool"
    and sound :: "'c \<Rightarrow> bool"
    and unopened :: "'s \<Rightarrow> bool"
    and fresh :: "'s \<Rightarrow> bool"
  assumes extends_refl: "extends c c"
    and extends_trans: "extends c d \<Longrightarrow> extends d e \<Longrightarrow> extends c e"
    and extends_sound: "extends c d \<Longrightarrow> sound d \<Longrightarrow> sound c"
    and next_same: "get_next h = Inr (h', x) \<Longrightarrow> fst h' = fst h"
    and seek_same: "fst (fst (ho_Seek ops request h)) = fst h"
    and save_same: "fst (fst (ho_SaveSeek ops h)) = fst h"
    and parked_hinv: "parked h \<Longrightarrow> hinv h"
    and grow: "hinv (c, s) \<Longrightarrow> extends c d \<Longrightarrow> sound d \<Longrightarrow>
         hinv (d, s) \<and> (\<exists>more. contents d = contents c @ more \<and> pending (d, s) = pending (c, s) @ more)"
    and parked_grow: "parked (c, s) \<Longrightarrow> extends c d \<Longrightarrow> sound d \<Longrightarrow> parked (d, s)"
    and open_fresh: "unopened s \<Longrightarrow> ho_Open ops (c, s) = ((c', s'), None) \<Longrightarrow> fresh s'"
    and first_seek: "fresh s \<Longrightarrow> sound c \<Longrightarrow> rq_IteratorType rq = ''FIRST_MESSAGE'' \<Longrightarrow>
         \<exists>s'. ho_Seek ops (Some rq) (c, s) = ((c, s'), None) \<and> ho_Seek ops (Some rq) (c, s') = ((c, s'), None) \<and>
           parked (c, s') \<and> pending (c, s') = contents c"

text \<open>
  A pass of the loop of \<^verbatim>\<open>GetRecords\<close> reads the storage as it is then, \<open>m\<close>. In a run this is always what
  the handler saw before, grown; a handler that works elsewhere is left alone.
\<close>

definition observe :: "('c \<Rightarrow> 'c \<Rightarrow> bool) \<Rightarrow> 'c \<Rightarrow> 'c \<times> 's \<Rightarrow> 'c \<times> 's" where
  "observe extends m h = (if extends (fst h) m then (m, snd h) else h)"

text \<open>The call starts with the storage as it is.\<close>

definition attach :: "'c \<Rightarrow> ('c \<times> 's, 'q) stream_iterator \<Rightarrow> ('c \<times> 's, 'q) stream_iterator" where
  "attach m it = it\<lparr>it_handler := (m, snd (it_handler it))\<rparr>"

lemma attach_simps [simp]:
  "it_request (attach c it) = it_request it" "it_busy (attach c it) = it_busy it"
  "it_jqFilter (attach c it) = it_jqFilter it" "it_handler (attach c it) = (c, snd (it_handler it))"
  by (simp_all add: attach_def)

text \<open>Handlers whose storage may still grow into \<open>F\<close> are a record source as well.\<close>

sublocale shared_storage \<subseteq> lagging: positioned_source get_next pending "\<lambda>h. hinv h \<and> extends (fst h) F" ops
    "\<lambda>h. parked h \<and> extends (fst h) F" for F
proof unfold_locales
  fix h
  assume h: "hinv h \<and> extends (fst h) F"
  have n: "extends (fst h') F" if "get_next h = Inr (h', x)" for h' x
    using next_same [OF that] h by simp
  show "pending h = [] \<Longrightarrow> \<exists>h' i v c err. get_next h = Inr (h', i, v, False, c, err) \<and>
      (hinv h' \<and> extends (fst h') F) \<and> pending h' = []"
    using next_end [of h] h n by blast
  show "\<exists>h' c. get_next h = Inr (h', i, r, True, c, None) \<and> (hinv h' \<and> extends (fst h') F) \<and> pending h' = ps"
    if "pending h = (i, Inr r) # ps" for i r ps
    using next_record [OF _ that] h n by blast
  show "\<exists>h' v. get_next h = Inr (h', i, v, True, True, Some e) \<and> (hinv h' \<and> extends (fst h') F) \<and> pending h' = ps"
    if "pending h = (i, Inl e) # ps" for i e ps
    using next_bad [OF _ that] h n by blast
next
  fix h rq
  assume "parked h \<and> extends (fst h) F"
  then show "\<exists>h'. ho_Seek ops rq h = (h', None) \<and> (hinv h' \<and> extends (fst h') F) \<and> pending h' = pending h"
    using seek_parked [of h rq] seek_same [of rq h] by fastforce
next
  fix h
  assume "hinv h \<and> extends (fst h) F"
  then show "\<exists>h'. ho_SaveSeek ops h = (h', None) \<and> (parked h' \<and> extends (fst h') F) \<and> pending h' = pending h"
    using save_parks [of h] save_same [of h] by fastforce
qed (rule ops_next)

section \<open>What the consumer has received\<close>

context shared_storage
begin

text \<open>
  Between two calls: the iterator has no filter, and either it has not found its first position and nothing was
  received, or what was received and what is pending are together what the storage holds.
\<close>

definition caught :: "'c \<Rightarrow> ('c \<times> 's, 'q) stream_iterator \<Rightarrow> 'r iface list \<Rightarrow> bool" where
  "caught c it received \<longleftrightarrow>
     (let s = snd (it_handler it) in
      \<not> it_busy it \<and> it_jqFilter it = None \<and>
      (\<exists>rq. it_request it = Some rq \<and> rq_IteratorType rq = ''FIRST_MESSAGE'') \<and>
      (fresh s \<and> received = [] \<or>
       parked (c, s) \<and> (\<exists>before. contents c = before @ pending (c, s) \<and> received = good before)))"

lemma caught_grows:
  assumes "caught c it received" and "extends c d" and "sound d"
  shows "caught d it received"
proof (cases "fresh (snd (it_handler it)) \<and> received = []")
  case False
  let ?s = "snd (it_handler it)"
  from assms(1) False have p: "parked (c, ?s)" by (auto simp: caught_def Let_def)
  from grow [OF parked_hinv [OF p] assms(2,3)] parked_grow [OF p assms(2,3)] assms(1) False show ?thesis
    by (fastforce simp: caught_def Let_def)
qed (use assms(1) in \<open>simp add: caught_def Let_def\<close>)

lemma caught_received:
  assumes "caught c it received"
  shows "\<exists>rest. good (contents c) = received @ rest"
  using assms by (fastforce simp: caught_def Let_def)

lemma observe_appends:
  assumes "\<forall>k. extends (m k) F" and "sound F"
  shows "lagging.appends F (\<lambda>k. observe extends (m k))"
  unfolding lagging.appends_def
proof (intro allI impI)
  fix k h
  assume h: "hinv h \<and> extends (fst h) F"
  obtain c s where cs: "h = (c, s)" by (cases h)
  show "(hinv (observe extends (m k) h) \<and> extends (fst (observe extends (m k) h)) F) \<and>
      (\<exists>more. pending (observe extends (m k) h) = pending h @ more)"
  proof (cases "extends c (m k)")
    case True
    from grow [OF _ True extends_sound [OF spec [OF assms(1)] assms(2)]] h True assms(1) show ?thesis
      by (auto simp: cs observe_def)
  qed (use h in \<open>simp add: cs observe_def\<close>)
qed

lemma observe_logs:
  assumes "\<forall>k. extends (m k) F" and "sound F"
  shows "lagging.logs F (\<lambda>h. contents (fst h)) (\<lambda>k. observe extends (m k))"
  unfolding lagging.logs_def
proof (intro conjI allI impI)
  show "get_next h = Inr (h', x) \<Longrightarrow> contents (fst h') = contents (fst h)" for h h' x
    by (drule next_same) simp
next
  fix k h extra
  assume h: "hinv h \<and> extends (fst h) F" and e: "pending (observe extends (m k) h) = pending h @ extra"
  obtain c s where cs: "h = (c, s)" by (cases h)
  show "contents (fst (observe extends (m k) h)) = contents (fst h) @ extra"
  proof (cases "extends c (m k)")
    case True
    then obtain more where "contents (m k) = contents c @ more" "pending (m k, s) = pending (c, s) @ more"
      using grow [OF _ True extends_sound [OF spec [OF assms(1)] assms(2)], of s] h cs by auto
    with e True show ?thesis by (simp add: cs observe_def)
  qed (use e in \<open>simp add: cs observe_def\<close>)
qed

lemma contents_seeks_log: "lagging.seeks_log (\<lambda>h. contents (fst h))"
  unfolding lagging.seeks_log_def by (simp add: seek_same save_same)

text \<open>A call of an iterator that has found its position, on a storage that grows.\<close>

lemma placed_call:
  assumes "parked (c, s)" and "it_handler it = (c, s)" and "\<not> it_busy it" and "it_jqFilter it = None"
    and "it_request it = Some rq" and "rq_IteratorType rq = ''FIRST_MESSAGE''"
    and "contents c = before @ pending (c, s)" and "extends c F" and "sound F" and "\<forall>k. extends (m k) F"
    and "it_GetRecords ops run now d elapsed (\<lambda>k. observe extends (m k)) fuel n it = Some (Inr (it', p, err))"
  shows "err = None \<and> caught F it' (good before @ gr_Records p)"
proof -
  have idle: "idle (\<lambda>h. parked h \<and> extends (fst h) F) it" using assms(1-3,5,8) by (simp add: idle_def)
  from lagging.GetRecords_scans_log [OF idle observe_appends [OF assms(10,9)] assms(11)]
  obtain jt q taken extra where
    e: "(Inr (it', p, err) :: go_error + _) = Inr (jt, q, None)" and
    i: "idle (\<lambda>h. parked h \<and> extends (fst h) F) jt" "it_jqFilter jt = it_jqFilter it" "it_request jt = it_request it"
    "pending (it_handler it) @ extra = taken @ pending (it_handler jt)"
    "gr_Records q = List.map_filter (filtered run (it_jqFilter it)) (good taken)" and
    l: "\<forall>log. lagging.logs F log (\<lambda>k. observe extends (m k)) \<and> lagging.seeks_log log \<longrightarrow>
       log (it_handler jt) = log (it_handler it) @ extra"
    by (elim exE conjE) (rule that)
  have "contents (fst (it_handler jt)) = contents (fst (it_handler it)) @ extra"
    by (rule l [THEN spec, THEN mp, OF conjI [OF observe_logs [OF assms(10,9)] contents_seeks_log]])
  with e i have r: "err = None" "idle (\<lambda>h. parked h \<and> extends (fst h) F) it'" "it_jqFilter it' = it_jqFilter it"
    "it_request it' = it_request it"
    "pending (it_handler it) @ extra = taken @ pending (it_handler it')"
    "contents (fst (it_handler it')) = contents (fst (it_handler it)) @ extra"
    "gr_Records p = List.map_filter (filtered run (it_jqFilter it)) (good taken)" by simp_all
  obtain c' s' where h': "it_handler it' = (c', s')" by fastforce
  have "contents c' = (before @ taken) @ pending (c', s')" using r(5,6) assms(2,7) h' by simp
  moreover have "gr_Records p = good taken" using r(7) assms(4) keep_all by metis
  ultimately have "\<exists>b. contents c' = b @ pending (c', s') \<and> good before @ gr_Records p = good b"
    by (intro exI [of _ "before @ taken"]) simp
  then have "caught c' it' (good before @ gr_Records p)"
    using r(2-4) h' assms(4-6) by (simp add: caught_def idle_def)
  with r(1,2) h' assms(9) show ?thesis by (auto simp: idle_def intro: caught_grows)
qed

text \<open>The first call finds the first position; after that it is the call of an iterator placed there.\<close>

lemma first_call:
  assumes "it_request it = Some rq" and "\<not> it_busy it" and "it_handler it = (c, s)"
    and "ho_Seek ops (Some rq) (c, s) = ((c, s'), None)" and "ho_Seek ops (Some rq) (c, s') = ((c, s'), None)"
  shows "it_GetRecords ops run now d elapsed env fuel m it =
     it_GetRecords ops run now d elapsed env fuel m (it\<lparr>it_handler := (c, s')\<rparr>)"
  using assms by (simp add: it_GetRecords_def it_Seek_def new_response_def Let_def)

text \<open>So every call of a consumer may be taken for the call of an iterator that has found its position.\<close>

lemma caught_placed:
  assumes "caught c it received" and "sound c"
  shows "\<exists>jt s before. parked (c, s) \<and> it_handler jt = (c, s) \<and> \<not> it_busy jt \<and> it_jqFilter jt = None \<and>
    it_request jt = it_request it \<and> contents c = before @ pending (c, s) \<and> received = good before \<and>
    (\<forall>run now d elapsed env fuel m. it_GetRecords ops run now d elapsed env fuel m (attach c it) =
       it_GetRecords ops run now d elapsed env fuel m jt)"
proof -
  obtain rq where rq: "it_request it = Some rq" "rq_IteratorType rq = ''FIRST_MESSAGE''"
    using assms(1) by (auto simp: caught_def Let_def)
  have i: "\<not> it_busy it" "it_jqFilter it = None" using assms(1) by (auto simp: caught_def Let_def)
  let ?s = "snd (it_handler it)"
  show ?thesis
  proof (cases "fresh ?s \<and> received = []")
    case True
    from first_seek [OF conjunct1 [OF True] assms(2) rq(2)] obtain s' where
      s': "ho_Seek ops (Some rq) (c, ?s) = ((c, s'), None)" "ho_Seek ops (Some rq) (c, s') = ((c, s'), None)"
      "parked (c, s')" "pending (c, s') = contents c" by blast
    let ?jt = "(attach c it)\<lparr>it_handler := (c, s')\<rparr>"
    have "it_GetRecords ops run now d elapsed env fuel m (attach c it) = it_GetRecords ops run now d elapsed env fuel m ?jt"
      for run now d elapsed env fuel m
      by (rule first_call [OF _ _ _ s'(1,2)]) (simp_all add: rq i)
    with s' i True show ?thesis
      by (intro exI [of _ ?jt] exI [of _ s'] exI [of _ "[]"] conjI allI) simp_all
  next
    case False
    then obtain before where "parked (c, ?s)" "contents c = before @ pending (c, ?s)" "received = good before"
      using assms(1) by (auto simp: caught_def Let_def)
    with i show ?thesis
      by (intro exI [of _ "attach c it"] exI [of _ "?s"] exI [of _ before] conjI allI) simp_all
  qed
qed

lemma consumer_call:
  assumes "caught c it received" and "extends c F" and "sound F" and "\<forall>k. extends (m k) F"
    and "it_GetRecords ops run now d elapsed (\<lambda>k. observe extends (m k)) fuel n (attach c it) = Some (Inr (it', p, err))"
  shows "err = None \<and> caught F it' (received @ gr_Records p)"
proof -
  obtain rq where rq: "it_request it = Some rq" "rq_IteratorType rq = ''FIRST_MESSAGE''"
    using assms(1) by (auto simp: caught_def Let_def)
  from caught_placed [OF assms(1) extends_sound [OF assms(2,3)]] obtain jt s before where
    i: "parked (c, s)" "it_handler jt = (c, s)" "\<not> it_busy jt" "it_jqFilter jt = None" "it_request jt = it_request it"
    "contents c = before @ pending (c, s)" "received = good before" and
    e: "it_GetRecords ops run now d elapsed (\<lambda>k. observe extends (m k)) fuel n (attach c it) =
       it_GetRecords ops run now d elapsed (\<lambda>k. observe extends (m k)) fuel n jt" by blast
  have "it_request jt = Some rq" using i(5) rq(1) by simp
  from placed_call [OF i(1-4) this rq(2) i(6) assms(2-4) assms(5) [unfolded e]] i(7) show ?thesis by simp
qed

text \<open>A call that nothing disturbs reads the next records.\<close>

lemma quiet_consumer_call:
  assumes "caught c it received" and "sound c" and "all_good (contents c)" and "0 < m"
    and "\<forall>j \<ge> K. rq_MaxWaitTimeSeconds (the (it_request it)) \<le> elapsed j"
    and "length (contents c) + K < fuel"
  shows "\<exists>it' p. it_GetRecords ops run now d elapsed (\<lambda>k h. h) fuel m (attach c it) = Some (Inr (it', p, None)) \<and>
     received @ gr_Records p = take (length received + m) (good (contents c))"
proof -
  from caught_placed [OF assms(1,2)] obtain jt s before where
    i: "parked (c, s)" "it_handler jt = (c, s)" "\<not> it_busy jt" "it_jqFilter jt = None" "it_request jt = it_request it"
    "contents c = before @ pending (c, s)" "received = good before" and
    e: "it_GetRecords ops run now d elapsed (\<lambda>k h. h) fuel m (attach c it) =
       it_GetRecords ops run now d elapsed (\<lambda>k h. h) fuel m jt" by blast
  have "it_request it \<noteq> None" using assms(1) by (auto simp: caught_def Let_def)
  then have idle: "idle parked jt" using i by (simp add: idle_def)
  have w: "\<forall>j \<ge> K. rq_MaxWaitTimeSeconds (the (it_request jt)) \<le> elapsed j" using assms(5) i(5) by simp
  have f: "length (pending (it_handler jt)) + K < fuel" "all_good (pending (it_handler jt))"
    using assms(3,6) i(2,6) by auto
  from quiet_call [OF idle i(4) assms(4) w f] obtain it' p where
    c: "it_GetRecords ops run now d elapsed (\<lambda>k h. h) fuel m jt = Some (Inr (it', p, None))"
    "gr_Records p = take m (good (pending (c, s)))" unfolding i(2) by blast
  have "received @ gr_Records p = take (length received + m) (good (contents c))"
    unfolding c(2) i(6,7) by simp
  with c(1) show ?thesis unfolding e by blast
qed

text \<open>When the storage stands still, observing it changes nothing.\<close>

lemma get_loop_still:
  "fst (sc_handler sc) = c \<Longrightarrow>
     get_loop ops keep wait m elapsed (\<lambda>k. observe extends c) fuel k sc = get_loop ops keep wait m elapsed (\<lambda>k h. h) fuel k sc"
proof (induction fuel arbitrary: k sc)
  case (Suc fuel)
  have o: "observe extends c (sc_handler sc) = sc_handler sc" using Suc.prems by (cases "sc_handler sc") (simp add: observe_def)
  show ?case
  proof (cases "get_next (sc_handler sc)")
    case (Inr x)
    obtain h i r fnd cont err where x: "x = (h, i, r, fnd, cont, err)" by (metis surj_pair)
    have h: "fst h = c" using next_same [OF Inr [unfolded x]] Suc.prems by simp
    have "fst (sc_handler (sc\<lparr>sc_handler := h\<rparr>)) = c" "fst (sc_handler (count_error (sc\<lparr>sc_handler := h, sc_last := i\<rparr>))) = c"
      "fst (sc_handler (take_record keep r (sc\<lparr>sc_handler := h, sc_last := i\<rparr>))) = c"
      by (simp_all add: h count_error_def take_record_def Let_def split: option.splits)
    note ih = this [THEN Suc.IH]
    show ?thesis using Inr x o ih by (auto simp: ops_next Let_def split: option.splits)
  qed (use o in \<open>simp add: ops_next\<close>)
qed simp

lemma GetRecords_still:
  "it_GetRecords ops run now d elapsed (\<lambda>k. observe extends c) fuel m (attach c it) =
     it_GetRecords ops run now d elapsed (\<lambda>k h. h) fuel m (attach c it)"
proof -
  have "fst (it_handler (fst (it_Seek ops (attach c it)))) = c"
    using seek_same [of "it_request it" "(c, snd (it_handler it))"]
    by (cases "ho_Seek ops (it_request it) (c, snd (it_handler it))") (simp add: it_Seek_def)
  then show ?thesis
    by (auto simp: it_GetRecords_def Let_def get_loop_still split: prod.splits option.splits)
qed

end

section \<open>Producers, stream and consumer together\<close>

record ('x, 'w, 'it, 'h, 'q, 'r) delivery =
  dl_proc :: "('x, 'w, 'it) proc"
  dl_reader :: "('h, 'q) stream_iterator"
  dl_received :: "'r iface list"

text \<open>The storage of a running stream, as the view that a handler has of it.\<close>

definition seen :: "(msgs_info \<Rightarrow> 'w \<Rightarrow> 'c) \<Rightarrow> ('x, 'w, 'it) proc \<Rightarrow> 'c" where
  "seen view p = view (ReadableMessages (pr_info p)) (ib_writer (pr_buf p))"

text \<open>
  A consumer opens an iterator on a running stream, from the first message and without a filter; from
  then on steps of the stream and calls of the consumer alternate. During a call the stream goes on:
  \<open>ps k\<close> is its state at pass \<open>k\<close> of the loop and \<open>q\<close> its state when the call has returned. A write of the stream may
  be under way at a pass: the storage \<open>m k\<close> that the handler finds is between those of two states.
\<close>

inductive delivers ::
    "('x, 'w) write_op \<Rightarrow> ('w \<Rightarrow> 'w \<times> go_error option) \<Rightarrow> ('it \<Rightarrow> 'it \<times> go_error option) \<Rightarrow> ('x iface \<Rightarrow> u64) \<Rightarrow>
       (msgs_info \<Rightarrow> 'w \<Rightarrow> 'c) \<Rightarrow> ('c \<Rightarrow> 'c \<Rightarrow> bool) \<Rightarrow> ('s \<Rightarrow> bool) \<Rightarrow> ('c \<times> 's, 'r) handler_ops \<Rightarrow>
       'x stream_info \<Rightarrow> ('x, 'w) ingest_buffer \<Rightarrow> ('x, 'w, 'it, 'c \<times> 's, 'q, 'r) delivery \<Rightarrow> bool"
  for wr wclose itclose sz view extends unopened ops info b
where
  dl_open: "stream_run wr wclose itclose sz info b p \<Longrightarrow>
     rq_IteratorType rq = ''FIRST_MESSAGE'' \<Longrightarrow> rq_JqFilter rq = [] \<Longrightarrow> unopened s \<Longrightarrow>
     NewStreamIterator parse u itu rq (seen view p, s) = Inr it \<Longrightarrow> it_Open ops it = (it', None) \<Longrightarrow>
     delivers wr wclose itclose sz view extends unopened ops info b \<lparr>dl_proc = p, dl_reader = it', dl_received = []\<rparr>"
| dl_stream: "delivers wr wclose itclose sz view extends unopened ops info b c \<Longrightarrow>
     stream_step wr wclose itclose sz (dl_proc c) q \<Longrightarrow>
     delivers wr wclose itclose sz view extends unopened ops info b (c\<lparr>dl_proc := q\<rparr>)"
| dl_call: "delivers wr wclose itclose sz view extends unopened ops info b c \<Longrightarrow>
     (stream_step wr wclose itclose sz)\<^sup>*\<^sup>* (dl_proc c) (ps 0) \<Longrightarrow>
     (\<And>k. (stream_step wr wclose itclose sz)\<^sup>*\<^sup>* (ps k) (ps (Suc k))) \<Longrightarrow>
     (\<And>k. (stream_step wr wclose itclose sz)\<^sup>*\<^sup>* (ps k) q) \<Longrightarrow>
     (\<And>k. extends (seen view (ps k)) (m k) \<and> extends (m k) (seen view (ps (Suc k)))) \<Longrightarrow>
     it_GetRecords ops run now d elapsed (\<lambda>k. observe extends (m k)) fuel n (attach (seen view (dl_proc c)) (dl_reader c)) =
       Some (Inr (it, resp, err)) \<Longrightarrow>
     delivers wr wclose itclose sz view extends unopened ops info b
       \<lparr>dl_proc = q, dl_reader = it, dl_received = dl_received c @ gr_Records resp\<rparr>"

text \<open>The stream as it is made: its buffer is empty, and its writer holds the records \<open>base\<close>.\<close>

definition made ::
    "('w \<Rightarrow> 'x deferred list \<Rightarrow> bool) \<Rightarrow> ('x stream_info \<Rightarrow> 'w \<Rightarrow> bool) \<Rightarrow> 'x stream_info \<Rightarrow> ('x, 'w) ingest_buffer \<Rightarrow>
       'x deferred list \<Rightarrow> bool" where
  "made holds agrees info b base \<longleftrightarrow>
     holds (ib_writer b) base \<and> agrees info (ib_writer b) \<and> ib_channelMsg b = [] \<and> ib_msgBuffer b = []"

lemma new_buffer_made:
  "NewStreamIngestBuffer freq bulk cap w = Inr b \<Longrightarrow> holds w base \<Longrightarrow> agrees info w \<Longrightarrow> made holds agrees info b base"
  using NewStreamIngestBuffer_fresh [of freq bulk cap w b] by (simp add: made_def)

text \<open>
  The provider as a whole: a writer and a handler over the same storage. A write makes the storage grow, and the
  storage behind a writer that holds the records \<open>st\<close> delivers what these records are \<open>shown\<close> as. \<open>agrees\<close> is what the
  description of a stream and its storage have in common throughout a run, for a handler that looks at the description.
\<close>

locale delivery = closable_writer store holds wsize wclose +
    shared_storage get_next pending hinv ops parked contents extends sound unopened fresh
  for store :: "('x, 'w) write_op" and holds and wsize and wclose
    and get_next :: "'c \<times> 's \<Rightarrow> go_error + ('c \<times> 's) \<times> 'r next_result"
    and pending and hinv and ops and parked and contents and extends and sound and unopened and fresh +
  fixes view :: "msgs_info \<Rightarrow> 'w \<Rightarrow> 'c"
    and shown :: "'x deferred \<Rightarrow> 'r iface"
    and agrees :: "'x stream_info \<Rightarrow> 'w \<Rightarrow> bool"
  assumes store_extends: "holds w old \<Longrightarrow> agrees i w \<Longrightarrow> store (i, w) rs = ((i', w'), err) \<Longrightarrow>
         extends (view (ReadableMessages i) w) (view (ReadableMessages i') w') \<and> agrees i' w'"
    and close_extends: "holds w old \<Longrightarrow> agrees i w \<Longrightarrow> wclose w = (w', err) \<Longrightarrow>
         extends (view (ReadableMessages i) w) (view (ReadableMessages i) w') \<and> agrees i w'"
    and ingest_agrees: "agrees i w \<Longrightarrow> ReadableMessages i' = ReadableMessages i \<Longrightarrow>
         FirstMsgId (IngestedMessages i') = FirstMsgId (IngestedMessages i) \<or> FirstMsgId (IngestedMessages i') = 1 \<Longrightarrow> agrees i' w"
    and contents_shown: "holds w st \<Longrightarrow> good (contents (view g w)) = map shown st"
    and contents_good: "holds w st \<Longrightarrow> all_good (contents (view g w))"
begin

text \<open>\<open>moves s s'\<close>: from one state of the stream to the other the storage grows, and it still agrees with the description.\<close>

definition st_agrees :: "('x, 'w, 'it) stream \<Rightarrow> bool" where
  "st_agrees s \<longleftrightarrow> agrees (st_info s) (ib_writer (st_ingestBuffer s))"

definition moves :: "('x, 'w, 'it) stream \<Rightarrow> ('x, 'w, 'it) stream \<Rightarrow> bool" where
  "moves s s' \<longleftrightarrow> st_agrees s' \<and> extends (view (ReadableMessages (st_info s)) (ib_writer (st_ingestBuffer s)))
     (view (ReadableMessages (st_info s')) (ib_writer (st_ingestBuffer s')))"

lemma moves_trans: "moves s t \<Longrightarrow> moves t u \<Longrightarrow> moves s u"
  by (auto simp: moves_def intro: extends_trans)

lemma Save_moves:
  assumes "located holds base old (st_ingestBuffer s) acc clean" and "st_agrees s" and "st_Save store s = (s', err)"
  shows "moves s s'"
proof -
  have "holds (ib_writer (st_ingestBuffer s)) (base @ old)" using assms(1) by (simp add: located_def)
  note e = store_extends [OF this assms(2) [unfolded st_agrees_def]]
  from assms(3) show ?thesis
    by (auto simp: moves_def st_agrees_def st_Save_def ib_Save_def ib_Clear_def split: prod.splits option.splits dest!: e)
qed

lemma message_moves:
  assumes "located holds base old (st_ingestBuffer s) acc clean" and "st_agrees s" and "run_message store s = (s', err)"
    and "ib_channelMsg (st_ingestBuffer s) \<noteq> []"
  shows "moves s s'"
proof -
  obtain r rs where c: "ib_channelMsg (st_ingestBuffer s) = r # rs"
    using assms(4) by (cases "ib_channelMsg (st_ingestBuffer s)") auto
  let ?s = "s\<lparr>st_ingestBuffer := AppendMesssage r ((st_ingestBuffer s)\<lparr>ib_channelMsg := rs\<rparr>)\<rparr>"
  have l: "located holds base old (st_ingestBuffer ?s) acc clean" using located_receive [OF assms(1) c] by simp
  have s: "moves s ?s" "st_agrees ?s"
    using assms(2) extends_refl by (simp_all add: moves_def st_agrees_def AppendMesssage_def)
  from assms(3) c have "st_Save store ?s = (s', err) \<or> s' = ?s"
    by (auto simp: run_message_def bufferizeMessage_def Let_def split: if_splits)
  with s moves_trans [OF s(1) Save_moves [OF l s(2)]] show ?thesis by auto
qed

lemma done_moves:
  assumes "located holds base old (st_ingestBuffer s) acc clean" and "st_agrees s"
    and "run_done store wclose itclose ks s = (s', err)"
  shows "moves s s'"
proof -
  obtain s1 where s1: "st_Save store s = (s1, err)" using assms(3) by (auto simp: run_done_def split: prod.splits)
  obtain b e where b: "ib_Close wclose (st_ingestBuffer s1) = (b, e)" by fastforce
  with assms(3) s1 have s': "st_ingestBuffer s' = b" "st_info s' = st_info s1" by (auto simp: run_done_def split: prod.splits)
  note m = Save_moves [OF assms(1,2) s1]
  obtain old' where "holds (ib_writer (st_ingestBuffer s1)) (base @ old')"
    using located_st_Save [OF assms(1) s1] by (auto simp: located_def)
  from close_extends [OF this] m b have "moves s1 (s1\<lparr>st_ingestBuffer := b\<rparr>)"
    by (auto simp: moves_def st_agrees_def ib_Close_def split: prod.splits)
  with s' have "moves s1 s'" by (simp add: moves_def st_agrees_def)
  with m show ?thesis by (rule moves_trans)
qed

lemma step_moves:
  assumes "stream_step store wclose itclose sz p q" and "placed holds base p" and "st_agrees (pr_stream p)"
  shows "moves (pr_stream p) (pr_stream q)"
proof -
  obtain old where l: "located holds base old (pr_buf p) (pr_accepted p) (pr_clean p)"
    using assms(2) by (auto simp: placed_def)
  have same: "moves (pr_stream p) s" if "ReadableMessages (st_info s) = ReadableMessages (pr_info p)"
    "FirstMsgId (IngestedMessages (st_info s)) = FirstMsgId (IngestedMessages (pr_info p)) \<or> FirstMsgId (IngestedMessages (st_info s)) = 1"
    "ib_writer (st_ingestBuffer s) = ib_writer (pr_buf p)" for s
    using that assms(3) ingest_agrees [of "pr_info p" _ "st_info s"] by (simp add: moves_def st_agrees_def extends_refl)
  from assms(1) show ?thesis
  proof cases
    case (step_lock records now)
    then show ?thesis by (auto intro!: same simp: first_ingested_def)
  next
    case (step_send now m ms)
    then show ?thesis by (auto intro!: same simp: send_step_def ingest_one_def ib_PutMessage_def Let_def)
  next
    case (step_receive s err)
    with message_moves [OF l assms(3)] show ?thesis by simp
  next
    case (step_flush s err)
    with Save_moves [OF l assms(3)] show ?thesis by simp
  next
    case (step_done ks s err)
    with done_moves [OF l assms(3)] show ?thesis by simp
  qed (auto intro!: same simp: st_Start_def st_Close_def st_Close_wait_def setState_def split: if_splits)
qed

lemma step_extends:
  assumes "stream_step store wclose itclose sz p q" and "placed holds base p" and "st_agrees (pr_stream p)"
  shows "extends (seen view p) (seen view q) \<and> placed holds base q \<and> st_agrees (pr_stream q)"
  using step_moves [OF assms] placed_step [OF assms(1,2)] by (simp add: moves_def seen_def)

lemma steps_extend:
  "(stream_step store wclose itclose sz)\<^sup>*\<^sup>* p q \<Longrightarrow> placed holds base p \<Longrightarrow> st_agrees (pr_stream p) \<Longrightarrow>
     extends (seen view p) (seen view q) \<and> placed holds base q \<and> st_agrees (pr_stream q)"
proof (induction rule: rtranclp_induct)
  case (step q r)
  then have q: "extends (seen view p) (seen view q)" "placed holds base q" "st_agrees (pr_stream q)" by auto
  from step_extends [OF step(2) q(2,3)] q(1) extends_trans show ?case by blast
qed (simp add: extends_refl)

lemma run_agrees:
  assumes "stream_run store wclose itclose sz info b p" and "holds (ib_writer b) base" and "agrees info (ib_writer b)"
    and "ib_channelMsg b = []" and "ib_msgBuffer b = []"
  shows "placed holds base p \<and> st_agrees (pr_stream p)"
  using assms(1)
proof (induction rule: stream_run.induct)
  case run_new
  with assms(2-5) show ?case
    by (auto simp: placed_def located_def st_agrees_def new_proc_def NewStream_def intro!: exI [of _ "[]"])
next
  case (run_step p q)
  then show ?case using step_extends by blast
qed

abbreviation delivering where
  "delivering itclose sz \<equiv> delivers store wclose itclose sz view extends unopened ops"

text \<open>At every moment of every interleaving the consumer stands where it has received everything before.\<close>

lemma open_caught:
  assumes "NewStreamIterator parse u itu rq (c, s) = Inr it" and "it_Open ops it = (it', None)" and "unopened s"
    and "rq_IteratorType rq = ''FIRST_MESSAGE''" and "rq_JqFilter rq = []"
  shows "caught c it' []"
proof -
  obtain c' s' e where o: "ho_Open ops (c, s) = ((c', s'), e)" by (metis surj_pair)
  with assms(1,2,5) have "it_handler it' = (c', s')" "e = None" "\<not> it_busy it'" "it_jqFilter it' = None"
    "it_request it' = Some rq"
    by (auto simp: NewStreamIterator_def it_Open_def)
  with open_fresh [OF assms(3), of c c' s'] o assms(4) show ?thesis by (simp add: caught_def)
qed

lemma delivers_caught:
  assumes "delivering itclose sz info b c" and "made holds agrees info b base"
  shows "stream_run store wclose itclose sz info b (dl_proc c) \<and> placed holds base (dl_proc c) \<and>
     st_agrees (pr_stream (dl_proc c)) \<and>
     (sound (seen view (dl_proc c)) \<longrightarrow> caught (seen view (dl_proc c)) (dl_reader c) (dl_received c))"
  using assms(1)
proof (induction rule: delivers.induct)
  case (dl_open p rq s parse u itu it it')
  from open_caught [OF dl_open(5,6,4,2,3)] run_agrees [OF dl_open(1), of base] assms(2) dl_open(1) show ?case by (simp add: made_def)
next
  case (dl_stream c q)
  then have p: "placed holds base (dl_proc c)" "st_agrees (pr_stream (dl_proc c))" by simp_all
  note e = step_extends [OF dl_stream(2) p]
  have "caught (seen view q) (dl_reader c) (dl_received c)" if "sound (seen view q)"
    using dl_stream(3) extends_sound [OF conjunct1 [OF e] that] caught_grows [OF _ conjunct1 [OF e] that] by blast
  with dl_stream(3) e run_step [OF _ dl_stream(2)] show ?case by simp
next
  case (dl_call c ps q m run now d elapsed fuel n it resp err)
  from dl_call(7) have ih: "stream_run store wclose itclose sz info b (dl_proc c)" "placed holds base (dl_proc c)"
    "st_agrees (pr_stream (dl_proc c))"
    "sound (seen view (dl_proc c)) \<Longrightarrow> caught (seen view (dl_proc c)) (dl_reader c) (dl_received c)" by auto
  have steps: "(stream_step store wclose itclose sz)\<^sup>*\<^sup>* (dl_proc c) q" using dl_call(2,4) by (meson rtranclp_trans)
  note q = steps_extend [OF steps ih(2,3)]
  have pk: "placed holds base (ps k) \<and> st_agrees (pr_stream (ps k))" for k
  proof (induction k)
    case 0
    from steps_extend [OF dl_call(2) ih(2,3)] show ?case by simp
  next
    case (Suc k)
    then show ?case using steps_extend [OF dl_call(3)] by blast
  qed
  have m: "\<forall>k. extends (m k) (seen view q)"
    using dl_call(5) steps_extend [OF dl_call(4)] pk extends_trans by blast
  have "caught (seen view q) it (dl_received c @ gr_Records resp)" if "sound (seen view q)"
    using consumer_call [OF ih(4) [OF extends_sound [OF conjunct1 [OF q] that]] conjunct1 [OF q] that m dl_call(6)] ..
  with run_steps [OF steps ih(1)] q show ?case by simp
qed

text \<open>What the consumer has received is always a prefix of what is stored.\<close>

lemma received_prefix:
  assumes "delivering itclose sz info b c" and "made holds agrees info b base" and "sound (seen view (dl_proc c))"
  shows "\<exists>st n. holds (ib_writer (pr_buf (dl_proc c))) st \<and> dl_received c = map shown (take n st) \<and>
     (pr_clean (dl_proc c) \<longrightarrow> dl_received c = map shown (take n (base @ pr_accepted (dl_proc c))))"
proof -
  let ?p = "dl_proc c"
  note d = delivers_caught [OF assms(1,2)]
  then obtain old where l: "located holds base old (pr_buf ?p) (pr_accepted ?p) (pr_clean ?p)" by (auto simp: placed_def)
  then have h: "holds (ib_writer (pr_buf ?p)) (base @ old)" by (simp add: located_def)
  from d assms(3) caught_received obtain rest where "good (contents (seen view ?p)) = dl_received c @ rest" by blast
  then have r: "map shown (base @ old) = dl_received c @ rest" using contents_shown [OF h] by (simp add: seen_def)
  let ?n = "length (dl_received c)"
  have "?n \<le> length (base @ old)" using arg_cong [OF r, of length] by simp
  then have "pr_clean ?p \<longrightarrow> take ?n (base @ pr_accepted ?p) = take ?n (base @ old)"
    using l by (auto simp: located_def)
  moreover have "dl_received c = map shown (take ?n (base @ old))" using arg_cong [OF r, of "take ?n"] by (simp add: take_map)
  ultimately show ?thesis using h by (intro exI [of _ "base @ old"] exI [of _ ?n]) simp
qed

text \<open>One undisturbed call gives the consumer all the rest.\<close>

lemma received_all:
  assumes "delivering itclose sz info b c" and "made holds agrees info b base" and "sound (seen view (dl_proc c))" and "pr_clean (dl_proc c)" and "ib_msgBuffer (pr_buf (dl_proc c)) = []"
    and "ib_channelMsg (pr_buf (dl_proc c)) = []" and "0 < m"
    and "length (base @ pr_accepted (dl_proc c)) \<le> length (dl_received c) + m"
    and "\<forall>j \<ge> K. rq_MaxWaitTimeSeconds (the (it_request (dl_reader c))) \<le> elapsed j"
    and "length (base @ pr_accepted (dl_proc c)) + K < fuel"
  shows "\<exists>it p. it_GetRecords ops run now d elapsed (\<lambda>k h. h) fuel m
       (attach (seen view (dl_proc c)) (dl_reader c)) = Some (Inr (it, p, None)) \<and>
     dl_received c @ gr_Records p = map shown (base @ pr_accepted (dl_proc c))"
proof -
  let ?p = "dl_proc c"
  note d = delivers_caught [OF assms(1,2)]
  then obtain old where l: "located holds base old (pr_buf ?p) (pr_accepted ?p) (pr_clean ?p)" by (auto simp: placed_def)
  then have h: "holds (ib_writer (pr_buf ?p)) (base @ pr_accepted ?p)" using assms(4-6) by (simp add: located_def)
  note cs = contents_shown [OF h, of "ReadableMessages (pr_info ?p)", folded seen_def]
  note ag = contents_good [OF h, of "ReadableMessages (pr_info ?p)", folded seen_def]
  have "length (contents (seen view ?p)) + K < fuel"
    using assms(10) all_good_length [OF ag] arg_cong [OF cs, of length] by simp
  from quiet_consumer_call [OF _ assms(3) ag assms(7,9) this] d assms(3)
  obtain it p where "it_GetRecords ops run now d elapsed (\<lambda>k h. h) fuel m
       (attach (seen view ?p) (dl_reader c)) = Some (Inr (it, p, None))"
    "dl_received c @ gr_Records p = take (length (dl_received c) + m) (map shown (base @ pr_accepted ?p))"
    unfolding cs by blast
  with assms(8) show ?thesis by (intro exI [of _ it] exI [of _ p]) simp
qed

end

end
