(* ===== verification/Delivery.thy ===== *)
theory Delivery
  imports Consumer
begin

text \<open>
  Consumer for a stream in memory: the writer and the handlers hold pointers to the same \<^verbatim>\<open>InMemoryStream\<close>
  (storageprovider/inmemoryprovider), so a handler sees every record as soon as it is stored.
\<close>

section \<open>The storage as the handler sees it\<close>

text \<open>\<open>grown s m\<close>: the storage \<open>m\<close> is \<open>s\<close> with records appended.\<close>

definition grown :: "'x in_memory_stream \<Rightarrow> 'x in_memory_stream \<Rightarrow> bool" where
  "grown s m \<longleftrightarrow> m = s\<lparr>ims_records := ims_records s @ drop (length (ims_records s)) (ims_records m)\<rparr>"

lemma grownI: "grown s (s\<lparr>ims_records := ims_records s @ rs\<rparr>)"
  by (simp add: grown_def)

lemma grownE:
  assumes "grown s m"
  obtains rs where "m = s\<lparr>ims_records := ims_records s @ rs\<rparr>"
  using assms unfolding grown_def by blast

lemma grown_refl [simp]: "grown s s"
  by (simp add: grown_def)

lemma grown_trans: "grown a b \<Longrightarrow> grown b c \<Longrightarrow> grown a c"
  by (elim grownE) (simp add: grownI)

lemma grown_slice: "grown s m \<Longrightarrow> slice_ok (ims_records m) \<Longrightarrow> slice_ok (ims_records s)"
  by (elim grownE) (simp add: slice_ok_def)

text \<open>What the storage holds, as a handler at rank 0 would deliver it.\<close>

definition im_contents :: "'x in_memory_stream \<Rightarrow> (u64 \<times> (go_error + 'x in_memory_record iface)) list" where
  "im_contents s = map (\<lambda>k. (of_nat k, Inr (IOther (ims_records s ! k)))) [0..<length (ims_records s)]"

definition im_fresh :: "im_handler \<Rightarrow> bool" where
  "im_fresh h \<longleftrightarrow> \<not> imh_initialized h \<and> imh_nextReadRecordIndex h = 0"

text \<open>A stored record as the consumer gets it.\<close>

definition shown :: "'x deferred \<Rightarrow> 'x in_memory_record iface" where
  "shown r = IOther \<lparr>im_Id = dr_Id r, im_CreationDate = dr_CreationDate r, im_Msg = dr_Msg r\<rparr>"

lemma shown_stored: "map shown (im_stored s) = map IOther (ims_records s)"
  by (simp add: im_stored_def shown_def comp_def)

lemma good_ranks: "good (map (\<lambda>k. (f k, Inr (g k))) ks) = map g ks"
  by (induction ks) simp_all

lemma im_contents_shown: "good (im_contents s) = map shown (im_stored s)" "all_good (im_contents s)"
proof -
  have "good (im_contents s) = map (\<lambda>k. IOther (ims_records s ! k)) [0..<length (ims_records s)]"
    unfolding im_contents_def by (rule good_ranks)
  also have "\<dots> = map shown (im_stored s)" unfolding shown_stored by (rule nth_equalityI) simp_all
  finally show "good (im_contents s) = map shown (im_stored s)" .
  show "all_good (im_contents s)" by (auto simp: all_good_def im_contents_def)
qed

lemma im_next_storage: "im_GetNextRecord sh = Inr (sh', x) \<Longrightarrow> fst sh' = fst sh"
  by (auto simp: im_GetNextRecord_def Let_def split: prod.splits sum.splits if_splits)

lemma im_grow:
  assumes "im_parked (c, h)" and "grown c d" and "slice_ok (ims_records d)"
  shows "im_parked (d, h) \<and> (\<exists>more. im_contents d = im_contents c @ more \<and> im_pending (d, h) = im_pending (c, h) @ more)"
proof -
  from assms(2) obtain rs where d: "d = c\<lparr>ims_records := ims_records c @ rs\<rparr>" by (rule grownE)
  let ?j = "unat (imh_nextReadRecordIndex h)" and ?n = "length (ims_records c)" and ?e = "length (ims_records c) + length rs"
  have j: "?j \<le> ?n" using assms(1) by (simp add: im_parked_def)
  let ?f = "\<lambda>k. (of_nat k, Inr (IOther ((ims_records c @ rs) ! k)))"
  have "im_contents d = im_contents c @ map ?f [?n..<?e]"
    using upt_add_eq_append [of 0 ?n "length rs"] by (simp add: im_contents_def d nth_append)
  moreover have "im_pending (d, h) = im_pending (c, h) @ map ?f [?n..<?e]"
    using upt_add_eq_append [OF j, of "length rs"] by (simp add: im_pending_def d nth_append)
  moreover have "im_parked (d, h)" using assms(1,3) by (simp add: im_parked_def d)
  ultimately show ?thesis by blast
qed

section \<open>A write appends\<close>

lemma im_write_grows: "im_write_records sz (i, s) rs = ((i', s'), err) \<Longrightarrow> grown s s'"
proof (induction rs arbitrary: i s)
  case (Cons r rs)
  show ?case
  proof (cases "AddRecord s r")
    case (Inr s1)
    then have "grown s s1" by (auto simp: AddRecord_def grownI split: if_splits)
    with Cons Inr show ?thesis by (auto intro: grown_trans)
  qed (use Cons.prems in simp)
qed simp

lemma InMemory_Write_grows: "InMemory_Write sz (i, s) rs = ((i', s'), err) \<Longrightarrow> grown s s'"
  by (auto simp: InMemory_Write_def split: if_splits dest: im_write_grows)

lemma InMemory_Close_same: "InMemory_Close s = (s', err) \<Longrightarrow> s' = s"
  by (simp add: InMemory_Close_def)

interpretation im_delivery: delivery "InMemory_Write sz" im_holds "\<lambda>r. sz (dr_Msg r)" InMemory_Close
    im_GetNextRecord im_pending im_parked im_ops im_parked im_contents grown "\<lambda>s. slice_ok (ims_records s)" im_fresh im_fresh
    "\<lambda>g s. s" shown "\<lambda>i s. True"
  for sz :: "'x iface \<Rightarrow> u64"
proof unfold_locales
  show "grown c d \<Longrightarrow> grown d e \<Longrightarrow> grown c e" for c d e :: "'x in_memory_stream" by (rule grown_trans)
  show "grown c d \<Longrightarrow> slice_ok (ims_records d) \<Longrightarrow> slice_ok (ims_records c)" for c d :: "'x in_memory_stream"
    by (rule grown_slice)
  show "im_GetNextRecord h = Inr (h', x) \<Longrightarrow> fst h' = fst h" for h h' x by (rule im_next_storage)
  show "fst (fst (ho_Seek im_ops rq h)) = fst h" for rq h by (cases h) (simp add: im_ops_def)
  show "fst (fst (ho_SaveSeek im_ops h)) = fst h" for h by (cases h) (simp add: im_ops_def)
  show "im_parked (c, s) \<Longrightarrow> grown c d \<Longrightarrow> slice_ok (ims_records d) \<Longrightarrow> im_parked (d, s) \<and>
      (\<exists>more. im_contents d = im_contents c @ more \<and> im_pending (d, s) = im_pending (c, s) @ more)" for c d s
    by (rule im_grow)
  then show "im_parked (c, s) \<Longrightarrow> grown c d \<Longrightarrow> slice_ok (ims_records d) \<Longrightarrow> im_parked (d, s)" for c d s by blast
  show "im_fresh s \<Longrightarrow> ho_Open im_ops (c, s) = ((c', s'), None) \<Longrightarrow> im_fresh s'" for c c' s s'
    by (auto simp: im_ops_def im_Open_def im_fresh_def)
  show "\<exists>s'. ho_Seek im_ops (Some rq) (c, s) = ((c, s'), None) \<and> ho_Seek im_ops (Some rq) (c, s') = ((c, s'), None) \<and>
      im_parked (c, s') \<and> im_pending (c, s') = im_contents c"
    if "im_fresh s" "slice_ok (ims_records c)" "rq_IteratorType rq = ''FIRST_MESSAGE''" for s c rq
    using that by (auto simp: im_ops_def im_Seek_def im_target_def im_fresh_def im_parked_def im_pending_def im_contents_def)
  show "InMemory_Write sz (i, w) rs = ((i', w'), err) \<Longrightarrow> grown w w' \<and> True" for i i' w w' rs err
    by (simp add: InMemory_Write_grows)
  show "InMemory_Close w = (w', err) \<Longrightarrow> grown w w' \<and> True" for w w' :: "'x in_memory_stream" and err
    by (drule InMemory_Close_same) simp
  show "im_holds w st \<Longrightarrow> good (im_contents w) = map shown st" for w st
    by (simp add: im_holds_def im_contents_shown)
qed (simp_all add: im_contents_shown)

section \<open>Properties\<close>

abbreviation storage :: "('x, 'x in_memory_stream, 'it) proc \<Rightarrow> 'x in_memory_stream" where
  "storage p \<equiv> ib_writer (pr_buf p)"

abbreviation im_step where
  "im_step sz itclose \<equiv> stream_step (InMemory_Write sz) InMemory_Close itclose sz"

abbreviation im_delivers where
  "im_delivers sz itclose \<equiv> delivers (InMemory_Write sz) InMemory_Close itclose sz (\<lambda>g s. s) grown im_fresh im_ops"

lemma im_made:
  "NewStreamIngestBuffer freq bulk cap w = Inr b \<Longrightarrow> made im_holds (\<lambda>i s. True) info b (im_stored w)"
  by (rule new_buffer_made) (simp_all add: im_holds_def)

text \<open>
  C1: from the producers to a consumer. However the calls of the producers, the loop of the stream, its flush
  timer and the calls of a consumer interleave, also while a call of the consumer waits for records and while a
  write is under way, what the consumer has received is at every moment a prefix of what is stored, each record once
  and in order; while no save has failed it is a prefix of what the stream held at first followed by the accepted
  messages, under the ids the producers were given.
\<close>

theorem consumer_receives_in_order:
  assumes "im_delivers sz itclose info b c" and "NewStreamIngestBuffer freq bulk cap w = Inr b"
    and "slice_ok (ims_records (storage (dl_proc c)))"
  shows "\<exists>n. dl_received c = map shown (take n (im_stored (storage (dl_proc c)))) \<and>
     (pr_clean (dl_proc c) \<longrightarrow> dl_received c = map shown (take n (im_stored w @ pr_accepted (dl_proc c))))"
proof -
  have "slice_ok (ims_records (seen (\<lambda>g s. s) (dl_proc c)))" using assms(3) by (simp add: seen_def)
  from im_delivery.received_prefix [OF assms(1) im_made [OF assms(2)] this] obtain st n where
    "im_holds (storage (dl_proc c)) st" "dl_received c = map shown (take n st)"
    "pr_clean (dl_proc c) \<longrightarrow> dl_received c = map shown (take n (im_stored w @ pr_accepted (dl_proc c)))" by blast
  then show ?thesis by (intro exI [of _ n]) (simp add: im_holds_def)
qed

text \<open>
  C3: a consumer catches up. Once buffer and channel of the stream are empty and no save has failed, one call
  that asks for enough records and is not disturbed returns, and with it the consumer has received what the stream
  held at first and every message it ever accepted, each once and in the order of acceptance.
\<close>

theorem consumer_catches_up:
  assumes "im_delivers sz itclose info b c" and "NewStreamIngestBuffer freq bulk cap w = Inr b"
    and "slice_ok (ims_records (storage (dl_proc c)))"
    and "pr_clean (dl_proc c)" and "ib_msgBuffer (pr_buf (dl_proc c)) = []" and "ib_channelMsg (pr_buf (dl_proc c)) = []"
    and "0 < m" and "length (im_stored w @ pr_accepted (dl_proc c)) \<le> length (dl_received c) + m"
    and "\<forall>j \<ge> K. rq_MaxWaitTimeSeconds (the (it_request (dl_reader c))) \<le> elapsed j"
    and "length (im_stored w @ pr_accepted (dl_proc c)) + K < fuel"
  shows "\<exists>it p. it_GetRecords im_ops run now d elapsed (\<lambda>k h. h) fuel m
       (attach (storage (dl_proc c)) (dl_reader c)) = Some (Inr (it, p, None)) \<and>
     dl_received c @ gr_Records p = map shown (im_stored w @ pr_accepted (dl_proc c))"
proof -
  have "slice_ok (ims_records (seen (\<lambda>g s. s) (dl_proc c)))" using assms(3) by (simp add: seen_def)
  from im_delivery.received_all [OF assms(1) im_made [OF assms(2)] this assms(4-10)] show ?thesis by (simp add: seen_def)
qed

section \<open>A concrete delivery\<close>

definition sample_consumer :: "unit in_memory_stream \<Rightarrow> (unit in_memory_stream \<times> im_handler, string) stream_iterator" where
  "sample_consumer m = \<lparr>it_streamUUID = 7, it_itUUID = 8, it_request = Some (sample_request ''FIRST_MESSAGE'' 0),
     it_jqFilter = None, it_LastRecordIdRead = 0, it_Stats = no_stats_yet,
     it_handler = (m, NewStreamIteratorHandlerInMemory 7 8), it_busy = False\<rparr>"

lemma sample_consumer_opens:
  "NewStreamIterator (\<lambda>s. Inr s) 7 8 (sample_request ''FIRST_MESSAGE'' 0) (m, NewStreamIteratorHandlerInMemory 7 8) =
     Inr (sample_consumer m)" "it_Open im_ops (sample_consumer m) = (sample_consumer m, None)"
  by (simp_all add: NewStreamIterator_def sample_consumer_def sample_request_def it_Open_def im_ops_def im_Open_def
      NewStreamIteratorHandlerInMemory_def)

text \<open>Two messages were accepted and the loop has written both.\<close>

lemma sample_written_run:
  "\<exists>p. stream_run (InMemory_Write (\<lambda>_. 1)) InMemory_Close (\<lambda>it::nat. (it, None)) (\<lambda>_. 1) (NewStreamInfo 0 7) sample_buf p \<and>
     length (pr_accepted p) = 2 \<and> pr_clean p \<and> ib_msgBuffer (pr_buf p) = [] \<and> ib_channelMsg (pr_buf p) = []"
proof -
  let ?wr = "InMemory_Write (\<lambda>_. 1)" and ?cl = "\<lambda>it::nat. (it, None :: go_error option)"
  obtain new where new: "(im_step (\<lambda>_. 1) ?cl)\<^sup>*\<^sup>* sample_started
       (sample_started\<lparr>pr_stream := sample_put, pr_accepted := pr_accepted sample_started @ new\<rparr>)" "map dr_Id new = [1, 2]"
    using PutMessages_reach [OF sample_PutMessages sample_start_ok, of ?wr InMemory_Close ?cl] by (elim exE conjE)
  let ?p = "sample_started\<lparr>pr_stream := sample_put, pr_accepted := pr_accepted sample_started @ new\<rparr>"
  have n: "length (pr_accepted ?p) = 2" using arg_cong [OF new(2), of length] by (simp add: sample_started_def new_proc_def)
  obtain s1 where m1: "run_message ?wr sample_put = (s1, None)" "length (ib_channelMsg (st_ingestBuffer s1)) = 1"
    "ib_msgBuffer (st_ingestBuffer s1) = []" "ib_bulkFlushFrequency (st_ingestBuffer s1) = 0"
    "ims_maxRecordsByStream (ib_writer (st_ingestBuffer s1)) = 0"
    by (simp add: sample_put_def sample_run_defs run_message_def bufferizeMessage_def st_Save_def ib_Save_def ib_Clear_def
        InMemory_Write_def AddRecord_def NewInMemoryStream_def AppendMesssage_def IsFull_def deferred_mode_def)
  obtain s2 where m2: "run_message ?wr s1 = (s2, None)" "ib_channelMsg (st_ingestBuffer s2) = []"
    "ib_msgBuffer (st_ingestBuffer s2) = []"
    using m1(2-5) by (cases "ib_channelMsg (st_ingestBuffer s1)")
      (auto simp: run_message_def bufferizeMessage_def st_Save_def ib_Save_def ib_Clear_def
        InMemory_Write_def AddRecord_def AppendMesssage_def IsFull_def deferred_mode_def Let_def
        split: prod.splits)
  have c0: "pr_loop ?p" "ib_channelMsg (pr_buf ?p) \<noteq> []" "pr_clean ?p"
    by (simp_all add: sample_put_def sample_run_defs)
  have m0: "run_message ?wr (pr_stream ?p) = (s1, None)" using m1(1) by simp
  note r1 = run_step [OF run_steps [OF new(1) sample_start_run] step_receive [OF c0(1,2) m0]]
  let ?q = "?p\<lparr>pr_stream := s1, pr_timer := pr_timer ?p \<or> deferred_mode (pr_stream ?p), pr_clean := (pr_clean ?p \<and> None = (None :: go_error option))\<rparr>"
  have c1: "pr_loop ?q" "ib_channelMsg (pr_buf ?q) \<noteq> []" using c0(1) m1(2) by auto
  have "run_message ?wr (pr_stream ?q) = (s2, None)" using m2(1) by simp
  from run_step [OF r1 step_receive [OF c1 this]] n c0 m2 show ?thesis by (intro exI conjI) (assumption, simp_all)
qed

abbreviation sample_delivers where
  "sample_delivers \<equiv> im_delivers (\<lambda>_. 1) (\<lambda>it::nat. (it, None)) (NewStreamInfo 0 7) sample_buf"

lemma sample_buf_new:
  "NewStreamIngestBuffer 0 3 2 (NewInMemoryStream 7 0 0) = Inr sample_buf" "im_stored (NewInMemoryStream 7 0 0 :: unit in_memory_stream) = []"
  by (simp_all add: NewStreamIngestBuffer_def sample_buf_def NewInMemoryStream_def im_stored_def)

lemma sample_delivery:
  "\<exists>p. sample_delivers \<lparr>dl_proc = p, dl_reader = sample_consumer (storage p), dl_received = []\<rparr> \<and>
     length (pr_accepted p) = 2 \<and> pr_clean p \<and> ib_msgBuffer (pr_buf p) = [] \<and> ib_channelMsg (pr_buf p) = [] \<and>
     slice_ok (ims_records (storage p))"
proof -
  obtain p :: "(unit, unit in_memory_stream, nat) proc" where
    p: "stream_run (InMemory_Write (\<lambda>_. 1)) InMemory_Close (\<lambda>it. (it, None)) (\<lambda>_. 1) (NewStreamInfo 0 7) sample_buf p"
    "length (pr_accepted p) = 2" "pr_clean p" "ib_msgBuffer (pr_buf p) = []" "ib_channelMsg (pr_buf p) = []"
    using sample_written_run by blast
  note b = im_made [OF sample_buf_new(1), unfolded sample_buf_new(2), unfolded made_def]
  from im_closable.run_invariants [OF p(1) conjunct1 [OF b]] b p(2-5)
  have "length (im_stored (storage p)) = 2" by (auto simp: placed_def located_def im_holds_def)
  then have "slice_ok (ims_records (storage p))" by (simp add: slice_ok_def)
  moreover have "im_fresh (NewStreamIteratorHandlerInMemory 7 8)"
    by (simp add: im_fresh_def NewStreamIteratorHandlerInMemory_def)
  moreover have "sample_delivers \<lparr>dl_proc = p, dl_reader = sample_consumer (storage p), dl_received = []\<rparr>"
  proof (rule dl_open [OF p(1)])
    show "NewStreamIterator Inr 7 8 (sample_request ''FIRST_MESSAGE'' 0) (seen (\<lambda>g s. s) p, NewStreamIteratorHandlerInMemory 7 8) =
        Inr (sample_consumer (storage p))" by (simp only: seen_def sample_consumer_opens)
  qed (use calculation(2) sample_consumer_opens(2) in \<open>simp_all add: sample_request_def\<close>)
  ultimately show ?thesis using p(2-5) by blast
qed

lemma consumer_catches_up_witness:
  "\<exists>(p :: (unit, unit in_memory_stream, nat) proc) it resp.
     sample_delivers \<lparr>dl_proc = p, dl_reader = sample_consumer (storage p), dl_received = []\<rparr> \<and>
     it_GetRecords im_ops (\<lambda>_ _. []) 0 0 int (\<lambda>k h. h) 99 5 (attach (storage p) (sample_consumer (storage p))) =
       Some (Inr (it, resp, None)) \<and>
     length (gr_Records resp) = 2 \<and> gr_Records resp = map shown (pr_accepted p)"
proof -
  obtain p :: "(unit, unit in_memory_stream, nat) proc" where
    p: "sample_delivers \<lparr>dl_proc = p, dl_reader = sample_consumer (storage p), dl_received = []\<rparr>"
    "length (pr_accepted p) = 2" "pr_clean p" "ib_msgBuffer (pr_buf p) = []" "ib_channelMsg (pr_buf p) = []"
    "slice_ok (ims_records (storage p))" using sample_delivery by blast
  obtain it resp where r: "it_GetRecords im_ops (\<lambda>_ _. []) 0 0 int (\<lambda>k h. h) 99 5
       (attach (storage p) (sample_consumer (storage p))) = Some (Inr (it, resp, None))"
     "gr_Records resp = map shown (pr_accepted p)"
    using consumer_catches_up [OF p(1) sample_buf_new(1), where m = 5 and K = 0 and elapsed = int and fuel = 99
        and run = "\<lambda>_ _. []" and now = 0 and d = 0] p(2-6)
    unfolding sample_buf_new(2) by (auto simp: sample_consumer_def sample_request_def)
  with p(1,2) show ?thesis by (intro exI [of _ p] exI [of _ it] exI [of _ resp]) simp
qed

lemma sample_call:
  "\<exists>(p :: (unit, unit in_memory_stream, nat) proc) it resp.
     sample_delivers \<lparr>dl_proc = p, dl_reader = sample_consumer (storage p), dl_received = []\<rparr> \<and>
     length (pr_accepted p) = 2 \<and> pr_clean p \<and> slice_ok (ims_records (storage p)) \<and>
     it_GetRecords im_ops (\<lambda>_ _. []) 0 0 int (\<lambda>k h. h) 99 5 (attach (storage p) (sample_consumer (storage p))) =
       Some (Inr (it, resp, None)) \<and> length (gr_Records resp) = 2"
proof -
  obtain p :: "(unit, unit in_memory_stream, nat) proc" where
    p: "sample_delivers \<lparr>dl_proc = p, dl_reader = sample_consumer (storage p), dl_received = []\<rparr>"
    "length (pr_accepted p) = 2" "pr_clean p" "ib_msgBuffer (pr_buf p) = []" "ib_channelMsg (pr_buf p) = []"
    "slice_ok (ims_records (storage p))" using sample_delivery by blast
  note b = im_made [OF sample_buf_new(1), unfolded sample_buf_new(2)]
  have "slice_ok (ims_records (seen (\<lambda>g s. s) p))" using p(6) by (simp add: seen_def)
  from im_delivery.received_all [OF p(1) b, of 5 0 int 99 "\<lambda>_ _. []" 0 0] this p(2-5)
  obtain it resp where "it_GetRecords im_ops (\<lambda>_ _. []) 0 0 int (\<lambda>k h. h) 99 5
       (attach (storage p) (sample_consumer (storage p))) = Some (Inr (it, resp, None))"
     "gr_Records resp = map shown (pr_accepted p)"
    by (auto simp: sample_consumer_def sample_request_def seen_def)
  with p show ?thesis by (intro exI [of _ p] exI [of _ it] exI [of _ resp]) simp
qed

lemma consumer_receives_in_order_witness:
  "\<exists>(c :: (unit, unit in_memory_stream, nat, unit in_memory_stream \<times> im_handler, string, unit in_memory_record) delivery) n.
     sample_delivers c \<and> length (pr_accepted (dl_proc c)) = 2 \<and> length (dl_received c) = 2 \<and>
     dl_received c = map shown (take n (pr_accepted (dl_proc c)))"
proof -
  obtain p :: "(unit, unit in_memory_stream, nat) proc" and it resp where
    p: "sample_delivers \<lparr>dl_proc = p, dl_reader = sample_consumer (storage p), dl_received = []\<rparr>"
    "length (pr_accepted p) = 2" "pr_clean p" "slice_ok (ims_records (storage p))"
    and c: "it_GetRecords im_ops (\<lambda>_ _. []) 0 0 int (\<lambda>k h. h) 99 5 (attach (storage p) (sample_consumer (storage p))) =
       Some (Inr (it, resp, None))" "length (gr_Records resp) = 2"
    using sample_call by blast
  let ?c = "\<lparr>dl_proc = p, dl_reader = it, dl_received = [] @ gr_Records resp\<rparr>"
  have d: "sample_delivers ?c"
    using dl_call [OF p(1), of "\<lambda>k. p" p "\<lambda>k. storage p" "\<lambda>_ _. []" 0 0 int 99 5 it resp None] c(1)
    by (simp add: im_delivery.GetRecords_still seen_def)
  from consumer_receives_in_order [OF d sample_buf_new(1)] p c(2) sample_buf_new(2) d show ?thesis
    by (intro exI [of _ ?c]) auto
qed

end
