(* ===== verification/FileDelivery.thy ===== *)
theory FileDelivery
  imports Consumer FileReader
begin

text \<open>
  Consumer for a stream in files (storageprovider/jsonfileprovider): the writer appends lines to the data file, the
  handler of an iterator reads the same file through a handle and a buffer of its own.
\<close>

section \<open>The data file as the handler sees it\<close>

text \<open>\<open>whole s\<close>: the text consists of complete lines; \<open>lines_behind c d\<close>: the file \<open>d\<close> is \<open>c\<close> with lines appended.\<close>

definition whole :: "string \<Rightarrow> bool" where
  "whole s \<longleftrightarrow> concat (full_lines s) = s"

definition lines_behind :: "string \<Rightarrow> string \<Rightarrow> bool" where
  "lines_behind c d \<longleftrightarrow> d = c \<or> whole c \<and> take (length c) d = c \<and> whole (drop (length c) d)"

lemma whole_lines: "list_all is_line ls \<Longrightarrow> whole (concat ls)"
  by (simp add: whole_def full_lines_lines)

lemma whole_append: "whole c \<Longrightarrow> whole d \<Longrightarrow> full_lines (c @ d) = full_lines c @ full_lines d"
  using full_lines_concat [OF full_lines_is_line, of c d] by (simp add: whole_def)

lemma whole_appendI: "whole c \<Longrightarrow> whole d \<Longrightarrow> whole (c @ d)"
  by (simp add: whole_def whole_append)

lemma lines_behindI: "whole c \<Longrightarrow> whole x \<Longrightarrow> lines_behind c (c @ x)"
  by (simp add: lines_behind_def)

lemma lines_behind_whole: "lines_behind c d \<Longrightarrow> whole d \<Longrightarrow> whole c"
  by (auto simp: lines_behind_def)

lemma lines_behindE:
  assumes "lines_behind c d" and "whole c"
  obtains x where "d = c @ x" "whole x"
proof (cases "d = c")
  case True
  then show ?thesis by (intro that [of "[]"]) (simp_all add: whole_def full_lines_None)
next
  case False
  with assms(1) have "take (length c) d = c" "whole (drop (length c) d)" by (auto simp: lines_behind_def)
  with append_take_drop_id [of "length c" d] show ?thesis by (intro that [of "drop (length c) d"]) simp_all
qed

lemma lines_behind_trans:
  assumes "lines_behind c d" and "lines_behind d e"
  shows "lines_behind c e"
proof (cases "whole c")
  case True
  from assms(1) True obtain x where x: "d = c @ x" "whole x" by (rule lines_behindE)
  with True have "whole d" by (simp add: whole_appendI)
  with assms(2) obtain y where y: "e = d @ y" "whole y" by (rule lines_behindE)
  have "lines_behind c (c @ (x @ y))" using True x(2) y(2) by (intro lines_behindI whole_appendI)
  then show ?thesis using x y by simp
qed (use assms in \<open>auto simp: lines_behind_def\<close>)

definition file_contents :: "(string \<Rightarrow> go_error + 'r iface) \<Rightarrow> string \<Rightarrow> (u64 \<times> (go_error + 'r iface)) list" where
  "file_contents um c = number_lines um 0 (full_lines c)"

text \<open>A handler that has been sent to the first message, or read on from there: its ids count the lines of the file.\<close>

definition fh_counting :: "string \<times> file_handler \<Rightarrow> bool" where
  "fh_counting ch \<longleftrightarrow> fh_ok ch \<and> whole (fst ch) \<and>
     fh_nextRecordIdRead (snd ch) + of_nat (length (full_lines (unread ch))) = of_nat (length (full_lines (fst ch)))"

definition fh_standing :: "string \<times> file_handler \<Rightarrow> bool" where
  "fh_standing ch \<longleftrightarrow> fh_counting ch \<and> fh_FileOffset (snd ch) = int (fh_pos (snd ch))"

definition fh_unopened :: "file_handler \<Rightarrow> bool" where
  "fh_unopened h \<longleftrightarrow> \<not> fh_initialized h"

definition fh_fresh :: "file_handler \<Rightarrow> bool" where
  "fh_fresh h \<longleftrightarrow> \<not> fh_initialized h \<and> fh_open h"

lemma fh_next_counts:
  assumes "fh_GetNextRecord um K fault ch = Inr (ch', i, v, found, go_on, err)"
  shows "fst ch' = fst ch \<and>
     fh_nextRecordIdRead (snd ch') = fh_nextRecordIdRead (snd ch) + (if found \<and> go_on then 1 else 0)"
  using assms
  by (auto simp: fh_GetNextRecord_def fh_SaveSeek_def Let_def split: prod.splits option.splits line_read.splits sum.splits if_splits)

lemma pending_lines: "length (fh_pending um ch) = length (full_lines (unread ch))"
proof -
  have "length (number_lines um i ls) = length ls" for i :: u64 and ls by (induction ls arbitrary: i) simp_all
  then show ?thesis by (simp add: fh_pending_def)
qed

lemma counting_next:
  assumes "fh_counting ch" and "fh_GetNextRecord um K fault ch = Inr (ch', i, v, found, go_on, err)" and "fh_ok ch'"
    and "length (fh_pending um ch) = length (fh_pending um ch') + (if found \<and> go_on then 1 else 0)"
  shows "fh_counting ch'"
  using assms fh_next_counts [OF assms(2)] by (auto simp: fh_counting_def pending_lines algebra_simps split: if_splits)

interpretation fh_counted: positioned_source "fh_GetNextRecord um reader_size Map.empty" "fh_pending um" fh_counting
    "fh_ops um index" fh_standing
  for um :: "string \<Rightarrow> go_error + 'r iface" and index
proof unfold_locales
  have K: "0 < reader_size" by (simp add: reader_size_def)
  fix ch :: "string \<times> file_handler"
  obtain c h where ch: "ch = (c, h)" by (cases ch)
  have ok: "fh_counting ch \<Longrightarrow> fh_ok ch" by (simp add: fh_counting_def)
  show "fh_counting ch \<Longrightarrow> fh_pending um ch = [] \<Longrightarrow> \<exists>h' i v c err. fh_GetNextRecord um reader_size Map.empty ch =
      Inr (h', i, v, False, c, err) \<and> fh_counting h' \<and> fh_pending um h' = []"
    using fh_source.next_end [OF ok, of um] counting_next [of ch um reader_size Map.empty] by fastforce
  show "\<exists>h' c. fh_GetNextRecord um reader_size Map.empty ch = Inr (h', i, r, True, c, None) \<and> fh_counting h' \<and>
      fh_pending um h' = ps" if "fh_counting ch" "fh_pending um ch = (i, Inr r) # ps" for i r ps
    using fh_GetNextRecord_line [OF K ok [OF that(1)] that(2)] counting_next [OF that(1), of um reader_size Map.empty] that(2)
    by fastforce
  show "\<exists>h' v. fh_GetNextRecord um reader_size Map.empty ch = Inr (h', i, v, True, True, Some e) \<and> fh_counting h' \<and>
      fh_pending um h' = ps" if "fh_counting ch" "fh_pending um ch = (i, Inl e) # ps" for i e ps
    using fh_GetNextRecord_line [OF K ok [OF that(1)] that(2)] counting_next [OF that(1), of um reader_size Map.empty] that(2)
    by fastforce
  show "\<exists>h'. ho_Seek (fh_ops um index) rq ch = (h', None) \<and> fh_counting h' \<and> fh_pending um h' = fh_pending um ch"
    if "fh_standing ch" for rq
    using that by (auto simp: ch fh_ops_def fh_Seek_def fh_standing_def fh_counting_def fh_ok_def file_seek_def)
  show "\<exists>h'. ho_SaveSeek (fh_ops um index) ch = (h', None) \<and> fh_standing h' \<and> fh_pending um h' = fh_pending um ch"
    if "fh_counting ch"
    using that by (auto simp: ch fh_ops_def fh_SaveSeek_def fh_standing_def fh_counting_def fh_ok_def fh_pending_def unread_def)
qed (simp add: fh_ops_def)

text \<open>When lines are appended to the file, they become pending and part of the contents under the same ids.\<close>

lemma fh_grow:
  assumes "fh_counting (c, h)" and "lines_behind c d"
  shows "fh_counting (d, h) \<and> (\<exists>more. file_contents um d = file_contents um c @ more \<and>
     fh_pending um (d, h) = fh_pending um (c, h) @ more)"
proof -
  from assms(1) have w: "whole c" and ok: "fh_ok (c, h)" and u: "whole (unread (c, h))"
    and n: "fh_nextRecordIdRead h + of_nat (length (full_lines (unread (c, h)))) = of_nat (length (full_lines c))"
    by (simp_all add: fh_counting_def fh_ok_def whole_def)
  from assms(2) w obtain x where x: "d = c @ x" "whole x" by (rule lines_behindE)
  have un: "unread (c @ x, h) = unread (c, h) @ x" using ok by (simp add: unread_def fh_ok_def)
  then have uw: "whole (unread (c @ x, h))" using u x(2) by (simp add: whole_appendI)
  note f = whole_append [OF w x(2)] whole_append [OF u x(2), folded un]
  have "fh_ok (d, h)" using ok uw by (simp add: x(1) fh_ok_def whole_def)
  moreover have "fh_nextRecordIdRead h + of_nat (length (full_lines (unread (d, h)))) = of_nat (length (full_lines d))"
    unfolding x(1) f using n by (simp add: algebra_simps)
  moreover have "whole d" unfolding x(1) by (rule whole_appendI [OF w x(2)])
  moreover have "file_contents um d = file_contents um c @ number_lines um (of_nat (length (full_lines c))) (full_lines x)"
    by (simp add: file_contents_def x(1) f number_lines_append)
  moreover have "fh_pending um (d, h) = fh_pending um (c, h) @ number_lines um (of_nat (length (full_lines c))) (full_lines x)"
    by (simp add: fh_pending_def x(1) f number_lines_append n)
  ultimately show ?thesis by (auto simp: fh_counting_def)
qed

section \<open>The writer appends lines\<close>

text \<open>
  The JSON library, as far as the proofs rely on it: a marshalled record contains no newline, and its line decodes to
  a value \<open>rec r\<close> of the record. A writer that holds records and such a library:
\<close>

definition json_values ::
    "('x deferred \<Rightarrow> go_error + string) \<Rightarrow> (string \<Rightarrow> go_error + 'r iface) \<Rightarrow> ('x deferred \<Rightarrow> 'r iface) \<Rightarrow> bool" where
  "json_values mj um rec \<longleftrightarrow> (\<forall>r s. mj r = Inr s \<longrightarrow> EOL \<notin> set s \<and> um (s @ [EOL]) = Inr (rec r))"

definition fv_holds ::
    "('x deferred \<Rightarrow> go_error + string) \<Rightarrow> (string \<Rightarrow> go_error + 'r iface) \<Rightarrow> ('x deferred \<Rightarrow> 'r iface) \<Rightarrow>
       file_writer \<Rightarrow> 'x deferred list \<Rightarrow> bool" where
  "fv_holds mj um rec w rs \<longleftrightarrow> json_values mj um rec \<and> fw_holds mj w rs"

definition data_text :: "file_writer \<Rightarrow> string" where
  "data_text w = (case sf_data (fw_files w) of None \<Rightarrow> [] | Some s \<Rightarrow> s)"

lemma json_value_lines:
  assumes "json_values mj um rec" and "list_all2 (json_line mj) rs ls"
  shows "list_all is_line ls" and "good (number_lines um i ls) = map rec rs" and "all_good (number_lines um i ls)"
proof -
  show "list_all is_line ls" using assms(2)
    by (induction rule: list_all2_induct) (use assms(1) in \<open>auto simp: json_values_def json_line_def is_line_def\<close>)
  show "good (number_lines um i ls) = map rec rs" using assms(2)
    by (induction arbitrary: i rule: list_all2_induct) (use assms(1) in \<open>auto simp: json_values_def json_line_def\<close>)
  show "all_good (number_lines um i ls)" using assms(2)
    by (induction arbitrary: i rule: list_all2_induct)
      (use assms(1) in \<open>auto simp: json_values_def json_line_def all_good_def\<close>)
qed

lemma fv_holds_contents:
  assumes "fv_holds mj um rec w rs"
  shows "whole (data_text w)" and "good (file_contents um (data_text w)) = map rec rs"
    and "all_good (file_contents um (data_text w))"
proof -
  from assms obtain ls where ls: "sf_data (fw_files w) = Some (concat ls)" "list_all2 (json_line mj) rs ls"
    and j: "json_values mj um rec" by (auto simp: fv_holds_def fw_holds_def)
  note v = json_value_lines [OF j ls(2)]
  have d: "data_text w = concat ls" using ls(1) by (simp add: data_text_def)
  show "whole (data_text w)" using whole_lines [OF v(1)] d by simp
  show "good (file_contents um (data_text w)) = map rec rs" "all_good (file_contents um (data_text w))"
    unfolding file_contents_def d full_lines_lines [OF v(1)] by (rule v(2), rule v(3))
qed

lemma json_lines_text: "list_all2 (json_line mj) rs ls \<Longrightarrow> ls = map (\<lambda>r. projr (mj r) @ [EOL]) rs"
  by (induction rule: list_all2_induct) (auto simp: json_line_def)

lemma fv_holds_more:
  assumes "fv_holds mj um rec w old" and "fv_holds mj um rec w' (old @ new)"
  shows "lines_behind (data_text w) (data_text w')"
proof -
  from assms obtain ls ls' where ls: "sf_data (fw_files w) = Some (concat ls)" "list_all2 (json_line mj) old ls"
    "sf_data (fw_files w') = Some (concat ls')" "list_all2 (json_line mj) (old @ new) ls'"
    and j: "json_values mj um rec" by (auto simp: fv_holds_def fw_holds_def)
  from ls(4) obtain a b where ab: "ls' = a @ b" "list_all2 (json_line mj) old a" "list_all2 (json_line mj) new b"
    by (auto simp: list_all2_append1)
  have "data_text w' = data_text w @ concat b"
    using ls(1,3) ab(1) json_lines_text [OF ls(2)] json_lines_text [OF ab(2)] by (simp add: data_text_def)
  moreover have "whole (concat b)" by (rule whole_lines [OF json_value_lines(1) [OF j ab(3)]])
  then have "lines_behind (data_text w) (data_text w @ concat b)"
    by (rule lines_behindI [OF fv_holds_contents(1) [OF assms(1)]])
  ultimately show ?thesis by (simp only:)
qed

interpretation file_delivery: delivery "fw_Write mj mji no_faults" "fv_holds mj um rec" "line_size mj" "fw_Close flt"
    "fh_GetNextRecord um reader_size Map.empty" "fh_pending um" fh_counting "fh_ops um index" fh_standing
    "file_contents um" lines_behind whole fh_unopened fh_fresh "\<lambda>g. data_text" rec "\<lambda>i w. True"
  for mj :: "'x deferred \<Rightarrow> go_error + string" and mji :: "'x stream_info \<Rightarrow> go_error + string" and flt
    and um :: "string \<Rightarrow> go_error + 'r iface" and rec and index
proof unfold_locales
  show "lines_behind c c" for c by (simp add: lines_behind_def)
  show "lines_behind c d \<Longrightarrow> lines_behind d e \<Longrightarrow> lines_behind c e" for c d e by (rule lines_behind_trans)
  show "lines_behind c d \<Longrightarrow> whole d \<Longrightarrow> whole c" for c d by (rule lines_behind_whole)
  show "fh_GetNextRecord um reader_size Map.empty h = Inr (h', x) \<Longrightarrow> fst h' = fst h" for h h' x
    using fh_next_counts [of um reader_size Map.empty h h'] by (cases x) blast
  show "fst (fst (ho_Seek (fh_ops um index) rq h)) = fst h" for rq h by (cases h) (simp add: fh_ops_def)
  show "fst (fst (ho_SaveSeek (fh_ops um index) h)) = fst h" for h by (cases h) (simp add: fh_ops_def)
  show "fh_standing h \<Longrightarrow> fh_counting h" for h by (simp add: fh_standing_def)
  show "fh_counting (c, s) \<Longrightarrow> lines_behind c d \<Longrightarrow> whole d \<Longrightarrow> fh_counting (d, s) \<and>
      (\<exists>more. file_contents um d = file_contents um c @ more \<and> fh_pending um (d, s) = fh_pending um (c, s) @ more)" for c d s
    by (rule fh_grow)
  show "fh_standing (c, s) \<Longrightarrow> lines_behind c d \<Longrightarrow> whole d \<Longrightarrow> fh_standing (d, s)" for c d s
    using fh_grow [of c s d] by (auto simp: fh_standing_def)
  show "fh_unopened s \<Longrightarrow> ho_Open (fh_ops um index) (c, s) = ((c', s'), None) \<Longrightarrow> fh_fresh s'" for c c' s s'
    by (auto simp: fh_ops_def fh_Open_def fh_unopened_def fh_fresh_def split: if_splits)
  show "\<exists>s'. ho_Seek (fh_ops um index) (Some rq) (c, s) = ((c, s'), None) \<and>
      ho_Seek (fh_ops um index) (Some rq) (c, s') = ((c, s'), None) \<and>
      fh_standing (c, s') \<and> fh_pending um (c, s') = file_contents um c"
    if "fh_fresh s" "whole c" "rq_IteratorType rq = ''FIRST_MESSAGE''" for s c rq
    using that
    by (auto simp: fh_ops_def fh_Seek_def fh_fresh_def fh_target_def GetOffsetFirstMessage_def file_seek_def fh_standing_def
        fh_counting_def fh_ok_def unread_def fh_pending_def file_contents_def whole_def)
  fix w w' :: file_writer and i i' :: "'x stream_info" and old rs err
  show "\<exists>k\<le>length rs. fv_holds mj um rec w' (old @ take k rs) \<and> (err = None \<longrightarrow> k = length rs) \<and>
      (length (old @ take k rs) < 2 ^ 64 \<longrightarrow>
        describes (line_size mj) (ReadableMessages i) old \<longrightarrow>
        describes (line_size mj) (ReadableMessages i') (old @ take k rs))"
    if "fv_holds mj um rec w old" "fw_Write mj mji no_faults (i, w) rs = ((i', w'), err)"
    using fw_writer.store_law [OF _ that(2), of old] that(1) by (simp add: fv_holds_def)
  then show "lines_behind (data_text w) (data_text w') \<and> True"
    if "fv_holds mj um rec w old" "fw_Write mj mji no_faults (i, w) rs = ((i', w'), err)"
    using fv_holds_more [OF that(1)] that by blast
  show "si_UUID i' = si_UUID i \<and> IngestedMessages i' = IngestedMessages i \<and> si_Properties i' = si_Properties i"
    if "fw_Write mj mji no_faults (i, w) rs = ((i', w'), err)" using fw_writer.store_frame [OF that] .
  show c: "fv_holds mj um rec w' rs" if "fw_Close flt w = (w', err)" "fv_holds mj um rec w rs"
    using fw_writer.close_keeps [of mj w rs flt w' err] that by (simp add: fv_holds_def)
  show "lines_behind (data_text w) (data_text w') \<and> True" if "fw_Close flt w = (w', err)" "fv_holds mj um rec w old"
    using that by (auto simp: fw_Close_def lines_behind_def data_text_def split: if_splits option.splits)
  show "fv_holds mj um rec w st \<Longrightarrow> good (file_contents um (data_text w)) = map rec st" for st
    by (rule fv_holds_contents)
  show "fv_holds mj um rec w st \<Longrightarrow> all_good (file_contents um (data_text w))" for st
    by (rule fv_holds_contents)
qed

section \<open>Properties\<close>

abbreviation file_delivers where
  "file_delivers mj mji flt um index sz itclose \<equiv>
     delivers (fw_Write mj mji no_faults) (fw_Close flt) itclose sz (\<lambda>g. data_text) lines_behind fh_unopened (fh_ops um index)"

lemma file_made:
  "NewStreamIngestBuffer freq bulk cap w = Inr b \<Longrightarrow> json_values mj um rec \<Longrightarrow> fw_holds mj w base \<Longrightarrow>
     made (fv_holds mj um rec) (\<lambda>i w. True) info b base"
  by (rule new_buffer_made) (simp_all add: fv_holds_def)

lemma file_delivers_whole:
  assumes "file_delivers mj mji flt um index sz itclose info b c"
    and "made (fv_holds mj um rec) (\<lambda>i w. True) info b base"
  shows "whole (seen (\<lambda>g. data_text) (dl_proc c))"
proof -
  from file_delivery.delivers_caught [OF assms] have "placed (fv_holds mj um rec) base (dl_proc c)" by simp
  then show ?thesis using fv_holds_contents(1) by (auto simp: placed_def located_def seen_def)
qed


text \<open>
  C5: a consumer of a stream in files catches up. Once buffer and channel are empty and no save has failed, one
  undisturbed call that asks for enough records returns, and with it the consumer has received every record the file
  held at first and every accepted message, each once and in the order of acceptance.
\<close>

theorem file_consumer_catches_up:
  assumes "file_delivers mj mji flt um index sz itclose info b c" and "NewStreamIngestBuffer freq bulk cap w = Inr b"
    and "json_values mj um rec" and "fw_holds mj w base"
    and "pr_clean (dl_proc c)" and "ib_msgBuffer (pr_buf (dl_proc c)) = []" and "ib_channelMsg (pr_buf (dl_proc c)) = []"
    and "0 < m" and "length (base @ pr_accepted (dl_proc c)) \<le> length (dl_received c) + m"
    and "\<forall>j \<ge> K. rq_MaxWaitTimeSeconds (the (it_request (dl_reader c))) \<le> elapsed j"
    and "length (base @ pr_accepted (dl_proc c)) + K < fuel"
  shows "\<exists>it p. it_GetRecords (fh_ops um index) run now d elapsed (\<lambda>k h. h) fuel m
       (attach (data_text (ib_writer (pr_buf (dl_proc c)))) (dl_reader c)) = Some (Inr (it, p, None)) \<and>
     dl_received c @ gr_Records p = map rec (base @ pr_accepted (dl_proc c))"
proof -
  note b = file_made [OF assms(2-4)]
  from file_delivery.received_all [OF assms(1) b file_delivers_whole [OF assms(1) b] assms(5-11)] show ?thesis
    by (simp add: seen_def)
qed

section \<open>A file of two records and its consumer\<close>

definition sample_decode :: "string \<Rightarrow> go_error + unit iface" where
  "sample_decode l = Inr (IStr l)"

definition sample_line :: "unit deferred \<Rightarrow> unit iface" where
  "sample_line r = IStr (projr (sample_mj r) @ [EOL])"

lemma sample_json_values: "json_values sample_mj sample_decode sample_line"
  using sample_json by (auto simp: json_values_def json_ok_def sample_line_def sample_decode_def)

definition sample_file_buf :: "(unit, file_writer) ingest_buffer" where
  "sample_file_buf = \<lparr>ib_bulkFlushFrequency = 0, ib_bulkMaxSize = 3, ib_channelSize = 2, ib_channelMsg = [],
     ib_msgBuffer = [], ib_writer = sample_writer\<rparr>"

definition sample_file_reader :: "(string \<times> file_handler, string) stream_iterator" where
  "sample_file_reader = \<lparr>it_streamUUID = 7, it_itUUID = 8, it_request = Some (sample_request ''FIRST_MESSAGE'' 0),
     it_jqFilter = None, it_LastRecordIdRead = 0, it_Stats = no_stats_yet,
     it_handler = (sample_content, opened_handler ''data''), it_busy = False\<rparr>"

abbreviation sample_file_delivers where
  "sample_file_delivers \<equiv> file_delivers sample_mj (\<lambda>_. Inr ''{}'') no_faults sample_decode None (\<lambda>_. 1)
     (\<lambda>it::nat. (it, None)) (NewStreamInfo 0 7) sample_file_buf"

definition sample_file_start :: "(unit, file_writer, nat, string \<times> file_handler, string, unit) delivery" where
  "sample_file_start = \<lparr>dl_proc = new_proc (NewStreamInfo 0 7) sample_file_buf, dl_reader = sample_file_reader, dl_received = []\<rparr>"

lemma sample_file_buf_new:
  "NewStreamIngestBuffer 0 3 2 sample_writer = Inr sample_file_buf"
  by (simp add: NewStreamIngestBuffer_def sample_file_buf_def)

lemma sample_file_opened: "sample_file_delivers sample_file_start"
  unfolding sample_file_start_def
proof (rule dl_open [OF run_new])
  let ?s = "NewStreamIteratorHandlerFile ''data''"
  have t: "seen (\<lambda>g. data_text) (new_proc (NewStreamInfo 0 7) sample_file_buf) = sample_content"
    by (simp add: seen_def new_proc_def NewStream_def sample_file_buf_def data_text_def sample_writer_def)
  show "NewStreamIterator Inr 7 8 (sample_request ''FIRST_MESSAGE'' 0)
      (seen (\<lambda>g. data_text) (new_proc (NewStreamInfo 0 7) sample_file_buf), ?s) =
      Inr (sample_file_reader\<lparr>it_handler := (sample_content, ?s)\<rparr>)"
    unfolding t by (simp add: NewStreamIterator_def sample_file_reader_def sample_request_def)
  show "it_Open (fh_ops sample_decode None) (sample_file_reader\<lparr>it_handler := (sample_content, ?s)\<rparr>) =
      (sample_file_reader, None)"
    by (simp add: it_Open_def fh_ops_def sample_file_reader_def opened_handler_def fh_Open_def NewStreamIteratorHandlerFile_def)
qed (simp_all add: sample_request_def fh_unopened_def NewStreamIteratorHandlerFile_def)

lemma sample_file_start_simps:
  "pr_clean (dl_proc sample_file_start)" "pr_accepted (dl_proc sample_file_start) = []"
  "ib_msgBuffer (pr_buf (dl_proc sample_file_start)) = []" "ib_channelMsg (pr_buf (dl_proc sample_file_start)) = []"
  "seen (\<lambda>g. data_text) (dl_proc sample_file_start) = sample_content"
  "data_text (ib_writer (pr_buf (dl_proc sample_file_start))) = sample_content"
  "dl_reader sample_file_start = sample_file_reader" "dl_received sample_file_start = []"
  by (simp_all add: sample_file_start_def new_proc_def NewStream_def sample_file_buf_def seen_def data_text_def sample_writer_def)

lemma sample_file_wait:
  "\<forall>j \<ge> 0. rq_MaxWaitTimeSeconds (the (it_request (dl_reader sample_file_start))) \<le> int j"
  by (simp add: sample_file_start_simps sample_file_reader_def sample_request_def)

lemma file_consumer_catches_up_witness:
  "\<exists>it p. it_GetRecords (fh_ops sample_decode None) (\<lambda>_ _. []) 0 0 int (\<lambda>k h. h) 99 5
       (attach sample_content sample_file_reader) = Some (Inr (it, p, None)) \<and>
     gr_Records p = [IStr (''a'' @ [EOL]), IStr (''aa'' @ [EOL])]"
proof -
  have two: "replicate 2 (CHR ''a'') = ''aa''" by (simp add: numeral_2_eq_2)
  have "map sample_line sample_records = [IStr (''a'' @ [EOL]), IStr (''aa'' @ [EOL])]"
    by (simp add: sample_records_def sample_line_def sample_mj_def two)
  with file_consumer_catches_up [OF sample_file_opened sample_file_buf_new sample_json_values sample_written(1) _ _ _ _ _
      sample_file_wait, of 5 99 "\<lambda>_ _. []" 0 0]
  show ?thesis by (auto simp: sample_file_start_simps sample_records_def)
qed

lemma sample_file_call:
  "\<exists>it p. it_GetRecords (fh_ops sample_decode None) (\<lambda>_ _. []) 0 0 int (\<lambda>k h. h) 99 5
       (attach sample_content sample_file_reader) = Some (Inr (it, p, None)) \<and> length (gr_Records p) = 2"
proof -
  note b = file_made [OF sample_file_buf_new sample_json_values sample_written(1)]
  from file_delivery.received_all [OF sample_file_opened b file_delivers_whole [OF sample_file_opened b]
      _ _ _ _ _ sample_file_wait, where m = 5 and fuel = 99 and run = "\<lambda>_ _. []" and now = 0 and d = 0]
  obtain it p where "it_GetRecords (fh_ops sample_decode None) (\<lambda>_ _. []) 0 0 int (\<lambda>k h. h) 99 5
      (attach sample_content sample_file_reader) = Some (Inr (it, p, None))" "gr_Records p = map sample_line sample_records"
    by (auto simp: sample_file_start_simps sample_records_def)
  then show ?thesis by (intro exI [of _ it] exI [of _ p]) (simp add: sample_records_def)
qed


end
