(* ===== verification/MySqlDelivery.thy ===== *)
theory MySqlDelivery
  imports Consumer MySqlReader Stores
begin

text \<open>
  Consumer for a stream in MySQL (storageprovider/mysqlprovider): the writer commits rows, the handler of an iterator
  fetches them in chunks, and looks at the description it shares with the stream to find the first message.
\<close>

section \<open>The description and the table as the handler sees them\<close>

text \<open>What a handler works on: the counters of the readable messages and the rows of the table.\<close>

type_synonym 'r described_handler = "(msgs_info \<times> sql_row list) \<times> 'r mysql_handler"

definition md_GetNextRecord ::
    "(string \<Rightarrow> go_error + 'r iface) \<Rightarrow> sql_queries \<Rightarrow> (time \<Rightarrow> string) \<Rightarrow> 'r described_handler \<Rightarrow>
       go_error + 'r described_handler \<times> 'r next_result" where
  "md_GetNextRecord um Q fmt ch =
     (case ch of (c, h) \<Rightarrow>
      (case mh_GetNextRecord um (table_queries Q fmt (snd c)) h of
         Inl e \<Rightarrow> Inl e
       | Inr (h', x) \<Rightarrow> Inr ((c, h'), x)))"

definition md_ops ::
    "(string \<Rightarrow> go_error + 'r iface) \<Rightarrow> sql_queries \<Rightarrow> (time \<Rightarrow> string) \<Rightarrow> (uuid \<Rightarrow> string) \<Rightarrow> 'x stream_info \<Rightarrow>
       ('r described_handler, 'r) handler_ops" where
  "md_ops um Q fmt show_uuid info = \<lparr>ho_Open = \<lambda>(c, h). map_prod (Pair c) id (mh_Open h),
     ho_Close = \<lambda>(c, h). map_prod (Pair c) id (mh_Close h),
     ho_Seek = \<lambda>rq (c, h). map_prod (Pair c) id (mh_Seek Q show_uuid (info\<lparr>ReadableMessages := fst c\<rparr>) rq h),
     ho_SaveSeek = \<lambda>(c, h). map_prod (Pair c) id (mh_SaveSeek h),
     ho_GetNextRecord = md_GetNextRecord um Q fmt\<rparr>"

definition md_pending :: "(string \<Rightarrow> go_error + 'r iface) \<Rightarrow> 'r described_handler \<Rightarrow> (u64 \<times> (go_error + 'r iface)) list" where
  "md_pending um ch = mt_pending um (snd (fst ch), snd ch)"

definition md_contents :: "(string \<Rightarrow> go_error + 'r iface) \<Rightarrow> msgs_info \<times> sql_row list \<Rightarrow> (u64 \<times> (go_error + 'r iface)) list" where
  "md_contents um c = map (decoded um) (snd c)"

text \<open>The next chunk begins at the first message of the stream, or behind a row of the table.\<close>

definition md_ok :: "(string \<Rightarrow> go_error + 'r iface) \<Rightarrow> 'r described_handler \<Rightarrow> bool" where
  "md_ok um ch \<longleftrightarrow> (case ch of ((g, T), h) \<Rightarrow> mt_ok um (T, h) \<and>
     (mh_bufferNextId h \<le> FirstMsgId g \<or> (\<exists>r \<in> set T. mh_bufferNextId h = fst r + 1)))"

definition md_extends :: "msgs_info \<times> sql_row list \<Rightarrow> msgs_info \<times> sql_row list \<Rightarrow> bool" where
  "md_extends c d \<longleftrightarrow> take (length (snd c)) (snd d) = snd c \<and>
     (length (snd d) < 2 ^ 64 \<longrightarrow> FirstMsgId (fst c) \<le> FirstMsgId (fst d))"

definition md_sound :: "(string \<Rightarrow> go_error + 'r iface) \<Rightarrow> msgs_info \<times> sql_row list \<Rightarrow> bool" where
  "md_sound um c \<longleftrightarrow> good_table um (snd c) \<and> length (snd c) < 2 ^ 64 \<and> (\<forall>r \<in> set (snd c). FirstMsgId (fst c) \<le> fst r)"

definition mh_fresh :: "'r mysql_handler \<Rightarrow> bool" where
  "mh_fresh h \<longleftrightarrow> \<not> mh_initialized h \<and> mh_buffer h = [] \<and> 0 < mh_bufferSize h"

lemma md_extends_iff:
  "md_extends c d \<longleftrightarrow> (\<exists>U. snd d = snd c @ U) \<and> (length (snd d) < 2 ^ 64 \<longrightarrow> FirstMsgId (fst c) \<le> FirstMsgId (fst d))"
proof -
  have "take (length (snd c)) (snd d) = snd c \<longleftrightarrow> (\<exists>U. snd d = snd c @ U)"
    by (metis append_eq_conv_conj)
  then show ?thesis by (simp only: md_extends_def)
qed

lemma md_extends_trans: "md_extends c d \<Longrightarrow> md_extends d e \<Longrightarrow> md_extends c e"
  unfolding md_extends_iff by (elim conjE exE) auto

lemma md_extends_sound:
  assumes "md_extends c d" and "md_sound um d"
  shows "md_sound um c"
proof -
  obtain U where U: "snd d = snd c @ U" "FirstMsgId (fst c) \<le> FirstMsgId (fst d)"
    using assms by (auto simp: md_extends_iff md_sound_def)
  then have "\<forall>r \<in> set (snd c). FirstMsgId (fst d) \<le> fst r" using assms(2) by (simp add: md_sound_def)
  then have "\<forall>r \<in> set (snd c). FirstMsgId (fst c) \<le> fst r" using U(2) order_trans by blast
  then show ?thesis using assms(2) U(1) by (simp add: md_sound_def good_table_def sorted_wrt_append)
qed

lemma read_rows_next_id:
  "read_rows um rows h = (h', err) \<Longrightarrow>
     mh_bufferNextId h' = mh_bufferNextId h \<or> (\<exists>j d s. Inr (j, d, s) \<in> set rows \<and> mh_bufferNextId h' = j + 1)"
  by (induction um rows h rule: read_rows.induct) (auto split: sum.splits)

lemma chunk_rows: "set (chunk i n T) \<subseteq> set T"
  by (auto simp: chunk_def dest: in_set_takeD)

lemma mh_next_id:
  assumes "mh_GetNextRecord um (table_queries Q fmt T) h = Inr (h', x)"
  shows "mh_bufferNextId h' = mh_bufferNextId h \<or> (\<exists>r \<in> set T. mh_bufferNextId h' = fst r + 1)"
proof -
  have b: "mh_bufferNextId k' = mh_bufferNextId k" if "buffered_record k = Inr (k', y)" for k k' :: "'a mysql_handler" and y
    using that by (auto simp: buffered_record_def split: if_splits sum.splits prod.splits)
  have f: "mh_bufferNextId h1 = mh_bufferNextId h \<or> (\<exists>r \<in> set T. mh_bufferNextId h1 = fst r + 1)"
    if "fillBuffer um (table_queries Q fmt T) h = (h1, e)" for h1 e
  proof -
    let ?rows = "map (\<lambda>(j, t, s). Inr (j, fmt t, s)) (chunk (mh_bufferNextId h) (mh_bufferSize h) T)"
    have "read_rows um ?rows (h\<lparr>mh_buffer := []\<rparr>) = (h1, e)"
      using that by (simp add: fillBuffer_def table_queries_def select_rows_def)
    from read_rows_next_id [OF this] show ?thesis
      using chunk_rows [of "mh_bufferNextId h" "mh_bufferSize h" T] by force
  qed
  show ?thesis
  proof (cases "mh_bufferIndex h \<ge> length (mh_buffer h)")
    case False
    with assms b show ?thesis by (simp add: mh_GetNextRecord_def)
  next
    case True
    obtain h1 e where fill: "fillBuffer um (table_queries Q fmt T) h = (h1, e)" by fastforce
    show ?thesis
    proof (cases e)
      case None
      with assms True fill have "buffered_record (h1\<lparr>mh_bufferIndex := 0\<rparr>) = Inr (h', x)" by (simp add: mh_GetNextRecord_def)
      from b [OF this] f [OF fill] show ?thesis by simp
    next
      case (Some e1)
      with assms True fill have "h' = h1" by (simp add: mh_GetNextRecord_def)
      with f [OF fill] show ?thesis by simp
    qed
  qed
qed

lemma md_next:
  assumes "md_ok um ((g, T), h)" and "mt_GetNextRecord um Q fmt (T, h) = Inr (th, x)" and "mt_ok um th"
  shows "md_GetNextRecord um Q fmt ((g, T), h) = Inr (((g, T), snd th), x) \<and> md_ok um ((g, T), snd th) \<and>
     md_pending um ((g, T), snd th) = mt_pending um th"
proof -
  obtain h' where h': "mh_GetNextRecord um (table_queries Q fmt T) h = Inr (h', x)" "th = (T, h')"
    using assms(2) by (auto simp: mt_GetNextRecord_def split: sum.splits)
  have "mh_bufferNextId h \<le> FirstMsgId g \<or> (\<exists>r \<in> set T. mh_bufferNextId h = fst r + 1)"
    using assms(1) by (simp add: md_ok_def)
  then have "mh_bufferNextId h' \<le> FirstMsgId g \<or> (\<exists>r \<in> set T. mh_bufferNextId h' = fst r + 1)"
    using mh_next_id [OF h'(1)] by (elim disjE) simp_all
  with assms(3) h' show ?thesis by (simp add: md_ok_def md_pending_def md_GetNextRecord_def)
qed

interpretation md_source: positioned_source "md_GetNextRecord um Q fmt" "md_pending um" "md_ok um"
    "md_ops um Q fmt show_uuid info" "md_ok um"
  for um :: "string \<Rightarrow> go_error + 'r iface" and Q fmt show_uuid and info :: "'x stream_info"
proof unfold_locales
  fix ch :: "'r described_handler"
  assume ok: "md_ok um ch"
  obtain g T h where ch: "ch = ((g, T), h)" by (metis surj_pair)
  have p: "md_pending um ch = mt_pending um (T, h)" by (simp add: ch md_pending_def)
  have "mt_ok um (T, h)" using ok by (simp add: ch md_ok_def)
  note nx = mt_next [OF this, of Q fmt] and lift = md_next [OF ok [unfolded ch], of Q fmt, folded ch]
  show "md_pending um ch = [] \<Longrightarrow> \<exists>h' i v c err. md_GetNextRecord um Q fmt ch = Inr (h', i, v, False, c, err) \<and>
      md_ok um h' \<and> md_pending um h' = []" using nx lift unfolding p by (metis list.distinct(1))
  show "\<exists>h' c. md_GetNextRecord um Q fmt ch = Inr (h', i, r, True, c, None) \<and> md_ok um h' \<and> md_pending um h' = ps"
    if "md_pending um ch = (i, Inr r) # ps" for i r ps
    using nx lift that unfolding p by (auto 4 3)
  show "\<exists>h' v. md_GetNextRecord um Q fmt ch = Inr (h', i, v, True, True, Some e) \<and> md_ok um h' \<and> md_pending um h' = ps"
    if "md_pending um ch = (i, Inl e) # ps" for i e ps using nx that unfolding p by auto
  show "\<exists>h'. ho_Seek (md_ops um Q fmt show_uuid info) rq ch = (h', None) \<and> md_ok um h' \<and> md_pending um h' = md_pending um ch" for rq
    using ok by (auto simp: ch md_ops_def mh_Seek_def md_ok_def mt_ok_def)
  show "\<exists>h'. ho_SaveSeek (md_ops um Q fmt show_uuid info) ch = (h', None) \<and> md_ok um h' \<and> md_pending um h' = md_pending um ch"
    using ok by (auto simp: ch md_ops_def mh_SaveSeek_def)
qed (simp add: md_ops_def)

text \<open>When rows are committed behind the table, they become pending and part of the contents.\<close>

lemma sorted_rows_behind:
  assumes "good_table um (T @ U)" and "r \<in> set T" and "u \<in> set U"
  shows "fst r + 1 \<le> fst u"
proof -
  have "fst r < fst u" using assms by (auto simp: good_table_def sorted_wrt_append)
  moreover have "unat (fst r) + 1 < 2 ^ 64" using assms(1,2) by (auto simp: good_table_def)
  ultimately show ?thesis using unat_Suc_small [of "fst r"] by (simp add: word_le_nat_alt word_less_nat_alt)
qed

lemma md_grow:
  assumes "md_ok um (c, h)" and "md_extends c d" and "md_sound um d"
  shows "md_ok um (d, h) \<and> (\<exists>more. md_contents um d = md_contents um c @ more \<and> md_pending um (d, h) = md_pending um (c, h) @ more)"
proof -
  obtain g T g' T' where cd: "c = (g, T)" "d = (g', T')" by fastforce
  from assms(2) obtain U where U: "T' = T @ U" by (auto simp: md_extends_iff cd)
  have f: "FirstMsgId g \<le> FirstMsgId g'" "good_table um (T @ U)" "\<forall>u \<in> set U. FirstMsgId g' \<le> fst u"
    using assms(2,3) by (auto simp: md_extends_iff md_sound_def cd U)
  have n: "mh_bufferNextId h \<le> FirstMsgId g \<or> (\<exists>r \<in> set T. mh_bufferNextId h = fst r + 1)" and ok: "mt_ok um (T, h)"
    using assms(1) by (auto simp: md_ok_def cd)
  have "mh_bufferNextId h \<le> fst u" if "u \<in> set U" for u
    using n
  proof
    assume "mh_bufferNextId h \<le> FirstMsgId g"
    with f(1,3) that show ?thesis by (meson order_trans)
  next
    assume "\<exists>r \<in> set T. mh_bufferNextId h = fst r + 1"
    with sorted_rows_behind [OF f(2) _ that] show ?thesis by auto
  qed
  then have "filter (\<lambda>r. mh_bufferNextId h \<le> fst r) U = U" by (simp add: filter_id_conv)
  then have "md_pending um (d, h) = md_pending um (c, h) @ map (decoded um) U"
    by (simp add: md_pending_def mt_pending_def cd U)
  moreover have "md_contents um d = md_contents um c @ map (decoded um) U" by (simp add: md_contents_def cd U)
  moreover have "md_ok um (d, h)" using ok f(1,2) n by (auto simp: md_ok_def mt_ok_def cd U intro: order_trans)
  ultimately show ?thesis by blast
qed

section \<open>The writer commits rows\<close>

definition mv_holds ::
    "('x deferred \<Rightarrow> go_error + string) \<Rightarrow> (string \<Rightarrow> go_error + 'r iface) \<Rightarrow> ('x deferred \<Rightarrow> 'r iface) \<Rightarrow>
       mysql_writer \<Rightarrow> 'x deferred list \<Rightarrow> bool" where
  "mv_holds mj um rec w rs \<longleftrightarrow> (\<forall>r s. mj r = Inr s \<longrightarrow> um s = Inr (rec r)) \<and> my_holds mj w rs"

text \<open>What the description of a new stream and its table have in common during a run.\<close>

definition counts_rows :: "'x stream_info \<Rightarrow> mysql_writer \<Rightarrow> bool" where
  "counts_rows i w \<longleftrightarrow> FirstMsgId (IngestedMessages i) \<le> 1 \<and> FirstMsgId (ReadableMessages i) \<le> 1 \<and>
     CptMessages (ReadableMessages i) = of_nat (length (my_rows w)) \<and>
     (my_rows w = [] \<longrightarrow> FirstMsgId (ReadableMessages i) = 0)"

lemma mysql_Write_rows:
  assumes "mysql_Write mj db (i, w) rs = ((i', w'), err)" and "rs \<noteq> []"
  shows "i' = i \<and> my_rows w' = my_rows w \<or>
     i' = count_batch (sum_list (map (json_size mj) rs)) rs i \<and> my_rows w' = my_rows w @ map (row_of mj) rs"
proof -
  have iq: "insert_query w' = insert_query w" using mysql_Write_names [OF assms(1)] ..
  show ?thesis using assms by (cases rule: mysql_Write_cases [where q = "insert_query w"])
      (simp_all add: my_rows_def committed_state iq)
qed

lemma count_batch_first:
  "FirstMsgId (ReadableMessages (count_batch n rs i)) =
     (if CptMessages (ReadableMessages i) = 0 \<and> rs \<noteq> [] then FirstMsgId (IngestedMessages i) else FirstMsgId (ReadableMessages i))"
  "CptMessages (ReadableMessages (count_batch n rs i)) = CptMessages (ReadableMessages i) + of_nat (length rs)"
  by (simp_all add: count_batch_def first_readable_def Let_def)

lemma Write_extends:
  assumes "counts_rows i w" and "mysql_Write mj db (i, w) rs = ((i', w'), err)"
  shows "md_extends (ReadableMessages i, my_rows w) (ReadableMessages i', my_rows w') \<and> counts_rows i' w'"
proof (cases "rs = []")
  case True
  with assms show ?thesis by (auto simp: md_extends_def)
next
  case False
  from mysql_Write_rows [OF assms(2) False] show ?thesis
  proof
    assume "i' = i \<and> my_rows w' = my_rows w"
    with assms(1) show ?thesis by (simp add: md_extends_def counts_rows_def)
  next
    assume n: "i' = count_batch (sum_list (map (json_size mj) rs)) rs i \<and> my_rows w' = my_rows w @ map (row_of mj) rs"
    have "FirstMsgId (ReadableMessages i) \<le> FirstMsgId (ReadableMessages i')" if "length (my_rows w') < 2 ^ 64"
    proof (cases "CptMessages (ReadableMessages i) = 0")
      case True
      have "length (my_rows w) < 2 ^ 64" using that n by simp
      with True assms(1) have "my_rows w = []"
        using of_nat_u64_inj [of "length (my_rows w)" 0] by (simp add: counts_rows_def)
      with assms(1) show ?thesis by (simp add: counts_rows_def)
    qed (use n in \<open>simp add: count_batch_first\<close>)
    with n False assms(1) show ?thesis by (auto simp: md_extends_iff counts_rows_def count_batch_first)
  qed
qed

lemma mv_holds_contents:
  assumes "mv_holds mj um rec w st"
  shows "good (map (decoded um) (my_rows w)) = map rec st" and "all_good (map (decoded um) (my_rows w))"
proof -
  have rows: "my_rows w = map (row_of mj) st" and d: "\<forall>r \<in> set st. um (projr (mj r)) = Inr (rec r)"
    using assms by (auto simp: mv_holds_def my_holds_def list_all_iff)
  show "good (map (decoded um) (my_rows w)) = map rec st"
    using good_decoded [OF d, of 0] by (simp add: rows)
  show "all_good (map (decoded um) (my_rows w))"
    unfolding rows using d by (auto simp: all_good_def decoded_def row_of_def)
qed

interpretation mysql_delivery: delivery "mysql_Write mj db" "mv_holds mj um rec" "json_size mj" mw_Close
    "md_GetNextRecord um Q fmt" "md_pending um" "md_ok um" "md_ops um Q fmt show_uuid info" "md_ok um"
    "md_contents um" md_extends "md_sound um" mh_fresh mh_fresh "\<lambda>g w. (g, my_rows w)" rec counts_rows
  for mj :: "'x deferred \<Rightarrow> go_error + string" and db and um :: "string \<Rightarrow> go_error + 'r iface" and rec
    and Q fmt show_uuid and info :: "'y stream_info"
proof unfold_locales
  show "md_extends c c" for c by (simp add: md_extends_def)
  show "md_extends c d \<Longrightarrow> md_extends d e \<Longrightarrow> md_extends c e" for c d e by (rule md_extends_trans)
  show "md_extends c d \<Longrightarrow> md_sound um d \<Longrightarrow> md_sound um c" for c d by (rule md_extends_sound)
  show "md_GetNextRecord um Q fmt h = Inr (h', x) \<Longrightarrow> fst h' = fst h" for h h' x
    by (cases h) (auto simp: md_GetNextRecord_def split: sum.splits)
  show "fst (fst (ho_Seek (md_ops um Q fmt show_uuid info) rq h)) = fst h" for rq h by (cases h) (simp add: md_ops_def)
  show "fst (fst (ho_SaveSeek (md_ops um Q fmt show_uuid info) h)) = fst h" for h by (cases h) (simp add: md_ops_def)
  show g: "md_ok um (c, s) \<Longrightarrow> md_extends c d \<Longrightarrow> md_sound um d \<Longrightarrow> md_ok um (d, s) \<and>
      (\<exists>more. md_contents um d = md_contents um c @ more \<and> md_pending um (d, s) = md_pending um (c, s) @ more)" for c d s
    by (rule md_grow)
  show "md_ok um (c, s) \<Longrightarrow> md_extends c d \<Longrightarrow> md_sound um d \<Longrightarrow> md_ok um (d, s)" for c d s
    using g by blast
  show "mh_fresh s \<Longrightarrow> ho_Open (md_ops um Q fmt show_uuid info) (c, s) = ((c', s'), None) \<Longrightarrow> mh_fresh s'" for c c' s s'
    by (simp add: md_ops_def mh_Open_def)
  show "\<exists>s'. ho_Seek (md_ops um Q fmt show_uuid info) (Some rq) (c, s) = ((c, s'), None) \<and>
      ho_Seek (md_ops um Q fmt show_uuid info) (Some rq) (c, s') = ((c, s'), None) \<and>
      md_ok um (c, s') \<and> md_pending um (c, s') = md_contents um c"
    if "mh_fresh s" "md_sound um c" "rq_IteratorType rq = ''FIRST_MESSAGE''" for s c rq
  proof -
    have "filter (\<lambda>r. FirstMsgId (fst c) \<le> fst r) (snd c) = snd c" using that(2) by (simp add: md_sound_def filter_id_conv)
    with that show ?thesis
      by (cases c) (auto simp: md_ops_def mh_Seek_def mh_fresh_def mh_target_def mx_GetFirstMessageId_def md_ok_def mt_ok_def
        md_sound_def md_pending_def mt_pending_def md_contents_def)
  qed
next
  fix w w' :: mysql_writer and i i' :: "'x stream_info" and old rs err
  show "\<exists>k\<le>length rs. mv_holds mj um rec w' (old @ take k rs) \<and> (err = None \<longrightarrow> k = length rs) \<and>
      (length (old @ take k rs) < 2 ^ 64 \<longrightarrow>
        describes (json_size mj) (ReadableMessages i) old \<longrightarrow>
        describes (json_size mj) (ReadableMessages i') (old @ take k rs))"
    if "mv_holds mj um rec w old" "mysql_Write mj db (i, w) rs = ((i', w'), err)"
    using my_writer.store_law [OF _ that(2), of old] that(1) by (simp add: mv_holds_def)
  show "si_UUID i' = si_UUID i \<and> IngestedMessages i' = IngestedMessages i \<and> si_Properties i' = si_Properties i"
    if "mysql_Write mj db (i, w) rs = ((i', w'), err)" using my_writer.store_frame [OF that] .
  show "md_extends (ReadableMessages i, my_rows w) (ReadableMessages i', my_rows w') \<and> counts_rows i' w'"
    if "counts_rows i w" "mysql_Write mj db (i, w) rs = ((i', w'), err)" using that by (rule Write_extends)
  show "mv_holds mj um rec w' rs" if "mw_Close w = (w', err)" "mv_holds mj um rec w rs"
    using that by (simp add: mw_Close_def)
  show "md_extends (ReadableMessages i, my_rows w) (ReadableMessages i, my_rows w') \<and> counts_rows i w'"
    if "counts_rows i w" "mw_Close w = (w', err)" using that by (simp add: mw_Close_def md_extends_def)
  show "counts_rows i' w" if "counts_rows i w" "ReadableMessages i' = ReadableMessages i"
    "FirstMsgId (IngestedMessages i') = FirstMsgId (IngestedMessages i) \<or> FirstMsgId (IngestedMessages i') = 1"
    using that by (auto simp: counts_rows_def)
  show "good (md_contents um (g, my_rows w)) = map rec st" "all_good (md_contents um (g, my_rows w))"
    if "mv_holds mj um rec w st" for g st
    using mv_holds_contents [OF that] by (simp_all add: md_contents_def)
qed

section \<open>Properties\<close>

abbreviation mysql_delivers where
  "mysql_delivers mj db um Q fmt show_uuid info sz itclose \<equiv>
     delivers (mysql_Write mj db) mw_Close itclose sz (\<lambda>g w. (g, my_rows w)) md_extends mh_fresh (md_ops um Q fmt show_uuid info)"

lemma mysql_made:
  assumes "NewStreamIngestBuffer freq bulk cap w = Inr b" and "my_rows w = []" and "\<forall>r s. mj r = Inr s \<longrightarrow> um s = Inr (rec r)"
  shows "made (mv_holds mj um rec) counts_rows (NewStreamInfo now u) b []"
  by (rule new_buffer_made [OF assms(1)])
    (use assms(2,3) in \<open>simp_all add: mv_holds_def my_holds_def counts_rows_def NewStreamInfo_def no_msgs_def\<close>)

lemma counted_ids_good:
  assumes "map dr_Id rs = map of_nat [1..<Suc (length rs)]" and "length rs + 1 < 2 ^ 64"
    and "\<forall>r \<in> set rs. um (projr (mj r)) = Inr (rec r)"
  shows "good_table um (map (row_of mj) rs)" and "\<forall>r \<in> set (map (row_of mj) rs). 1 \<le> fst r"
proof -
  have u: "unat (of_nat k :: u64) = k" if "k \<le> length rs" for k using that assms(2) by (intro unat_of_nat_small) simp
  have id: "\<exists>k \<in> {1..length rs}. dr_Id r = of_nat k" if "r \<in> set rs" for r
  proof -
    have "dr_Id r \<in> set (map dr_Id rs)" using that by simp
    then show ?thesis unfolding assms(1) by auto
  qed
  have "sorted_wrt (<) (map of_nat [1..<Suc (length rs)] :: u64 list)"
    unfolding sorted_wrt_map by (rule sorted_wrt_mono_rel [OF _ sorted_wrt_upt]) (auto simp: word_less_nat_alt u)
  then have "sorted_wrt (<) (map fst (map (row_of mj) rs))" unfolding assms(1) [symmetric] by (simp add: row_of_def comp_def)
  moreover have "unat (dr_Id r) + 1 < 2 ^ 64" "1 \<le> dr_Id r" if "r \<in> set rs" for r
    using id [OF that] assms(2) u by (auto simp: word_le_nat_alt)
  ultimately show "good_table um (map (row_of mj) rs)" "\<forall>r \<in> set (map (row_of mj) rs). 1 \<le> fst r"
    using assms(3) by (auto simp: good_table_def row_of_def)
qed

lemma mysql_delivers_sound:
  assumes "mysql_delivers mj db um Q fmt show_uuid info sz itclose (NewStreamInfo now u) b c"
    and "made (mv_holds mj um rec) counts_rows (NewStreamInfo now u) b []" and "length (pr_accepted (dl_proc c)) + 1 < 2 ^ 64"
  shows "md_sound um (seen (\<lambda>g w. (g, my_rows w)) (dl_proc c)) \<and>
     (\<exists>new rest. mv_holds mj um rec (ib_writer (pr_buf (dl_proc c))) new \<and> pr_accepted (dl_proc c) = new @ rest)"
proof -
  let ?p = "dl_proc c"
  note d = mysql_delivery.delivers_caught [OF assms(1,2)]
  have h: "my_holds mj (ib_writer b) []" "ib_channelMsg b = []" "ib_msgBuffer b = []"
    and j: "\<forall>r s. mj r = Inr s \<longrightarrow> um s = Inr (rec r)" using assms(2) by (simp_all add: made_def mv_holds_def)
  have run: "stream_run (mysql_Write mj db) mw_Close itclose sz (NewStreamInfo now u) b ?p" using d ..
  from my_atomic.run_exact [OF run h] obtain new where
    n: "my_holds mj (ib_writer (pr_buf ?p)) new" "pr_accepted ?p = new @ ib_msgBuffer (pr_buf ?p) @ ib_channelMsg (pr_buf ?p)"
    by auto
  let ?n = "length (pr_accepted ?p)" and ?k = "length new"
  have "numbered 0 ?p"
    by (rule mysql_delivery.run_numbered [OF run]) (use assms(3) in \<open>simp_all add: NewStreamInfo_def no_msgs_def\<close>)
  then have a: "map dr_Id (pr_accepted ?p) = map of_nat [1..<Suc ?n]" by (simp add: numbered_def Let_def del: upt_Suc)
  have "map dr_Id new = take ?k (map dr_Id (pr_accepted ?p))" by (simp add: n(2))
  also have "\<dots> = take ?k (map of_nat [1..<Suc ?n])" unfolding a ..
  also have "\<dots> = map of_nat [1..<Suc ?k]" using n(2) by (simp add: take_map take_upt del: upt_Suc)
  finally have ids: "map dr_Id new = map of_nat [1..<Suc ?k]" .
  have k: "?k + 1 < 2 ^ 64" using assms(3) n(2) by simp
  have rows: "my_rows (ib_writer (pr_buf ?p)) = map (row_of mj) new" and um: "\<forall>r \<in> set new. um (projr (mj r)) = Inr (rec r)"
    using n(1) j by (auto simp: my_holds_def list_all_iff)
  note g = counted_ids_good [OF ids k um]
  have "FirstMsgId (ReadableMessages (pr_info ?p)) \<le> 1"
    using d by (simp add: mysql_delivery.st_agrees_def counts_rows_def)
  then have "md_sound um (seen (\<lambda>g w. (g, my_rows w)) ?p)"
    using g k order_trans by (fastforce simp: md_sound_def seen_def rows)
  with n j show ?thesis by (auto simp: mv_holds_def)
qed


section \<open>One message on its way\<close>

text \<open>A database that accepts everything: one message is accepted, its row committed, and a consumer fetches it.\<close>

definition up_db :: sql_db where
  "up_db log c = None"

definition sample_row_value :: "string \<Rightarrow> go_error + nat iface" where
  "sample_row_value s = Inr (IStr s)"

abbreviation sample_mysql_delivers where
  "sample_mysql_delivers \<equiv> mysql_delivers sample_mysql_mj up_db sample_row_value sample_queries (\<lambda>_. []) (\<lambda>_. ''u'')
     (NewStreamInfo 0 7 :: nat stream_info) (\<lambda>_. 1) (\<lambda>it::nat. (it, None)) (NewStreamInfo 0 7) sample_mysql_ib"

definition sample_mysql_reader :: "msgs_info \<times> sql_row list \<Rightarrow> (nat described_handler, string) stream_iterator" where
  "sample_mysql_reader c = \<lparr>it_streamUUID = 7, it_itUUID = 8, it_request = Some (sample_request ''FIRST_MESSAGE'' 0),
     it_jqFilter = None, it_LastRecordIdRead = 0, it_Stats = no_stats_yet,
     it_handler = (c, NewStreamIteratorHandlerMySQL 7 8 sample_index ''db'' ''stream_1'' 1), it_busy = False\<rparr>"

lemma sample_mysql_reader_opens:
  "NewStreamIterator Inr 7 8 (sample_request ''FIRST_MESSAGE'' 0) (c, NewStreamIteratorHandlerMySQL 7 8 sample_index ''db'' ''stream_1'' 1) =
     Inr (sample_mysql_reader c)"
  "it_Open (md_ops um Q fmt show_uuid info) (sample_mysql_reader c) = (sample_mysql_reader c, None)"
  "mh_fresh (NewStreamIteratorHandlerMySQL 7 8 sample_index ''db'' ''stream_1'' 1)"
  by (simp_all add: NewStreamIterator_def sample_mysql_reader_def sample_request_def it_Open_def md_ops_def mh_Open_def
      mh_fresh_def NewStreamIteratorHandlerMySQL_def)

lemma sample_mysql_ib_new:
  "NewStreamIngestBuffer 0 1 1 sample_mysql_writer = Inr sample_mysql_ib" "my_rows sample_mysql_writer = []"
  "\<forall>r s. sample_mysql_mj r = Inr s \<longrightarrow> sample_row_value s = Inr (IStr ''x'')"
  by (simp_all add: NewStreamIngestBuffer_def sample_mysql_ib_def my_rows_def sample_mysql_writer_def
      NewStreamWriterMySQL_def committed_def sample_mysql_mj_def sample_row_value_def)

lemma sample_mysql_written_run:
  "\<exists>p. stream_run (mysql_Write sample_mysql_mj up_db) mw_Close (\<lambda>it::nat. (it, None)) (\<lambda>_. 1) (NewStreamInfo 0 7) sample_mysql_ib p \<and>
     length (pr_accepted p) = 1 \<and> pr_clean p \<and> ib_msgBuffer (pr_buf p) = [] \<and> ib_channelMsg (pr_buf p) = []"
proof -
  let ?wr = "mysql_Write sample_mysql_mj up_db" and ?cl = "\<lambda>it::nat. (it, None :: go_error option)"
  let ?p0 = "new_proc (NewStreamInfo 0 7) sample_mysql_ib :: (nat, mysql_writer, nat) proc"
  have "stream_step ?wr mw_Close ?cl (\<lambda>_. 1) ?p0
      (?p0\<lparr>pr_stream := setState STREAM_STATE_RUNNING (NewStream (NewStreamInfo 0 7) sample_mysql_ib),
        pr_loop := True, pr_timer := False\<rparr>)"
    by (rule step_start) (simp add: new_proc_def NewStream_def st_Start_def setState_def)
  from run_step [OF run_new this]
  have s: "stream_run ?wr mw_Close ?cl (\<lambda>_. 1) (NewStreamInfo 0 7) sample_mysql_ib sample_mysql_started"
    by (simp add: sample_mysql_started_def new_proc_def)
  obtain new where new: "(stream_step ?wr mw_Close ?cl (\<lambda>_. 1))\<^sup>*\<^sup>* sample_mysql_started
       (sample_mysql_started\<lparr>pr_stream := sample_mysql_put, pr_accepted := pr_accepted sample_mysql_started @ new\<rparr>)"
    "map dr_Id new = [1]"
    using PutMessages_reach [OF sample_mysql_PutMessages(1-3), of ?wr mw_Close ?cl] by (elim exE conjE)
  let ?q = "sample_mysql_started\<lparr>pr_stream := sample_mysql_put, pr_accepted := pr_accepted sample_mysql_started @ new\<rparr>"
  have n: "length new = 1" using arg_cong [OF new(2), of length] by simp
  obtain s' err where m: "run_message ?wr (pr_stream ?q) = (s', err)" by fastforce
  then have e: "err = None" "ib_msgBuffer (st_ingestBuffer s') = []" "ib_channelMsg (st_ingestBuffer s') = []"
    by (auto simp: sample_mysql_put_def sample_mysql_run_defs run_message_def bufferizeMessage_def st_Save_def ib_Save_def
        mysql_Write_def sql_def up_db_def AppendMesssage_def IsFull_def deferred_mode_def ib_Clear_def mw_SaveMetaInfo_def
        sample_mysql_mj_def)
  have c: "pr_loop ?q" "ib_channelMsg (pr_buf ?q) \<noteq> []" "pr_clean ?q"
    by (simp_all add: sample_mysql_PutMessages(5)) (simp_all add: sample_mysql_put_def sample_mysql_run_defs)
  note r = run_step [OF run_steps [OF new(1) s] step_receive [OF c(1,2) m]]
  with n e c(3) show ?thesis by (intro exI conjI) (rule r, simp_all add: sample_mysql_PutMessages(4))
qed


end
