(* ===== verification/Passwords.thy ===== *)
theory Passwords
  imports Server
begin

text \<open>
  The tool that makes passwords (cmd/generatepasswords/generatepasswords.go), over the random texts
  (generators/generators.go) and the hashes of the authentication (auth/pbkdf2.go).
\<close>

section \<open>The program\<close>

text \<open>The flags of the command line; an empty salt or password asks for random ones.\<close>

record generator_flags =
  gf_digest :: string
  gf_iterations :: int
  gf_salt :: string
  gf_password :: string
  gf_count :: int

record generated_line =
  gl_Digest :: string
  gl_Iterations :: int
  gl_Salt :: string
  gl_Password :: string
  gl_Hash :: string

text \<open>
  \<open>salts i\<close> and \<open>words i\<close> are the random numbers of round \<open>i\<close>. A round prints a line or panics; the lines
  printed before stay printed.
\<close>

definition generate_round ::
    "key_fn \<Rightarrow> (nat \<Rightarrow> nat \<Rightarrow> nat) \<Rightarrow> (nat \<Rightarrow> nat \<Rightarrow> nat) \<Rightarrow> generator_flags \<Rightarrow> nat \<Rightarrow> go_error + generated_line" where
  "generate_round kdf salts words f i =
     (case (if gf_salt f = [] then GenerateRandomSalt (salts i) 20 False else Inr (gf_salt f)) of
        Inl e \<Rightarrow> Inl e
      | Inr salt \<Rightarrow>
          (case (if gf_password f = [] then GenerateRandomPassword (words i) 32 False else Inr (gf_password f)) of
             Inl e \<Rightarrow> Inl e
           | Inr password \<Rightarrow>
               (case HashPassword kdf (gf_digest f) (gf_iterations f) salt password of
                  Inl e \<Rightarrow> Inl (case e of Error t \<Rightarrow> Panic t | _ \<Rightarrow> e)
                | Inr hash \<Rightarrow> Inr \<lparr>gl_Digest = gf_digest f, gl_Iterations = gf_iterations f, gl_Salt = salt,
                    gl_Password = password, gl_Hash = hash\<rparr>)))"

fun generate_rounds ::
    "(nat \<Rightarrow> go_error + generated_line) \<Rightarrow> nat list \<Rightarrow> generated_line list \<times> go_error option" where
  "generate_rounds round [] = ([], None)"
| "generate_rounds round (i # is) =
     (case round i of
        Inl e \<Rightarrow> ([], Some e)
      | Inr l \<Rightarrow> (case generate_rounds round is of (ls, err) \<Rightarrow> (l # ls, err)))"

definition generate_main ::
    "key_fn \<Rightarrow> (nat \<Rightarrow> nat \<Rightarrow> nat) \<Rightarrow> (nat \<Rightarrow> nat \<Rightarrow> nat) \<Rightarrow> generator_flags \<Rightarrow> generated_line list \<times> go_error option" where
  "generate_main kdf salts words f =
     (if gf_digest f \<notin> {''sha512'', ''sha256'', ''md5''} then ([], Some (Panic ''digest allowed value is: sha512, sha256, md5''))
      else if gf_iterations f \<le> 0 then ([], Some (Panic ''iterations must be a positive integer''))
      else if gf_count f \<le> 0 then ([], Some (Panic ''count must be a positive integer''))
      else generate_rounds (generate_round kdf salts words f) [0..<nat (gf_count f)])"

section \<open>Lemmas\<close>

lemma HashPassword_ends:
  assumes "digest \<in> {''sha512'', ''sha256'', ''md5''}"
  shows "\<exists>text. HashPassword kdf digest its salt password = Inr text"
  using assms by (auto simp: HashPassword_def DigestToHashMethod_def)

lemma generate_rounds_all:
  "\<forall>i \<in> set is. \<exists>l. round i = Inr l \<Longrightarrow> generate_rounds round is = (map (\<lambda>i. projr (round i)) is, None)"
  by (induction "is") auto

text \<open>What a round prints: the flags, a salt and a password of the flags or random, and their hash.\<close>

lemma generate_round_ok:
  assumes "gf_digest f \<in> {''sha512'', ''sha256'', ''md5''}"
  shows "\<exists>l. generate_round kdf salts words f i = Inr l \<and> gl_Digest l = gf_digest f \<and> gl_Iterations l = gf_iterations f \<and>
     (if gf_salt f = [] then length (gl_Salt l) = 20 \<and> set (gl_Salt l) \<subseteq> set SaltChars else gl_Salt l = gf_salt f) \<and>
     (if gf_password f = [] then length (gl_Password l) = 32 \<and> set (gl_Password l) \<subseteq> set PasswordChars
      else gl_Password l = gf_password f) \<and>
     HashPassword kdf (gf_digest f) (gf_iterations f) (gl_Salt l) (gl_Password l) = Inr (gl_Hash l)"
proof -
  have ne: "SaltChars \<noteq> []" "PasswordChars \<noteq> []" by (simp_all add: SaltChars_def PasswordChars_def)
  define rs where "rs = map (\<lambda>k. SaltChars ! (salts i k mod length SaltChars)) [0..<20]"
  define rp where "rp = map (\<lambda>k. PasswordChars ! (words i k mod length PasswordChars)) [0..<32]"
  have s: "GenerateRandomSalt (salts i) 20 False = Inr rs" and p: "GenerateRandomPassword (words i) 32 False = Inr rp"
    using ne by (simp_all add: GenerateRandomSalt_def GenerateRandomPassword_def GenerateRandomString_def rs_def rp_def)
  note cs = GenerateRandomString_chars [OF ne(1) s [unfolded GenerateRandomSalt_def]]
  note cp = GenerateRandomString_chars [OF ne(2) p [unfolded GenerateRandomPassword_def]]
  define salt where "salt = (if gf_salt f = [] then rs else gf_salt f)"
  define pw where "pw = (if gf_password f = [] then rp else gf_password f)"
  obtain h where h: "HashPassword kdf (gf_digest f) (gf_iterations f) salt pw = Inr h"
    using HashPassword_ends [OF assms] by blast
  have r: "generate_round kdf salts words f i = Inr \<lparr>gl_Digest = gf_digest f, gl_Iterations = gf_iterations f,
      gl_Salt = salt, gl_Password = pw, gl_Hash = h\<rparr>"
    using s p h by (simp add: generate_round_def salt_def pw_def split: if_splits)
  show ?thesis unfolding r using cs cp h by (simp add: salt_def pw_def)
qed

section \<open>Properties\<close>

text \<open>
  C30: what the tool prints can be used. With an allowed digest, a positive number of iterations of the machine
  and no dollar sign in a salt that is given, the tool prints the lines that were asked for and does not panic;
  the hash of each line is read back from its text, with the salt and the iterations of the line, and verifies
  the password of the line.
\<close>

theorem generated_lines_verify:
  assumes "gf_digest f \<in> {''sha512'', ''sha256'', ''md5''}" and "0 < gf_iterations f" and "gf_iterations f < 2 ^ 63"
    and "0 < gf_count f" and "CHR ''$'' \<notin> set (gf_salt f)" and "\<forall>h q s i n. length (kdf h q s i n) = n"
  shows "\<exists>ls. generate_main kdf salts words f = (ls, None) \<and> length ls = nat (gf_count f) \<and>
     (\<forall>l \<in> set ls. \<exists>p. HashedPasswordToPbkdf2 (gl_Hash l) = Inr p \<and> pk_salt p = gl_Salt l \<and>
        pk_iterations p = gf_iterations f \<and> Verify kdf p (gl_Password l) = Inr True)"
proof -
  let ?round = "generate_round kdf salts words f"
  note ok = generate_round_ok [OF assms(1), of kdf salts words]
  let ?ls = "map (\<lambda>i. projr (?round i)) [0..<nat (gf_count f)]"
  have main: "generate_main kdf salts words f = (?ls, None)"
    unfolding generate_main_def using assms(1,2,4) ok by (subst generate_rounds_all) auto
  have good: "\<exists>p. HashedPasswordToPbkdf2 (gl_Hash l) = Inr p \<and> pk_salt p = gl_Salt l \<and>
      pk_iterations p = gf_iterations f \<and> Verify kdf p (gl_Password l) = Inr True" if "?round i = Inr l" for i l
  proof -
    have h: "HashPassword kdf (gf_digest f) (gf_iterations f) (gl_Salt l) (gl_Password l) = Inr (gl_Hash l)"
      using ok [of i] that by auto
    have "set SaltChars \<subseteq> - {CHR ''$''}" by (simp add: SaltChars_def)
    then have s: "gl_Salt l \<noteq> []" "CHR ''$'' \<notin> set (gl_Salt l)" using ok [of i] that assms(5) by (auto split: if_splits)
    obtain k where k: "DigestToAuthMethod (gf_digest f) = Inr k" using assms(1) by (auto simp: DigestToAuthMethod_def)
    show ?thesis by (rule HashPassword_parses [OF assms(6) k _ assms(3) s h]) (use assms(2) in simp)
  qed
  have "\<exists>p. HashedPasswordToPbkdf2 (gl_Hash l) = Inr p \<and> pk_salt p = gl_Salt l \<and>
      pk_iterations p = gf_iterations f \<and> Verify kdf p (gl_Password l) = Inr True" if "l \<in> set ?ls" for l
  proof -
    from that obtain i where i: "l = projr (?round i)" by auto
    obtain l' where "?round i = Inr l'" using ok [of i] by blast
    with i good [of i l] show ?thesis by simp
  qed
  with main show ?thesis by (intro exI [of _ ?ls] conjI ballI) simp_all
qed

text \<open>
  A dollar sign in a salt that is given is not refused: the line is printed, but its text is read back with a
  shorter salt, so the hash belongs to another salt than the one that made it.
\<close>

lemma dollar_salt_is_cut:
  "\<exists>l p. generate_main kdf salts words
       \<lparr>gf_digest = ''md5'', gf_iterations = 1, gf_salt = ''a$b'', gf_password = ''pw'', gf_count = 1\<rparr> = ([l], None) \<and>
     gl_Salt l = ''a$b'' \<and> HashedPasswordToPbkdf2 (gl_Hash l) = Inr p \<and> pk_salt p = ''a''"
proof -
  let ?k = "print_hex (kdf MD5 ''pw'' ''a$b'' 1 16)"
  let ?p = "\<lparr>pk_digestId = AuthHashMethodMD5, pk_digest = ''md5'', pk_iterations = 1, pk_salt = ''a'', pk_hash = ''b$'' @ ?k\<rparr>"
  have "HashPassword kdf ''md5'' 1 ''a$b'' ''pw'' = Inr (ToString ?p)"
    by (simp add: HashPassword_def DigestToHashMethod_def ToString_def)
  moreover have "HashedPasswordToPbkdf2 (ToString ?p) = Inr ?p"
    by (rule parse_ToString) (use print_hex_ok in \<open>simp_all add: DigestToAuthMethod_def not_space_def\<close>)
  ultimately show ?thesis by (simp add: generate_main_def generate_round_def)
qed

definition sample_flags :: generator_flags where
  "sample_flags = \<lparr>gf_digest = ''sha256'', gf_iterations = 1000, gf_salt = [], gf_password = [], gf_count = 2\<rparr>"

lemma generated_lines_verify_witness:
  "\<exists>ls. generate_main sample_kdf (\<lambda>i k. i + k) (\<lambda>i k. i * k) sample_flags = (ls, None) \<and> length ls = 2 \<and>
     (\<forall>l \<in> set ls. \<exists>p. HashedPasswordToPbkdf2 (gl_Hash l) = Inr p \<and> Verify sample_kdf p (gl_Password l) = Inr True)"
  using generated_lines_verify [of sample_flags sample_kdf "\<lambda>i k. i + k" "\<lambda>i k. i * k"]
  by (fastforce simp: sample_flags_def sample_kdf_def)

end
