(* ===== verification/FilePaths.thy ===== *)
theory FilePaths
  imports Prelude
begin

text \<open>
  The paths of the files of the file provider (storageprovider/jsonfileprovider/jsonfileprovider.go,
  streamcatalogfile.go), with \<^verbatim>\<open>filepath.Join\<close> and \<^verbatim>\<open>filepath.Clean\<close> of the Go library on a system whose
  separator is the slash. The disk of the file provider is modelled stream by stream (FileProvider); here it is
  shown that no two of its files share a path, whatever the configured data directory is.
\<close>

section \<open>Join and Clean\<close>

text \<open>The elements of a path between its slashes.\<close>

fun elements :: "string \<Rightarrow> string list" where
  "elements [] = [[]]"
| "elements (c # s) =
     (if c = CHR ''/'' then [] # elements s
      else case elements s of [] \<Rightarrow> [[c]] | e # es \<Rightarrow> (c # e) # es)"

fun slashed :: "string list \<Rightarrow> string" where
  "slashed [] = []"
| "slashed [e] = e"
| "slashed (e # es) = e @ ''/'' @ slashed es"

text \<open>
  \<^verbatim>\<open>Clean\<close> drops empty elements and \<^verbatim>\<open>.\<close>, lets \<^verbatim>\<open>..\<close> cancel the element before it, drops it at the root,
  and keeps it at the beginning of a relative path.
\<close>

definition clean_element :: "bool \<Rightarrow> string list \<Rightarrow> string \<Rightarrow> string list" where
  "clean_element rooted out e =
     (if e = [] \<or> e = ''.'' then out
      else if e = ''..'' then
        (if out \<noteq> [] \<and> last out \<noteq> ''..'' then butlast out else if rooted then out else out @ [''..''])
      else out @ [e])"

definition rooted :: "string \<Rightarrow> bool" where
  "rooted p \<longleftrightarrow> (case p of [] \<Rightarrow> False | c # s \<Rightarrow> c = CHR ''/'')"

definition cleaned :: "string \<Rightarrow> string list" where
  "cleaned p = foldl (clean_element (rooted p)) [] (elements p)"

definition Clean :: "string \<Rightarrow> string" where
  "Clean p =
     (if rooted p then CHR ''/'' # slashed (cleaned p)
      else if cleaned p = [] then ''.'' else slashed (cleaned p))"

definition Join :: "string list \<Rightarrow> string" where
  "Join es = (case dropWhile (\<lambda>e. e = []) es of [] \<Rightarrow> [] | es' \<Rightarrow> Clean (slashed es'))"

section \<open>The paths of the provider\<close>

text \<open>\<open>show\<close> is the method \<^verbatim>\<open>String\<close> of a UUID.\<close>

definition GetStreamsDirectoryPath :: "string \<Rightarrow> string" where
  "GetStreamsDirectoryPath dataDirectory = Join [dataDirectory, ''streams'']"

definition GetStreamDirectoryPath :: "(uuid \<Rightarrow> string) \<Rightarrow> string \<Rightarrow> uuid \<Rightarrow> string" where
  "GetStreamDirectoryPath show_uuid dataDirectory u = Join [GetStreamsDirectoryPath dataDirectory, show_uuid u]"

definition GetMetaDataFilePath :: "(uuid \<Rightarrow> string) \<Rightarrow> string \<Rightarrow> uuid \<Rightarrow> string" where
  "GetMetaDataFilePath show_uuid dataDirectory u =
     Join [GetStreamDirectoryPath show_uuid dataDirectory u, ''stream.json'']"

definition GetStreamDataFilePath :: "(uuid \<Rightarrow> string) \<Rightarrow> string \<Rightarrow> uuid \<Rightarrow> string" where
  "GetStreamDataFilePath show_uuid dataDirectory u =
     Join [GetStreamDirectoryPath show_uuid dataDirectory u, ''data.jsonl'']"

definition GetStreamIndexFilePath :: "(uuid \<Rightarrow> string) \<Rightarrow> string \<Rightarrow> uuid \<Rightarrow> string" where
  "GetStreamIndexFilePath show_uuid dataDirectory u =
     Join [GetStreamDirectoryPath show_uuid dataDirectory u, ''index.bin'']"

definition GetStreamCatalogFilepath :: "string \<Rightarrow> string" where
  "GetStreamCatalogFilepath dataDirectory = Join [dataDirectory, ''streams.json'']"

section \<open>Lemmas\<close>

text \<open>A file name: one element that \<^verbatim>\<open>Clean\<close> keeps.\<close>

definition file_name :: "string \<Rightarrow> bool" where
  "file_name n \<longleftrightarrow> n \<noteq> [] \<and> n \<noteq> ''.'' \<and> n \<noteq> ''..'' \<and> CHR ''/'' \<notin> set n"

lemma elements_not_Nil [simp]: "elements s \<noteq> []"
  by (induction s) (auto split: list.splits)

lemma elements_plain: "CHR ''/'' \<notin> set e \<Longrightarrow> elements e = [e]"
  by (induction e) auto

lemma elements_slash: "elements (a @ CHR ''/'' # b) = elements a @ elements b"
proof (induction a)
  case (Cons c a)
  then show ?case by (cases "elements a") auto
qed simp

lemma elements_slashed: "es \<noteq> [] \<Longrightarrow> \<forall>e \<in> set es. CHR ''/'' \<notin> set e \<Longrightarrow> elements (slashed es) = es"
  by (induction es rule: slashed.induct) (simp_all add: elements_plain elements_slash)

text \<open>What \<^verbatim>\<open>Clean\<close> leaves: \<^verbatim>\<open>..\<close> only at the beginning, and only in a relative path.\<close>

definition canonical :: "bool \<Rightarrow> string list \<Rightarrow> bool" where
  "canonical r es \<longleftrightarrow> (\<exists>k names. es = replicate k ''..'' @ names \<and> (r \<longrightarrow> k = 0) \<and> list_all file_name names)"

lemma canonical_Nil [simp]: "canonical r []"
  unfolding canonical_def by (intro exI [of _ 0] exI [of _ "[]"]) simp

lemma canonical_snoc: "canonical r es \<Longrightarrow> file_name n \<Longrightarrow> canonical r (es @ [n])"
proof -
  assume "canonical r es" and n: "file_name n"
  then obtain k names where "es = replicate k ''..'' @ names" "r \<longrightarrow> k = 0" "list_all file_name names"
    by (auto simp: canonical_def)
  with n show ?thesis unfolding canonical_def by (intro exI [of _ k] exI [of _ "names @ [n]"]) simp
qed

lemma clean_element_canonical:
  assumes "canonical r es" and "CHR ''/'' \<notin> set e"
  shows "canonical r (clean_element r es e)"
proof -
  from assms(1) obtain k names where es: "es = replicate k ''..'' @ names" "r \<longrightarrow> k = 0" "list_all file_name names"
    by (auto simp: canonical_def)
  consider "e = [] \<or> e = ''.''" | "e = ''..''" | "file_name e" using assms(2) by (auto simp: file_name_def)
  then show ?thesis
  proof cases
    case 2
    show ?thesis
    proof (cases names rule: rev_cases)
      case Nil
      have "canonical r (replicate (Suc k) ''..'')" if "\<not> r"
        unfolding canonical_def using that by (intro exI [of _ "Suc k"] exI [of _ "[]"]) simp
      then have "canonical r (es @ [''..''])" if "\<not> r"
        using that es(1) Nil by (simp add: replicate_append_same)
      moreover have "es = [] \<or> last es = ''..''" using es(1) Nil by (cases k) (simp_all add: last_replicate)
      ultimately show ?thesis using 2 assms(1) by (auto simp: clean_element_def)
    next
      case (snoc ns n)
      then have "last es = n" "n \<noteq> ''..''" "es \<noteq> []" using es by (auto simp: file_name_def)
      moreover have "canonical r (butlast es)"
        unfolding canonical_def using es snoc by (intro exI [of _ k] exI [of _ ns]) (simp add: butlast_append)
      ultimately show ?thesis using 2 by (simp add: clean_element_def)
    qed
  next
    case 3
    then show ?thesis using canonical_snoc [OF assms(1)] by (simp add: clean_element_def file_name_def)
  qed (use assms(1) in \<open>auto simp: clean_element_def\<close>)
qed

lemma elements_no_slash: "e \<in> set (elements s) \<Longrightarrow> CHR ''/'' \<notin> set e"
  by (induction s arbitrary: e) (auto split: if_splits list.splits)

lemma fold_canonical:
  "canonical r out \<Longrightarrow> \<forall>e \<in> set es. CHR ''/'' \<notin> set e \<Longrightarrow> canonical r (foldl (clean_element r) out es)"
  by (induction es arbitrary: out) (simp_all add: clean_element_canonical)

lemma cleaned_canonical: "canonical (rooted p) (cleaned p)"
  unfolding cleaned_def by (intro fold_canonical) (simp_all add: elements_no_slash)

text \<open>Cleaning what is clean changes nothing.\<close>

lemma fold_names: "list_all file_name names \<Longrightarrow> foldl (clean_element r) out names = out @ names"
  by (induction names arbitrary: out) (simp_all add: clean_element_def file_name_def)

lemma fold_dots: "foldl (clean_element False) (replicate j ''..'') (replicate k ''..'') = replicate (j + k) ''..''"
proof (induction k arbitrary: j)
  case (Suc k)
  have "clean_element False (replicate j ''..'') ''..'' = replicate (Suc j) ''..''"
    by (cases j) (simp_all add: clean_element_def replicate_append_same last_replicate)
  with Suc [of "Suc j"] show ?case by simp
qed simp

lemma fold_clean: "canonical r es \<Longrightarrow> foldl (clean_element r) [] es = es"
  using fold_dots [of 0] by (cases r) (auto simp: canonical_def fold_names)

lemma canonical_elements: "canonical r es \<Longrightarrow> e \<in> set es \<Longrightarrow> e \<noteq> [] \<and> CHR ''/'' \<notin> set e"
proof -
  assume "canonical r es" and e: "e \<in> set es"
  then obtain k names where es: "es = replicate k ''..'' @ names" "list_all file_name names"
    by (auto simp: canonical_def)
  from e have "e \<in> set (replicate k ''..'') \<or> e \<in> set names" unfolding es(1) by simp
  then show ?thesis
  proof
    assume "e \<in> set (replicate k ''..'')"
    then have "e = ''..''" by (rule in_set_replicate [THEN iffD1, THEN conjunct1])
    then show ?thesis by simp
  next
    assume "e \<in> set names"
    with es(2) have "file_name e" by (simp add: list_all_iff)
    then show ?thesis by (simp add: file_name_def)
  qed
qed

definition render :: "bool \<Rightarrow> string list \<Rightarrow> string" where
  "render r es = (if r then CHR ''/'' # slashed es else if es = [] then ''.'' else slashed es)"

lemma Clean_render: "Clean p = render (rooted p) (cleaned p)"
  by (simp add: Clean_def render_def)

lemma slashed_head: "es \<noteq> [] \<Longrightarrow> hd es \<noteq> [] \<Longrightarrow> slashed es \<noteq> [] \<and> hd (slashed es) = hd (hd es)"
  by (cases es rule: slashed.cases) auto

lemma canonical_hd: "canonical r es \<Longrightarrow> es \<noteq> [] \<Longrightarrow> hd es \<noteq> [] \<and> hd (hd es) \<noteq> CHR ''/''"
proof -
  assume "canonical r es" and "es \<noteq> []"
  then have "hd es \<noteq> [] \<and> CHR ''/'' \<notin> set (hd es)" by (simp add: canonical_elements)
  then show ?thesis by (metis hd_in_set)
qed

lemma rooted_render: "canonical r es \<Longrightarrow> es \<noteq> [] \<Longrightarrow> rooted (render r es) = r"
  using slashed_head [of es] canonical_hd [of r es]
  by (cases "slashed es") (auto simp: rooted_def render_def)

lemma cleaned_render:
  assumes "canonical r es" and "es \<noteq> []"
  shows "cleaned (render r es) = es"
proof -
  have e: "elements (slashed es) = es"
    using assms by (intro elements_slashed) (simp_all add: canonical_elements)
  have "foldl (clean_element r) [] ([] # es) = es"
    using fold_clean [OF assms(1)] by (simp add: clean_element_def)
  with e fold_clean [OF assms(1)] show ?thesis
    unfolding cleaned_def rooted_render [OF assms] using assms(2) by (cases r) (simp_all add: render_def)
qed

lemma render_inj:
  assumes "canonical r es" and "canonical r es'" and "es \<noteq> []" and "es' \<noteq> []"
  shows "render r es = render r es' \<longleftrightarrow> es = es'"
  using cleaned_render [OF assms(1,3)] cleaned_render [OF assms(2,4)] by metis

text \<open>Joining a file name adds it behind the cleaned elements.\<close>

lemma Join_name:
  assumes "file_name n"
  shows "Join [p, n] = render (rooted p) (cleaned p @ [n])"
proof -
  have n: "n \<noteq> []" "CHR ''/'' \<notin> set n" using assms by (simp_all add: file_name_def)
  have c1: "clean_element r out n = out @ [n]" for r out using assms by (simp add: clean_element_def file_name_def)
  show ?thesis
  proof (cases "p = []")
    case True
    have "\<not> rooted n" using n by (cases n) (auto simp: rooted_def)
    with True n show ?thesis
      by (simp add: Join_def Clean_render cleaned_def elements_plain c1) (simp add: rooted_def clean_element_def)
  next
    case False
    then have "rooted (p @ CHR ''/'' # n) = rooted p" by (cases p) (auto simp: rooted_def)
    with False n show ?thesis
      by (simp add: Join_def Clean_render cleaned_def elements_slash elements_plain c1)
  qed
qed

lemma Join_render:
  assumes "canonical r es" and "es \<noteq> []" and "file_name n"
  shows "Join [render r es, n] = render r (es @ [n])"
  by (simp add: Join_name [OF assms(3)] rooted_render [OF assms(1,2)] cleaned_render [OF assms(1,2)])

lemma elements_render:
  assumes "canonical r es" and "es \<noteq> []"
  shows "elements (render r es) = (if r then [[]] else []) @ es"
proof -
  have "elements (slashed es) = es"
    using assms by (intro elements_slashed) (simp_all add: canonical_elements)
  with assms(2) show ?thesis by (cases r) (simp_all add: render_def)
qed

text \<open>The paths as lists of elements behind those of the data directory.\<close>

definition uuid_text :: "(uuid \<Rightarrow> string) \<Rightarrow> bool" where
  "uuid_text show_uuid \<longleftrightarrow> inj show_uuid \<and>
     (\<forall>u. length (show_uuid u) = 36 \<and> set (show_uuid u) \<subseteq> set ''0123456789abcdef-'')"

lemma uuid_file_name: "uuid_text show_uuid \<Longrightarrow> file_name (show_uuid u)"
proof -
  assume "uuid_text show_uuid"
  then have l: "length (show_uuid u) = 36" and s: "set (show_uuid u) \<subseteq> set ''0123456789abcdef-''"
    by (simp_all add: uuid_text_def)
  have "CHR ''/'' \<notin> set ''0123456789abcdef-''" by simp
  with s have "CHR ''/'' \<notin> set (show_uuid u)" by blast
  with l show ?thesis by (auto simp: file_name_def)
qed

lemma fixed_names:
  "file_name ''streams''" "file_name ''streams.json''" "file_name ''stream.json''" "file_name ''data.jsonl''" "file_name ''index.bin''"
  by (simp_all add: file_name_def)

lemma stream_file_path:
  assumes "uuid_text show_uuid" and "file_name f"
  shows "Join [GetStreamDirectoryPath show_uuid d u, f] = render (rooted d) (cleaned d @ [''streams'', show_uuid u, f])"
    and "GetStreamDirectoryPath show_uuid d u = render (rooted d) (cleaned d @ [''streams'', show_uuid u])"
    and "GetStreamCatalogFilepath d = render (rooted d) (cleaned d @ [''streams.json''])"
proof -
  note u = uuid_file_name [OF assms(1), of u]
  note c = cleaned_canonical [of d]
  have c1: "canonical (rooted d) (cleaned d @ [''streams''])" using c fixed_names(1) by (rule canonical_snoc)
  show dir: "GetStreamDirectoryPath show_uuid d u = render (rooted d) (cleaned d @ [''streams'', show_uuid u])"
    using Join_render [OF c1 _ u]
    by (simp add: GetStreamDirectoryPath_def GetStreamsDirectoryPath_def Join_name [OF fixed_names(1)])
  show "Join [GetStreamDirectoryPath show_uuid d u, f] = render (rooted d) (cleaned d @ [''streams'', show_uuid u, f])"
    using Join_render [OF canonical_snoc [OF c1 u] _ assms(2)] by (simp add: dir)
  show "GetStreamCatalogFilepath d = render (rooted d) (cleaned d @ [''streams.json''])"
    by (simp add: GetStreamCatalogFilepath_def Join_name [OF fixed_names(2)])
qed

lemma below_data_directory:
  assumes "list_all file_name es"
  shows "canonical (rooted d) (cleaned d @ es)"
  using assms
proof (induction es rule: rev_induct)
  case Nil
  then show ?case using cleaned_canonical by simp
next
  case (snoc e es)
  then show ?case using canonical_snoc [of "rooted d" "cleaned d @ es" e] by simp
qed

lemma path_under_directory:
  assumes "list_all file_name es" and "list_all file_name es'" and "es \<noteq> []" and "es' \<noteq> []"
    and "render (rooted d) (cleaned d @ es') = render (rooted d) (cleaned d @ es) @ ''/'' @ rest"
  shows "\<exists>more. es' = es @ more"
proof -
  have "elements (render (rooted d) (cleaned d @ es')) = elements (render (rooted d) (cleaned d @ es)) @ elements rest"
    using assms(5) elements_slash by simp
  then show ?thesis
    using assms(3,4) by (simp add: elements_render below_data_directory assms(1,2))
qed

section \<open>Property\<close>

definition stream_paths :: "(uuid \<Rightarrow> string) \<Rightarrow> string \<Rightarrow> uuid \<Rightarrow> string list" where
  "stream_paths show_uuid d u =
     [GetMetaDataFilePath show_uuid d u, GetStreamDataFilePath show_uuid d u, GetStreamIndexFilePath show_uuid d u]"

text \<open>
  C38: the files of the provider never meet. Whatever text the configuration gives as data directory - empty,
  relative, with \<^verbatim>\<open>..\<close> or doubled slashes -, the three files of a stream have three paths, two streams share
  none, and none is that of the catalog; the directory that is removed with a stream holds the files of this
  stream, not those of another stream, and not the catalog.
\<close>

theorem files_have_separate_paths:
  assumes "uuid_text show_uuid"
  shows "distinct (stream_paths show_uuid d u) \<and>
     GetStreamCatalogFilepath d \<notin> set (stream_paths show_uuid d u) \<and>
     (u \<noteq> v \<longrightarrow> set (stream_paths show_uuid d u) \<inter> set (stream_paths show_uuid d v) = {}) \<and>
     (\<forall>p \<in> set (stream_paths show_uuid d v).
        (\<exists>rest. p = GetStreamDirectoryPath show_uuid d u @ ''/'' @ rest) \<longleftrightarrow> u = v) \<and>
     (\<forall>rest. GetStreamCatalogFilepath d \<noteq> GetStreamDirectoryPath show_uuid d u @ ''/'' @ rest)"
proof -
  note n = uuid_file_name [OF assms] fixed_names
  have r: "render (rooted d) (cleaned d @ es) = render (rooted d) (cleaned d @ es') \<longleftrightarrow> es = es'"
    if "list_all file_name es" "list_all file_name es'" "es \<noteq> []" "es' \<noteq> []" for es es'
    using render_inj [OF below_data_directory below_data_directory] that by simp
  have p: "GetMetaDataFilePath show_uuid d w = render (rooted d) (cleaned d @ [''streams'', show_uuid w, ''stream.json''])"
    "GetStreamDataFilePath show_uuid d w = render (rooted d) (cleaned d @ [''streams'', show_uuid w, ''data.jsonl''])"
    "GetStreamIndexFilePath show_uuid d w = render (rooted d) (cleaned d @ [''streams'', show_uuid w, ''index.bin''])" for w
    unfolding GetMetaDataFilePath_def GetStreamDataFilePath_def GetStreamIndexFilePath_def
    by (rule stream_file_path(1) [OF assms], rule fixed_names)+
  note q = stream_file_path(2,3) [OF assms fixed_names(3)]
  have su: "show_uuid u = show_uuid v \<longleftrightarrow> u = v" using assms by (auto simp: uuid_text_def inj_eq)
  have below: "\<exists>rest. render (rooted d) (cleaned d @ [''streams'', show_uuid u, f]) =
      render (rooted d) (cleaned d @ [''streams'', show_uuid u]) @ ''/'' @ rest" for f
  proof -
    have "slashed (es @ [f]) = slashed es @ ''/'' @ f" if "es \<noteq> []" for es
      using that by (induction es rule: slashed.induct) simp_all
    from this [of "cleaned d @ [''streams'', show_uuid u]"] show ?thesis by (simp add: render_def)
  qed
  have dir: "(\<exists>rest. render (rooted d) (cleaned d @ [''streams'', show_uuid v, f]) =
      render (rooted d) (cleaned d @ [''streams'', show_uuid u]) @ CHR ''/'' # rest) \<longleftrightarrow> u = v" if "file_name f" for f
    using path_under_directory [of "[''streams'', show_uuid u]" "[''streams'', show_uuid v, f]" d] that n su below [of f]
    by auto
  have cat: "render (rooted d) (cleaned d @ [''streams.json'']) \<noteq>
      render (rooted d) (cleaned d @ [''streams'', show_uuid u]) @ CHR ''/'' # rest" for rest
    using path_under_directory [of "[''streams'', show_uuid u]" "[''streams.json'']" d rest] n by auto
  show ?thesis
    by (simp add: stream_paths_def p q n r su dir cat)
qed

text \<open>A text for UUIDs: the 32 digits and four dashes.\<close>

definition sample_show :: "uuid \<Rightarrow> string" where
  "sample_show u = map (\<lambda>i. ''0123456789abcdef'' ! unat (take_bit 4 (drop_bit (4 * i) u))) [0..<32] @ ''----''"

lemma sample_show_ok: "uuid_text sample_show"
proof -
  have lt: "unat (take_bit 4 (w :: uuid)) < 16" for w :: uuid
    using take_bit_nat_less_exp [of 4 "unat w"] by (simp add: unsigned_take_bit_eq)
  have digits: "distinct ''0123456789abcdef''" "length ''0123456789abcdef'' = 16" by simp_all
  have "u = v" if s: "sample_show u = sample_show v" for u v
  proof (rule bit_word_eqI)
    fix n assume n: "n < LENGTH(128)"
    let ?i = "n div 4"
    have i: "?i < 32" using n by simp
    from s have "\<forall>i \<in> set [0..<32]. ''0123456789abcdef'' ! unat (take_bit 4 (drop_bit (4 * i) u)) =
        ''0123456789abcdef'' ! unat (take_bit 4 (drop_bit (4 * i) v))"
      by (simp add: sample_show_def)
    with i have "''0123456789abcdef'' ! unat (take_bit 4 (drop_bit (4 * ?i) u)) =
        ''0123456789abcdef'' ! unat (take_bit 4 (drop_bit (4 * ?i) v))" by (simp only: set_upt atLeastLessThan_iff) simp
    then have "unat (take_bit 4 (drop_bit (4 * ?i) u)) = unat (take_bit 4 (drop_bit (4 * ?i) v))"
      using nth_eq_iff_index_eq [OF digits(1)] lt digits(2) by metis
    then have "take_bit 4 (drop_bit (4 * ?i) u) = take_bit 4 (drop_bit (4 * ?i) v)"
      by (rule word_unat_eq_iff [THEN iffD2])
    then have "bit (take_bit 4 (drop_bit (4 * ?i) u)) (n mod 4) = bit (take_bit 4 (drop_bit (4 * ?i) v)) (n mod 4)"
      by (rule arg_cong)
    then show "bit u n = bit v n" by (simp add: bit_take_bit_iff bit_drop_bit_eq)
  qed
  moreover have "set (sample_show u) \<subseteq> set ''0123456789abcdef-''" for u
  proof -
    have "''0123456789abcdef'' ! k \<in> set ''0123456789abcdef''" if "k < 16" for k
      using nth_mem [of k "''0123456789abcdef''"] that by simp
    moreover have "set ''0123456789abcdef'' \<subseteq> set ''0123456789abcdef-''" "set ''----'' \<subseteq> set ''0123456789abcdef-''" by auto
    ultimately have "\<forall>i \<in> {0..<32}. ''0123456789abcdef'' ! unat (take_bit 4 (drop_bit (4 * i) u)) \<in> set ''0123456789abcdef-''"
      using lt by blast
    then show ?thesis using \<open>set ''----'' \<subseteq> set ''0123456789abcdef-''\<close>
      unfolding sample_show_def set_append set_map set_upt by (intro Un_least image_subsetI) auto
  qed
  ultimately show ?thesis by (simp add: uuid_text_def inj_def sample_show_def)
qed

lemma files_have_separate_paths_witness:
  "set (stream_paths sample_show ''/var//ministream/../data/'' 1) \<inter> set (stream_paths sample_show ''/var//ministream/../data/'' 2) = {} \<and>
   GetStreamCatalogFilepath ''/var//ministream/../data/'' = ''/var/data/streams.json''"
proof
  show "GetStreamCatalogFilepath ''/var//ministream/../data/'' = ''/var/data/streams.json''"
    by (simp add: GetStreamCatalogFilepath_def Join_def Clean_def cleaned_def rooted_def clean_element_def)
  show "set (stream_paths sample_show ''/var//ministream/../data/'' 1) \<inter> set (stream_paths sample_show ''/var//ministream/../data/'' 2) = {}"
    using files_have_separate_paths [OF sample_show_ok, of "''/var//ministream/../data/''" 1 2] by simp
qed

end
