(* ===== verification/Settings.thy ===== *)
theory Settings
  imports Server InMemoryProvider FileProvider MySqlProvider
begin

text \<open>
  What the configuration decides: the limiters (web/ratelimiter.go), the handlers of the web application in the
  order of their registration (the options of cmd/ministream/ministream.go, AddRoutes of web/webapiserver.go,
  web/config.go), the listeners (Listen of web/webserver/webserver.go), the storage provider
  (storageprovider/registry/registry.go and the factories of the providers), and whether the server starts.
\<close>

section \<open>Limiters\<close>

text \<open>
  The settings given to the limiter library. \<open>lm_Skip\<close> is what \<^verbatim>\<open>Next\<close> answers to every request: whether the
  limiter is passed by; the key is \<open>limiter_key\<close>.
\<close>

record limiter_config =
  lm_Skip :: bool
  lm_SkipFailedRequests :: bool
  lm_Max :: int
  lm_Expiration :: time

definition new_limiter :: "bool \<Rightarrow> int \<Rightarrow> time \<Rightarrow> limiter_config" where
  "new_limiter rateLimiterEnable n expiration =
     \<lparr>lm_Skip = \<not> rateLimiterEnable, lm_SkipFailedRequests = True, lm_Max = n, lm_Expiration = expiration\<rparr>"

definition limiter_settings :: "limiter \<Rightarrow> bool \<Rightarrow> int \<Rightarrow> int \<Rightarrow> limiter_config option" where
  "limiter_settings l rateLimiterEnable rateLimiterMaxRequests rateDurationInSeconds =
     (case l of
        No_Limiter \<Rightarrow> None
      | RateLimiterUtils \<Rightarrow> Some (new_limiter rateLimiterEnable 5 (seconds 1))
      | _ \<Rightarrow> Some (new_limiter rateLimiterEnable rateLimiterMaxRequests (seconds rateDurationInSeconds)))"

text \<open>\<^verbatim>\<open>AddRoutes\<close> gives every limiter the settings of the stream routes.\<close>

definition route_limiter :: "web_server_config \<Rightarrow> limiter \<Rightarrow> limiter_config option" where
  "route_limiter wc l =
     (let rateLimiterEnable = wc_RateLimiter_Enable wc;
          rateLimiterMaxRequests = rl_MaxRequests (wc_RouteStream wc);
          rateDurationInSeconds = rl_DurationInSeconds (wc_RouteStream wc)
      in limiter_settings l rateLimiterEnable rateLimiterMaxRequests rateDurationInSeconds)"

section \<open>The web application\<close>

record fiber_config =
  fc_StrictRouting :: bool
  fc_CaseSensitive :: bool
  fc_UnescapePath :: bool
  fc_BodyLimit :: int
  fc_Concurrency :: int
  fc_IdleTimeout :: time
  fc_ReadBufferSize :: int
  fc_WriteBufferSize :: int
  fc_CompressedFileSuffix :: string
  fc_GETOnly :: bool
  fc_DisableKeepalive :: bool
  fc_DisableStartupMessage :: bool
  fc_ReduceMemoryUsage :: bool
  fc_EnableTrustedProxyCheck :: bool
  fc_EnablePrintRoutes :: bool

definition GetFiberConfig :: fiber_config where
  "GetFiberConfig = \<lparr>fc_StrictRouting = True, fc_CaseSensitive = True, fc_UnescapePath = False,
     fc_BodyLimit = 10485760, fc_Concurrency = 262144, fc_IdleTimeout = 60000, fc_ReadBufferSize = 4096,
     fc_WriteBufferSize = 4096, fc_CompressedFileSuffix = ''.gz'', fc_GETOnly = False, fc_DisableKeepalive = False,
     fc_DisableStartupMessage = True, fc_ReduceMemoryUsage = False, fc_EnableTrustedProxyCheck = False,
     fc_EnablePrintRoutes = False\<rparr>"

record fiber_logger =
  fl_Format :: string
  fl_TimeFormat :: string
  fl_TimeZone :: string
  fl_TimeInterval :: time

definition GetFiberLogger :: fiber_logger where
  "GetFiberLogger = \<lparr>fl_Format = ''[${time}] ${status} - ${ip}:${port} - ${latency} ${method} ${path}'' @ [CHR 0x0A],
     fl_TimeFormat = ''2006-01-02T15:04:05-0700'', fl_TimeZone = ''Local'', fl_TimeInterval = 500 * 1000000\<rparr>"

text \<open>
  A layer is what one registration puts into the application. The pages outside \<^verbatim>\<open>/api/v1\<close> are answered by
  libraries, but for the welcome.
\<close>

datatype layer =
    Request_Log fiber_logger
  | Cors string string
  | Api route "limiter_config option"
  | Healthcheck
  | Page string

definition WithFiberLogger :: "web_server_config \<Rightarrow> layer list \<Rightarrow> layer list" where
  "WithFiberLogger wc app = (if wc_Logs_Enable wc then app @ [Request_Log GetFiberLogger] else app)"

definition WithCors :: "web_server_config \<Rightarrow> layer list \<Rightarrow> layer list" where
  "WithCors wc app =
     (if wc_Cors_Enable wc then app @ [Cors (wc_Cors_AllowOrigins wc) (wc_Cors_AllowHeaders wc)] else app)"

definition WithAPIRoutes :: "web_server_config \<Rightarrow> layer list \<Rightarrow> layer list" where
  "WithAPIRoutes wc app = app @ map (\<lambda>r. Api r (route_limiter wc (rt_Limiter r))) AddRoutes @
     [Healthcheck, Page ''/''] @
     (if wc_Monitor_Enable wc then [Page ''/monitor''] else []) @
     (if wc_Metrics_Enable wc then [Page ''/metrics''] else []) @
     (if wc_Swagger_Enable wc then [Page ''/docs*'', Page ''/docs*''] else [])"

text \<open>\<^verbatim>\<open>Initialize\<close> applies the options in the order in which \<^verbatim>\<open>RunServer\<close> gives them.\<close>

definition server_app :: "web_server_config \<Rightarrow> layer list" where
  "server_app wc = fold (\<lambda>opt app. opt wc app) [WithFiberLogger, WithCors, WithAPIRoutes] []"

datatype listener = Listen_HTTP string | Listen_TLS string string string

definition Listen :: "web_server_config \<Rightarrow> listener list" where
  "Listen wc =
     (if wc_HTTP_Enable wc then [Listen_HTTP (wc_HTTP_Address wc)] else []) @
     (if wc_HTTPS_Enable wc
      then [Listen_TLS (wc_HTTPS_Address wc) (wc_HTTPS_CertFile wc) (wc_HTTPS_KeyFile wc)] else [])"

text \<open>A listener that ends with an error (\<open>ends\<close>) sends it to the main goroutine.\<close>

definition listen_events :: "(listener \<Rightarrow> go_error option) \<Rightarrow> web_server_config \<Rightarrow> main_event list" where
  "listen_events ends wc = map Server_Err (List.map_filter ends (Listen wc))"

section \<open>The storage provider\<close>

datatype 'x any_storage =
    JSONFile_Storage "'x file_storage"
  | InMemory_Storage "('x, 'x stream_info) im_storage"
  | MySQL_Storage "'x mysql_storage"

text \<open>
  What a start reads outside the program: \<open>sn_build\<close> builds a logger, \<open>sn_disk\<close> is what a data directory holds,
  \<open>sn_parse_bytes\<close> is the library that reads sizes, \<open>sn_rbac\<close> the result of loading the file of roles and
  \<open>sn_rules\<close> the order in which its rules are visited. \<open>sn_starts\<close> says whether the service over a storage starts.
\<close>

record ('x, 'z, 'l, 'q) start_env =
  sn_build :: "'z \<Rightarrow> go_error + 'l"
  sn_disk :: "string \<Rightarrow> disk"
  sn_parse_bytes :: "string \<Rightarrow> go_error + u64"
  sn_getenv :: "string \<Rightarrow> string"
  sn_rbac :: "string \<Rightarrow> go_error + 'q rbac"
  sn_rules :: "'q rbac \<Rightarrow> string list"
  sn_auth :: auth_env
  sn_now :: time
  sn_starts :: "'x any_storage \<Rightarrow> streams_config \<Rightarrow> bool"

type_synonym ('x, 'z, 'l) factory = "'l \<Rightarrow> 'z config \<Rightarrow> go_error + 'x any_storage"

definition jsonfile_factory :: "('x, 'z, 'l, 'q) start_env \<Rightarrow> ('x, 'z, 'l) factory" where
  "jsonfile_factory E = (\<lambda>logger c. Inr (JSONFile_Storage (NewFileStorageProvider (sn_disk E (cg_JSONFile_DataDirectory c)))))"

definition inmemory_factory :: "('x, 'z, 'l, 'q) start_env \<Rightarrow> ('x, 'z, 'l) factory" where
  "inmemory_factory E = (\<lambda>logger c. map_sum id InMemory_Storage
     (NewInMemoryStorageProvider (sn_parse_bytes E (cg_InMemory_MaxSize c)) (cg_InMemory_MaxRecordsByStream c)))"

definition mysql_factory :: "('x, 'z, 'l, 'q) start_env \<Rightarrow> ('x, 'z, 'l) factory" where
  "mysql_factory E = (\<lambda>logger c. map_sum id MySQL_Storage (mysql_NewStorageProvider (sn_getenv E) (cg_MySQL c)))"

definition storage_of ::
    "('x, 'z, 'l, 'q) start_env \<Rightarrow> 'z config \<Rightarrow> ('x, 'z, 'l) factory registry \<Rightarrow> go_error + 'x any_storage" where
  "storage_of E c registry =
     reg_NewStorageProvider (cg_Storage_Type c) (sn_build E (cg_Storage_LoggerConfig c)) (\<lambda>f l. f l c) registry"

section \<open>A turn of the main loop\<close>

text \<open>
  The stages of a run that end the process on an error: access control, then the service with its storage.
\<close>

definition services_start :: "('x, 'z, 'l, 'q) start_env \<Rightarrow> 'z config \<Rightarrow> bool" where
  "services_start E c =
     (let loaded = sn_rbac E (cg_RBAC_Filename (cg_RBAC c));
          ks = (case loaded of Inl e \<Rightarrow> [] | Inr r \<Rightarrow> sn_rules E r)
      in case NewRBACManager (cg_RBAC_Enable (cg_RBAC c)) loaded ks of
           Inl e \<Rightarrow> False
         | Inr mgr \<Rightarrow>
             (case SetupStorageProviders (jsonfile_factory E) (inmemory_factory E) (mysql_factory E) Map.empty of
                (registry, _) \<Rightarrow>
                  (case storage_of E c registry of Inl e \<Rightarrow> False | Inr p \<Rightarrow> sn_starts E p (cg_Streams c))))"

text \<open>
  One turn: loading the configuration and the outcomes of its run, over the authentication manager that the last
  turn left. The account manager has no error. \<open>started\<close> is the result of \<^verbatim>\<open>Start\<close>.
\<close>

definition turn_of ::
    "('x, 'z, 'l, 'q) start_env \<Rightarrow> auth_manager \<Rightarrow> go_error option \<Rightarrow> go_error + 'z config \<Rightarrow> string \<Rightarrow>
       go_error option \<Rightarrow> go_error + run_outcome" where
  "turn_of E am opened file_config filename started =
     (case LoadConfig (sn_build E) opened file_config filename of
        Inl e \<Rightarrow> Inl e
      | Inr c \<Rightarrow> Inr (None, snd (auth_Initialize (sn_auth E) (sn_now E) (cg_Auth c) am), services_start E c, started))"

section \<open>Lemmas\<close>

text \<open>The settings for jobs and accounts are read by nothing, and no route has the limiter for jobs.\<close>

lemma job_and_account_rates_unused:
  "server_app (wc\<lparr>wc_RouteJob := j, wc_RouteAccount := a\<rparr>) = server_app wc"
  "list_all (\<lambda>r. rt_Limiter r \<noteq> RateLimiterJobs) AddRoutes"
  by (simp_all add: server_app_def WithFiberLogger_def WithCors_def WithAPIRoutes_def route_limiter_def
      AddRoutes_def guarded_def open_route_def)

lemma cut_at_first:
  "c \<notin> set a \<Longrightarrow> c \<notin> set b \<Longrightarrow> a @ c # x = b @ c # y \<longleftrightarrow> a = b \<and> x = y"
proof (induction a arbitrary: b)
  case Nil
  then show ?case by (cases b) auto
next
  case (Cons d a)
  then show ?case by (cases b) auto
qed

text \<open>Each account, path and method is counted on its own.\<close>

lemma account_key_inj:
  assumes "CHR ''#'' \<notin> set a" "CHR ''#'' \<notin> set b" "CHR ''#'' \<notin> set p" "CHR ''#'' \<notin> set q"
  shows "account_key (Some a) p m = account_key (Some b) q n \<longleftrightarrow> a = b \<and> p = q \<and> m = n"
  using assms by (simp add: account_key_def cut_at_first)

text \<open>A server without authentication must still name one of the two methods; else the process ends with status 0.\<close>

lemma unnamed_method_stops:
  assumes "turn_of E am opened file_config filename started = Inr out"
    and "file_config = Inr c" and "ac_Method (cg_Auth c) = []"
  shows "main_loop j i m (Inr out # turns) Map.empty = Some (Exit 0)"
proof -
  have "fst out = None \<and> fst (snd out) = Some (Error ''auth method not found: '')"
    using assms by (auto simp: turn_of_def LoadConfig_def auth_Initialize_def Let_def split: option.splits sum.splits if_splits)
  then show ?thesis
    by (cases out) (auto simp: RunServer_def SetupStorageProviders_empty Let_def)
qed

definition rules_known :: "'q rbac \<Rightarrow> bool" where
  \<comment> \<open>every action of every rule is one of the known actions\<close>
  "rules_known r \<longleftrightarrow> (\<forall>rule \<in> ran (rb_Rules r). set (ru_Actions rule) \<subseteq> set ActionList)"

lemma rbac_starts_iff:
  assumes "\<And>r. loaded = Inr r \<Longrightarrow> range_order (rb_Rules r) (ks r)"
  shows "(\<exists>mgr. NewRBACManager enable loaded (case loaded of Inl e \<Rightarrow> [] | Inr r \<Rightarrow> ks r) = Inr mgr) \<longleftrightarrow>
     (enable \<longrightarrow> (\<exists>r. loaded = Inr r \<and> rules_known r))"
proof (cases enable)
  case True
  show ?thesis
  proof (cases loaded)
    case (Inl e)
    then show ?thesis using True by (simp add: NewRBACManager_def mgr_Initialize_def LoadConfiguration_def Let_def)
  next
    case (Inr r)
    from manager_accepts_iff [OF assms [OF this]] True Inr show ?thesis
      by (auto simp: rules_known_def ran_def)
  qed
qed (simp add: NewRBACManager_def Let_def)

definition storage_chosen :: "('x, 'z, 'l, 'q) start_env \<Rightarrow> 'z config \<Rightarrow> 'x any_storage \<Rightarrow> bool" where
  \<comment> \<open>the storage that the type in the configuration stands for, made from its settings\<close>
  "storage_chosen E c p \<longleftrightarrow>
     cg_Storage_Type c = ''JSONFile'' \<and> p = JSONFile_Storage (NewFileStorageProvider (sn_disk E (cg_JSONFile_DataDirectory c))) \<or>
     cg_Storage_Type c = ''InMemory'' \<and> (\<exists>s. p = InMemory_Storage s \<and>
       NewInMemoryStorageProvider (sn_parse_bytes E (cg_InMemory_MaxSize c)) (cg_InMemory_MaxRecordsByStream c) = Inr s) \<or>
     cg_Storage_Type c = ''MySQL'' \<and> (\<exists>s. p = MySQL_Storage s \<and>
       mysql_NewStorageProvider (sn_getenv E) (cg_MySQL c) = Inr s)"

definition auth_ready :: "('x, 'z, 'l, 'q) start_env \<Rightarrow> auth_manager \<Rightarrow> auth_config \<Rightarrow> bool" where
  \<comment> \<open>the method is one of the two and can be set up\<close>
  "auth_ready E am c \<longleftrightarrow>
     ac_Method c = ''FILE'' \<and> snd (file_Initialize (sn_auth E) c (am_file am)) = None \<or>
     ac_Method c = ''HTTP'' \<and> (ac_ProxyUrl c = [] \<or> en_parse_url (sn_auth E) (ac_ProxyUrl c) = None)"

lemma auth_starts_iff:
  "snd (auth_Initialize (sn_auth E) now c am) = None \<longleftrightarrow> auth_ready E am c"
  by (auto simp: auth_ready_def auth_Initialize_def http_Initialize_def Let_def split: prod.splits)

lemma storage_of_cases:
  assumes "registry = [''JSONFile'' \<mapsto> jsonfile_factory E, ''InMemory'' \<mapsto> inmemory_factory E, ''MySQL'' \<mapsto> mysql_factory E]"
  shows "storage_of E c registry = Inr p \<longleftrightarrow>
     (\<exists>l. sn_build E (cg_Storage_LoggerConfig c) = Inr l) \<and> storage_chosen E c p"
  unfolding assms storage_of_def reg_NewStorageProvider_def GetFactory_def jsonfile_factory_def inmemory_factory_def
    mysql_factory_def map_sum_def storage_chosen_def
  by (auto split: sum.splits if_splits option.splits)

lemma services_start_iff:
  assumes "\<And>r. sn_rbac E (cg_RBAC_Filename (cg_RBAC c)) = Inr r \<Longrightarrow> range_order (rb_Rules r) (sn_rules E r)"
  shows "services_start E c \<longleftrightarrow>
     (cg_RBAC_Enable (cg_RBAC c) \<longrightarrow> (\<exists>r. sn_rbac E (cg_RBAC_Filename (cg_RBAC c)) = Inr r \<and> rules_known r)) \<and>
     (\<exists>p. storage_of E c [''JSONFile'' \<mapsto> jsonfile_factory E, ''InMemory'' \<mapsto> inmemory_factory E, ''MySQL'' \<mapsto> mysql_factory E]
        = Inr p \<and> sn_starts E p (cg_Streams c))"
proof -
  let ?loaded = "sn_rbac E (cg_RBAC_Filename (cg_RBAC c))"
  let ?mgr = "NewRBACManager (cg_RBAC_Enable (cg_RBAC c)) ?loaded (case ?loaded of Inl e \<Rightarrow> [] | Inr r \<Rightarrow> sn_rules E r)"
  let ?storage = "storage_of E c [''JSONFile'' \<mapsto> jsonfile_factory E, ''InMemory'' \<mapsto> inmemory_factory E, ''MySQL'' \<mapsto> mysql_factory E]"
  have r: "(\<exists>m. ?mgr = Inr m) \<longleftrightarrow> (cg_RBAC_Enable (cg_RBAC c) \<longrightarrow> (\<exists>r. ?loaded = Inr r \<and> rules_known r))"
    by (rule rbac_starts_iff) (rule assms)
  have "services_start E c \<longleftrightarrow> (\<exists>m. ?mgr = Inr m) \<and> (\<exists>p. ?storage = Inr p \<and> sn_starts E p (cg_Streams c))"
    by (cases ?mgr; cases ?storage) (simp_all add: services_start_def Let_def SetupStorageProviders_empty)
  then show ?thesis unfolding r .
qed

section \<open>Properties\<close>


text \<open>The service over the in-memory storage always starts.\<close>

definition im_starts :: "('x iface \<Rightarrow> u64) \<Rightarrow> 'x any_storage \<Rightarrow> streams_config \<Rightarrow> bool" where
  "im_starts sz p conf =
     (case p of
        InMemory_Storage s \<Rightarrow>
          (case NewService im_provider_ops (im_writer_ops sz) id (Inr s) conf ::
             go_error + ('x, ('x, 'x stream_info) im_storage, 'x in_memory_stream, 'x in_memory_stream \<times> im_handler, nat) service
           of Inl e \<Rightarrow> False | Inr svc \<Rightarrow> True)
      | _ \<Rightarrow> False)"

lemma im_starts_new:
  "NewInMemoryStorageProvider parsed n = Inr s \<Longrightarrow> im_starts sz (InMemory_Storage s) conf"
  by (auto simp: im_starts_def NewInMemoryStorageProvider_def NewService_def NewStreamService_def svc_Init_def
      svc_LoadStreams_def im_po_simps imp_Init_def imp_ClearStreams_def imp_LoadStreams_def imp_LoadStreamsFromUUIDs_def
      imc_LoadStreamCatalog_def NewStreamCatalogInMemory_def Let_def split: sum.splits)

definition sample_web :: web_server_config where
  "sample_web = \<lparr>wc_HTTP_Enable = True, wc_HTTP_Address = '':8080'', wc_HTTPS_Enable = False, wc_HTTPS_Address = [],
     wc_HTTPS_CertFile = [], wc_HTTPS_KeyFile = [], wc_Logs_Enable = False, wc_Cors_Enable = False,
     wc_Cors_AllowOrigins = [], wc_Cors_AllowHeaders = [], wc_RateLimiter_Enable = True,
     wc_RouteStream = \<lparr>rl_MaxRequests = 10, rl_DurationInSeconds = 1\<rparr>,
     wc_RouteJob = \<lparr>rl_MaxRequests = 1, rl_DurationInSeconds = 1\<rparr>,
     wc_RouteAccount = \<lparr>rl_MaxRequests = 1, rl_DurationInSeconds = 60\<rparr>, wc_JWT = sample_jwt,
     wc_Monitor_Enable = False, wc_Metrics_Enable = False, wc_Swagger_Enable = False\<rparr>"

definition sample_auth :: auth_config where
  "sample_auth = \<lparr>ac_Enable = False, ac_Method = ''FILE'', ac_Filename = [], ac_Url = [], ac_ProxyUrl = [],
     ac_AuthToken = [], ac_Timeout = 5, ac_CacheDurationInSec = 900\<rparr>"

definition sample_config :: "unit config" where
  "sample_config = \<lparr>cg_Storage_Type = ''InMemory'', cg_Storage_LoggerConfig = (), cg_Storage_LogVerbosity = 0,
     cg_JSONFile_DataDirectory = [], cg_InMemory_MaxRecordsByStream = 1000, cg_InMemory_MaxSize = ''1GB'',
     cg_MySQL = \<lparr>my_DataSourceName = [], my_SchemaName = [], my_CatalogTableName = [], my_StreamTablePrefix = [],
       my_ConnMaxLifetime = 0, my_MaxIdleConns = 0, my_MaxOpenConns = 0\<rparr>,
     cg_DataDirectory = [], cg_LoggerConfig = (),
     cg_Account = \<lparr>ca_Id = 0, ca_Name = ''demo'', ca_SecretAPIKey = []\<rparr>, cg_Streams = sample_conf,
     cg_Streams_LogVerbosity = 0, cg_Auth = sample_auth,
     cg_RBAC = \<lparr>cg_RBAC_Enable = True, cg_RBAC_Filename = ''rbac.json''\<rparr>,
     cg_AuditLog = \<lparr>au_Enable = False, au_EnableLogAccessGranted = False\<rparr>, cg_WebServer = sample_web\<rparr>"

definition sample_start :: "(nat, unit, unit, nat) start_env" where
  "sample_start = \<lparr>sn_build = (\<lambda>z. Inr ()), sn_disk = (\<lambda>d. \<lparr>dk_catalog = None, dk_dirs = Map.empty\<rparr>),
     sn_parse_bytes = (\<lambda>t. if t = ''1GB'' then Inr 1000000000 else Inl (Error ''unhandled size'')),
     sn_getenv = (\<lambda>v. []), sn_rbac = (\<lambda>f. Inr \<lparr>rb_Users = Map.empty, rb_Roles = Map.empty, rb_Rules = Map.empty\<rparr>),
     sn_rules = (\<lambda>r. []), sn_auth = \<lparr>en_read = (\<lambda>f. None), en_decode = (\<lambda>t. Inr Map.empty), en_order = (\<lambda>m. []),
       en_parse_url = (\<lambda>u. None), en_fetch = (\<lambda>u p t n. Inl (Error ''no network''))\<rparr>, sn_now = 0,
     sn_starts = im_starts (\<lambda>_. 1)\<rparr>"


end
