(* ===== verification/Resume.thy ===== *)
theory Resume
  imports FileReader
begin

text \<open>
  Resuming a consumer: a response tells the id of the last record read (\<^verbatim>\<open>lastRecordIdRead\<close>), and a request may ask
  to start after an id. What a consumer gets that opens its next iterator after the id it was told.
\<close>

section \<open>What a call has taken\<close>

lemma last_id_map: "0 < m \<Longrightarrow> last_id d (map (\<lambda>k. (f k, g k)) [0..<m]) = f (m - 1)"
  by (cases m) (simp_all add: last_id_def)

context positioned_source
begin

lemma quiet_call_taken:
  assumes "idle parked it" and "it_jqFilter it = None" and "0 < m"
    and "\<forall>j \<ge> K. rq_MaxWaitTimeSeconds (the (it_request it)) \<le> elapsed j"
    and "length (pending (it_handler it)) + K < fuel" and "all_good (pending (it_handler it))"
  shows "\<exists>it' p. it_GetRecords ops run now d elapsed (\<lambda>k h. h) fuel m it = Some (Inr (it', p, None)) \<and>
     gr_Records p = good (take m (pending (it_handler it))) \<and>
     gr_LastRecordIdRead p = last_id 0 (take m (pending (it_handler it)))"
proof -
  let ?P = "pending (it_handler it)"
  from quiet_call [OF assms, of run now d] obtain it' p where
    c: "it_GetRecords ops run now d elapsed (\<lambda>k h. h) fuel m it = Some (Inr (it', p, None))"
    "pending (it_handler it') = drop m ?P" by blast
  have "appends (\<lambda>k h. h)" by (auto simp: appends_def intro: exI [of _ "[]"])
  moreover have "quiet (\<lambda>k h. h)" by (simp add: quiet_def)
  ultimately obtain taken where t: "?P = taken @ pending (it_handler it')" "gr_LastRecordIdRead p = last_id 0 taken"
    "gr_Records p = List.map_filter (filtered run (it_jqFilter it)) (good taken)"
    using GetRecords_scans [OF assms(1) _ c(1)] by fastforce
  have "taken @ drop m ?P = take m ?P @ drop m ?P"
    unfolding append_take_drop_id using t(1) c(2) by simp
  then have "taken = take m ?P" by (rule append_same_eq [THEN iffD1])
  with t(2,3) c(1) assms(2) show ?thesis by (auto simp: keep_all)
qed

end

lemma count_less:
  assumes "i < j" and "j < 2 ^ 63"
  shows "(of_nat (i + 1) :: u64) < of_nat (j + 1)"
proof -
  have "i + 1 < 2 ^ 64" "j + 1 < 2 ^ 64" using assms by simp_all
  note u = this [THEN unat_of_nat_small]
  show ?thesis unfolding word_less_nat_alt u using assms(1) by simp
qed

section \<open>In memory\<close>

lemma im_pending_first:
  "imh_nextReadRecordIndex h = 0 \<Longrightarrow>
     im_pending (s, h) = map (\<lambda>k. (of_nat k, Inr (IOther (ims_records s ! k)))) [0..<length (ims_records s)]"
  by (simp add: im_pending_def)

lemma good_values: "good (map (\<lambda>k. (f k, Inr (g k))) ks) = map g ks"
  by (induction ks) simp_all

definition numbered :: "'x in_memory_record list \<Rightarrow> bool" where
  \<comment> \<open>ids count from 1, as those of a stream that has stored every message\<close>
  "numbered rs \<longleftrightarrow> (\<forall>k < length rs. im_Id (rs ! k) = of_nat (k + 1))"

lemma numbered_increase:
  assumes "numbered rs" and "slice_ok rs"
  shows "ids_increase rs"
  unfolding ids_increase_def sorted_wrt_iff_nth_less
proof (intro allI impI)
  fix i j assume ij: "i < j" "j < length rs"
  then have "im_Id (rs ! i) = of_nat (i + 1)" "im_Id (rs ! j) = of_nat (j + 1)" using assms(1) by (simp_all add: numbered_def)
  then show "im_Id (rs ! i) < im_Id (rs ! j)" using count_less [OF ij(1)] ij(2) assms(2) by (simp only: slice_ok_def)
qed

text \<open>
  C35: the last id that an in-memory stream reports is not an id. A call of a new consumer that delivers two records
  or more reports the rank of the last one, which is one less than its id; an iterator opened after the reported id
  delivers that record once more.
\<close>

theorem resumed_reader_repeats:
  assumes "idle im_parked it" and "it_jqFilter it = None" and "it_handler it = (s, h)" and "imh_nextReadRecordIndex h = 0"
    and "numbered (ims_records s)" and "1 < m" and "m < length (ims_records s)"
    and "\<forall>j \<ge> K. rq_MaxWaitTimeSeconds (the (it_request it)) \<le> elapsed j" and "length (ims_records s) + K < fuel"
  shows "\<exists>it' p h'. it_GetRecords im_ops run now d elapsed (\<lambda>k h. h) fuel m it = Some (Inr (it', p, None)) \<and>
     gr_Records p = map IOther (take m (ims_records s)) \<and>
     im_Id (ims_records s ! (m - 1)) = gr_LastRecordIdRead p + 1 \<and>
     im_Seek s (Some (rq\<lparr>rq_IteratorType := ''AFTER_MESSAGE_ID'', rq_MessageId := gr_LastRecordIdRead p\<rparr>))
       (NewStreamIteratorHandlerInMemory u itu) = (h', None) \<and>
     hd (good (im_pending (s, h'))) = last (gr_Records p)"
proof -
  let ?rs = "ims_records s" and ?n = "length (ims_records s)"
  have ok: "slice_ok ?rs" using assms(1,3) by (simp add: idle_def im_parked_def)
  have P: "im_pending (it_handler it) = map (\<lambda>k. (of_nat k, Inr (IOther (?rs ! k)))) [0..<?n]"
    by (simp add: assms(3) im_pending_first [OF assms(4)])
  have t: "take m (im_pending (it_handler it)) = map (\<lambda>k. (of_nat k, Inr (IOther (?rs ! k)))) [0..<m]"
    using assms(7) by (simp add: P take_map)
  have f: "length (im_pending (it_handler it)) + K < fuel" "0 < m" using assms(6,9) by (simp_all add: P)
  from im_reader.quiet_call_taken [OF assms(1,2) f(2) assms(8) f(1) im_all_good] obtain it' p where
    c: "it_GetRecords im_ops run now d elapsed (\<lambda>k h. h) fuel m it = Some (Inr (it', p, None))"
    "gr_Records p = good (take m (im_pending (it_handler it)))"
    "gr_LastRecordIdRead p = last_id 0 (take m (im_pending (it_handler it)))" by blast
  have l: "gr_LastRecordIdRead p = of_nat (m - 1)" unfolding c(3) t by (rule last_id_map [OF f(2)])
  have g: "gr_Records p = map IOther (take m ?rs)"
    unfolding c(2) t using assms(7) by (simp add: good_values list_eq_iff_nth_eq)
  have "im_Id (?rs ! (m - 2)) = of_nat (m - 1)" using assms(5-7) by (simp add: numbered_def numeral_2_eq_2 Suc_diff_Suc)
  with searchId_exact [OF numbered_increase [OF assms(5) ok] ok, of "m - 2"] assms(6,7)
  have "GetIndexAfterMessageId s (of_nat (m - 1)) = Inr (of_nat (m - 1))"
    by (auto simp: GetIndexAfterMessageId_def Let_def)
  then have s: "im_Seek s (Some (rq\<lparr>rq_IteratorType := ''AFTER_MESSAGE_ID'', rq_MessageId := gr_LastRecordIdRead p\<rparr>))
      (NewStreamIteratorHandlerInMemory u itu) =
      ((NewStreamIteratorHandlerInMemory u itu)\<lparr>imh_nextReadRecordIndex := of_nat (m - 1), imh_initialized := True\<rparr>, None)"
    by (simp add: im_Seek_def im_target_def NewStreamIteratorHandlerInMemory_def l)
  have m: "m - 1 < ?n" "of_nat (m - 1) + 1 = (of_nat m :: u64)" using assms(6,7) by (cases m; simp)+
  have i: "im_Id (?rs ! (m - 1)) = of_nat (m - 1) + 1" using assms(5,6) m by (simp add: numbered_def)
  have "unat (of_nat (m - 1) :: u64) = m - 1" by (rule slice_ok_unat [OF ok m(1)])
  then have "hd (good (im_pending (s, (NewStreamIteratorHandlerInMemory u itu)\<lparr>imh_nextReadRecordIndex := of_nat (m - 1),
      imh_initialized := True\<rparr>))) = IOther (?rs ! (m - 1))"
    using m(1) by (simp add: im_pending_def upt_conv_Cons del: One_nat_def)
  also have "\<dots> = last (gr_Records p)"
    using assms(6,7) last_conv_nth [of "map IOther (take m ?rs)"] by (cases "?rs = []") (simp_all add: g)
  finally show ?thesis using c(1) g i l s by (intro exI conjI) (assumption, simp_all)
qed

lemma resumed_reader_repeats_witness:
  "\<exists>it' p h'. it_GetRecords im_ops (\<lambda>_ _. []) 0 0 int (\<lambda>k h. h) 9 2 (sample_it 0 None) = Some (Inr (it', p, None)) \<and>
     length (gr_Records p) = 2 \<and> hd (good (im_pending (sample_stream, h'))) = last (gr_Records p)"
proof -
  let ?h = "(NewStreamIteratorHandlerInMemory 7 8)\<lparr>imh_initialized := True, imh_nextReadRecordIndex := of_nat 0\<rparr>"
  have h: "it_handler (sample_it 0 None) = (sample_stream, ?h)" "it_jqFilter (sample_it 0 None) = None"
    "imh_nextReadRecordIndex ?h = 0" by (simp_all add: sample_it_def)
  have n: "numbered (ims_records sample_stream)" by (simp add: numbered_def sample_defs less_Suc_eq)
  have w: "\<forall>j \<ge> 0. rq_MaxWaitTimeSeconds (the (it_request (sample_it 0 None))) \<le> int j"
    by (simp add: sample_it_def sample_request_def)
  have l: "length (ims_records sample_stream) = 3" by (simp add: sample_defs)
  from resumed_reader_repeats [OF sample_it_ready(1) h(2,1,3) n _ _ w, of 2 9 "\<lambda>_ _. []" 0 0 "sample_request [] 0" 7 8] l
  obtain it' p h' where
    "it_GetRecords im_ops (\<lambda>_ _. []) 0 0 int (\<lambda>k h. h) 9 2 (sample_it 0 None) = Some (Inr (it', p, None))"
    "gr_Records p = map IOther (take 2 (ims_records sample_stream))"
    "hd (good (im_pending (sample_stream, h'))) = last (gr_Records p)" by auto
  with l show ?thesis by (intro exI conjI) (assumption, simp, assumption)
qed

section \<open>In files\<close>

text \<open>
  A stream in files behaves in the same way: an iterator from the first message counts from 0, so the id that a call
  reports is one less than the id of the last record, and an iterator opened after it, over a rebuilt index, delivers
  that record once more.
\<close>

lemma good_number_lines:
  "\<forall>l \<in> set ls. um l = Inr (rec l) \<Longrightarrow> good (number_lines um i ls) = map rec ls"
  by (induction ls arbitrary: i) simp_all

lemma take_number_lines: "take m (number_lines um i ls) = number_lines um i (take m ls)"
  by (induction ls arbitrary: i m) (simp_all add: take_Cons split: nat.splits)

lemma last_id_number_lines:
  "ls \<noteq> [] \<Longrightarrow> last_id d (number_lines um i ls) = i + of_nat (length ls - 1)"
proof (induction ls arbitrary: d i)
  case (Cons l ls)
  from Cons.IH [of i "i + 1"] show ?case by (cases ls) (auto simp: algebra_simps)
qed simp

lemma length_number_lines: "length (number_lines um i ls) = length ls"
  by (induction ls arbitrary: i) simp_all

lemma file_first_page:
  assumes "list_all is_line ls" and "\<forall>l \<in> set ls. um l = Inr (rec l)" and "filename \<noteq> []"
    and "rq_IteratorType rq = ''FIRST_MESSAGE''" and "fh_Seek idx (Some rq) (opened_handler filename) = (h, err)"
    and "it_handler it = (concat ls, h)" and "\<not> it_busy it" and "it_request it = Some rq" and "it_jqFilter it = None"
    and "0 < m" and "m \<le> length ls"
    and "\<forall>j \<ge> K. rq_MaxWaitTimeSeconds rq \<le> elapsed j" and "length ls + K < fuel"
  shows "\<exists>it' p. it_GetRecords (fh_ops um idx) run now d elapsed (\<lambda>k h. h) fuel m it = Some (Inr (it', p, None)) \<and>
     gr_Records p = map rec (take m ls) \<and> gr_LastRecordIdRead p = of_nat (m - 1)"
proof -
  have first: "fh_target idx rq = Inr (0, int (length (concat (take 0 ls))))"
    using assms(4) by (simp add: fh_target_def GetOffsetFirstMessage_def)
  from seek_at_line [OF first assms(1) _ assms(3,5), of um] have h: "fh_ok (concat ls, h)"
    "fh_pending um (concat ls, h) = number_lines um 0 ls" by simp_all
  have "fh_FileOffset h = int (fh_pos h)" using assms(3,5) first
    by (auto simp: fh_Seek_def opened_handler_def fh_Open_def NewStreamIteratorHandlerFile_def file_seek_def)
  with h(1) have idle: "idle fh_parked it" using assms(6-8) by (simp add: idle_def fh_parked_def)
  have P: "fh_pending um (it_handler it) = number_lines um 0 ls" by (simp add: assms(6) h(2))
  have "all_good (number_lines um i ls)" for i
    using assms(2) by (induction ls arbitrary: i) (auto simp: all_good_def)
  then have f: "length (fh_pending um (it_handler it)) + K < fuel" "all_good (fh_pending um (it_handler it))"
    using assms(13) by (simp_all add: P length_number_lines)
  have wait: "\<forall>j \<ge> K. rq_MaxWaitTimeSeconds (the (it_request it)) \<le> elapsed j" using assms(8,12) by simp
  from fh_source.quiet_call_taken [OF idle assms(9,10) wait f] obtain it' p where
    r: "it_GetRecords (fh_ops um idx) run now d elapsed (\<lambda>k h. h) fuel m it = Some (Inr (it', p, None))"
    "gr_Records p = good (number_lines um 0 (take m ls))" "gr_LastRecordIdRead p = last_id 0 (number_lines um 0 (take m ls))"
    unfolding P take_number_lines by blast
  have ne: "take m ls \<noteq> []" "length (take m ls) = m" using assms(10,11) by auto
  have "gr_Records p = map rec (take m ls)" unfolding r(2)
    by (rule good_number_lines) (use assms(2) in \<open>auto dest: in_set_takeD\<close>)
  with r(1,3) show ?thesis unfolding last_id_number_lines [OF ne(1)] ne(2) by simp
qed

theorem resumed_file_reader_repeats:
  assumes "json_ok mj umd" and "fw_holds mj w ms" and "sf_data (fw_files w) = Some content" and "length content < 2 ^ 63"
    and "\<forall>k < length ms. dr_Id (ms ! k) = of_nat (k + 1)" and "length ms < 2 ^ 63"
    and "BuildIndex umd (sf_data (fw_files w)) (sf_index (fw_files w)) = (idx, res)"
    and "\<forall>l. is_line l \<longrightarrow> um l = Inr (rec l)" and "filename \<noteq> []"
    and "rq_IteratorType rq = ''FIRST_MESSAGE''" and "fh_Seek idx (Some rq) (opened_handler filename) = (h, err)"
    and "it_handler it = (content, h)" and "\<not> it_busy it" and "it_request it = Some rq" and "it_jqFilter it = None"
    and "1 < m" and "m < length ms"
    and "\<forall>j \<ge> K. rq_MaxWaitTimeSeconds rq \<le> elapsed j" and "length ms + K < fuel"
  shows "\<exists>it' p h'. it_GetRecords (fh_ops um idx) run now d elapsed (\<lambda>k h. h) fuel m it = Some (Inr (it', p, None)) \<and>
     dr_Id (ms ! (m - 1)) = gr_LastRecordIdRead p + 1 \<and>
     fh_Seek idx (Some (rq\<lparr>rq_IteratorType := ''AFTER_MESSAGE_ID'', rq_MessageId := gr_LastRecordIdRead p\<rparr>))
       (opened_handler filename) = (h', None) \<and>
     hd (good (fh_pending um (content, h'))) = last (gr_Records p)"
proof -
  from assms(2,3) obtain ls where c: "content = concat ls" and l: "list_all2 (json_line mj) ms ls"
    by (auto simp: fw_holds_def)
  note j = json_lines [OF assms(1) l]
  have len: "length ls = length ms" using list_all2_lengthD [OF l] by simp
  have um: "\<forall>l \<in> set ls. um l = Inr (rec l)" using j(2) assms(8) by (simp add: list_all_iff)
  have "BuildIndex umd (Some (concat ls @ [])) (sf_index (fw_files w)) = (idx, res)" using assms(3,7) c by simp
  from BuildIndex_file [OF j _ this] have idx: "idx = Some (rows_file (index_rows 0 ls ms))" by simp
  have b: "0 < m" "m \<le> length ls" "length ls + K < fuel" using assms(16,17,19) len by simp_all
  from file_first_page [OF j(2) um assms(9-11) assms(12) [unfolded c] assms(13-15) b(1,2) assms(18) b(3)] obtain it' p where
    r: "it_GetRecords (fh_ops um idx) run now d elapsed (\<lambda>k h. h) fuel m it = Some (Inr (it', p, None))"
    "gr_Records p = map rec (take m ls)" "gr_LastRecordIdRead p = of_nat (m - 1)" by blast
  have "sorted_wrt (\<lambda>a b. dr_Id a < dr_Id b) ms"
    unfolding sorted_wrt_iff_nth_less using assms(5,6) count_less by simp
  note at = built_index_at(2) [OF j(1) this]
  have k: "m - 2 < length ms" "Suc (m - 2) = m - 1" "m - 1 < length ls" using assms(16,17) len by auto
  have id: "dr_Id (ms ! (m - 2)) = of_nat (m - 1)" "dr_Id (ms ! (m - 1)) = of_nat (m - 1) + 1"
    using assms(5,16,17) k by (simp_all add: of_nat_diff)
  let ?rq = "rq\<lparr>rq_IteratorType := ''AFTER_MESSAGE_ID'', rq_MessageId := gr_LastRecordIdRead p\<rparr>"
  have "length (concat ls) < 2 ^ 63" using assms(4) c by simp
  from at [OF this k(1)] have t: "fh_target idx ?rq = Inr (of_nat (m - 1) + 1, int (length (concat (take (m - 1) ls))))"
    by (simp add: fh_target_def idx r(3) id(1) k(2))
  obtain h' err' where s: "fh_Seek idx (Some ?rq) (opened_handler filename) = (h', err')" by fastforce
  from seek_at_line [OF t j(2) _ assms(9) s, of um] k(3)
  have h': "err' = None" "fh_pending um (content, h') = number_lines um (of_nat (m - 1) + 1) (drop (m - 1) ls)"
    by (simp_all add: c)
  have "good (fh_pending um (content, h')) = map rec (drop (m - 1) ls)" unfolding h'(2)
    by (rule good_number_lines) (use um in \<open>auto dest: in_set_dropD\<close>)
  then have "hd (good (fh_pending um (content, h'))) = rec (ls ! (m - 1))" using k(3) by (simp add: hd_map hd_drop_conv_nth)
  also have "\<dots> = last (gr_Records p)"
    using last_conv_nth [of "map rec (take m ls)"] assms(16) k(3) by (cases "ls = []") (simp_all add: r(2))
  finally show ?thesis using r(1,3) id(2) s h'(1) by (intro exI conjI) (assumption, simp_all)
qed

end
