(* ===== verification/Spec2Isabelle.thy ===== *)
theory Spec2Isabelle
  imports FileProvider StreamRun MySqlProvider WebProps Server Stores FileService IteratorRequest Delivery FileDelivery MySqlDelivery Passwords FilePaths Settings Resume
begin

text \<open>
  A verification development for ministream, a server of message streams written in Go.

  \<^bold>\<open>The program.\<close> Producers put JSON messages into named streams over HTTP; consumers open an iterator on a stream
  and ask it for records. A request passes the token check and the access control of its route
  (web/jwt.go, rbac/), its handler (web/apistream.go and the other api files) calls the service (service/service.go),
  which keeps the table of running streams over one storage provider (storageprovider/: in memory, in files, in
  MySQL). A stream (stream/stream.go) gives each message an id and a time under a lock, sends it to a channel, and its
  goroutine \<^verbatim>\<open>Run\<close> moves messages from the channel to the ingest buffer (buffering/streamingestbuffer.go) and, when the
  buffer is full or a timer fires, hands the buffer to the provider's writer. A record iterator
  (stream/streamiterator.go) reads through the provider's iterator handler. cmd/ministream/ministream.go loads the
  configuration, sets all of this up and serves until a signal; cmd/generatepasswords makes lines for the password file.

  \<^bold>\<open>How the model corresponds to the code.\<close> A Go struct is a record whose fields keep the Go names behind a prefix, an
  enumeration is a datatype, and a function or method is a definition of the same name (with a prefix where two Go
  packages share a name). \<^verbatim>\<open>uint64\<close> values are 64-bit words, so counters and ids wrap as in Go; \<^verbatim>\<open>int\<close> values that
  cannot leave their range are integers. Errors and panics are values (\<open>Inl (Error m)\<close>, \<open>Inl (Panic m)\<close>), and
  \<^verbatim>\<open>logger.Fatal\<close>, which ends the process, is the value \<open>fatal\<close>. State is passed and returned. Objects shared through pointers are
  modelled by passing the shared object to every operation that reads or writes it: the description of a stream is
  shared by stream and writer, the in-memory stream by writer and handlers, a data file by writer and readers.
  Operations that a lock makes atomic are one step; where the code interleaves (producers, \<^verbatim>\<open>Run\<close>, timers,
  consumers, requests) there is a step relation, and the properties hold for every sequence of steps. The order in
  which Go visits a map is an argument. Calls of other packages (the clock, random values, JSON, jq, PBKDF2, the
  database, files of the operating system beyond their content, the web framework) are arguments.

  \<^bold>\<open>Theories.\<close>
  \<^item> Prelude, Types, Bytes, Dichotomy: machine types, errors, times and durations, maps and slices; the package types;
    little-endian integers and lines of text; the binary search that four routines of the providers share, with the
    locale \<open>sorted_rows\<close>.
  \<^item> Interfaces: the contracts between the components as locales: \<open>record_writer\<close> and \<open>closable_writer\<close> (IStreamWriter),
    \<open>record_source\<close> (IStreamIteratorHandler) and \<open>stream_catalog\<close> (IStorageCatalog). Later theories add
    \<open>positioned_source\<close> (StreamIter), \<open>shared_storage\<close> and \<open>delivery\<close> (Consumer), \<open>storage_provider\<close> and
    \<open>stream_service\<close> (Service) and \<open>atomic_writer\<close> (Stores).
  \<^item> InMemory, InMemoryProvider (storageprovider/inmemoryprovider): the slice of records with its limit and searches, the
    writer, the handler, the catalog and the provider.
  \<^item> FileIndex, FileWriter, FileReader, FileProvider, FileService, FilePaths (storageprovider/jsonfileprovider): the binary index and
    its searches, the writer, the reader of lines, the catalog with its files, the provider behind the service, and the
    paths of all files with \<^verbatim>\<open>filepath.Join\<close> written out.
  \<^item> MySqlWriter, MySqlReader, MySqlProvider (storageprovider/mysqlprovider): the configuration, the conversation with
    the database as a log of calls and answers, the writer, the lookups, the handler that reads in chunks, the catalog and the provider.
  \<^item> Ingest, Streams, StreamRun: the ingest buffer; the operations of a stream; the step relation \<open>stream_step\<close> of a
    stream with its producers, its goroutine, its timer and its end. Stores runs it over MySQL and over files.
  \<^item> StreamIter, IteratorRequest: \<^verbatim>\<open>GetRecords\<close> with its filter, its page and its waiting; the JSON schema
    of the requests that create an iterator. Consumer puts producers, stream and consumer together over any storage that keeps the
    contract \<open>delivery\<close>, and Delivery, FileDelivery and MySqlDelivery discharge it for the three storages; Resume follows a
    consumer that opens its next iterator after the last id it was told.
  \<^item> Service: the table of streams, with the step relation \<open>svc_step\<close>.
  \<^item> Rbac, Auth, Jwt: roles and rules and their handler; passwords and their methods; tokens, the login routes and the
    chain of handlers in front of a route.
  \<^item> ApiError, WebRequest, Dedup, WebApi, WebSteps, WebProps: answers, bodies and parameters of requests, the deduplicator of
    batches, the handlers of the stream routes, the step relation of the server behind them and what it promises.
  \<^item> Config, Server, Settings, Passwords: the configuration, the registry of providers, the routes, the signals and the
    main loop; what a configuration decides; the password tool.

  \<^bold>\<open>What the lemmas show.\<close> Each locale is interpreted on the code's own operations: the writers of all three providers
  (\<open>im_closable\<close>, \<open>fw_writer\<close>, \<open>my_writer\<close>) satisfy \<open>closable_writer\<close>, the handlers (\<open>im_reader\<close>,
  \<open>fh_source\<close>, \<open>fh_counted\<close>, \<open>mt_source\<close>, \<open>md_source\<close>) satisfy \<open>positioned_source\<close>, writer and handler together
  (\<open>im_delivery\<close>, \<open>file_delivery\<close>, \<open>mysql_delivery\<close>) satisfy \<open>delivery\<close>, the catalogs (\<open>im_cat\<close>, \<open>file_cat\<close>, \<open>my_cat\<close>)
  \<open>stream_catalog\<close> and the providers (\<open>im_service\<close>, \<open>file_service\<close>, \<open>my_service\<close>) \<open>stream_service\<close>. So what is proved once of a stream over
  any writer, of an iterator over any handler, of a consumer over any storage and of the service over any provider holds for each storage. The
  groups of properties, with the theory that has them:
  \<^item> delivery: accepted messages are kept in order, each exactly once, and a consumer receives a prefix of them and
    catches up, over each of the three storages (StreamRun, StreamIter, Stores, FileReader, MySqlReader, Delivery,
    FileDelivery, MySqlDelivery); ids are consecutive, channel and bulk are bounded (StreamRun);
  \<^item> storage: the searches find what they should, an index that was built locates every record, what is written is read
    back, a restart recovers the streams, writes to MySQL are atomic (InMemory, FileIndex, FileReader, FileProvider, MySqlWriter, MySqlProvider);
  \<^item> service and routes: invariants of the tables under every sequence of requests, results of each operation on
    every branch, batches all or nothing and accepted once (Service, WebSteps, WebProps);
  \<^item> access: which configurations of roles load, which requests pass, from the login to the route (Rbac, Auth, Jwt, Server);
  \<^item> process: how it starts, restarts and ends (Server, Settings, Passwords, FilePaths);
  \<^item> what does not work as meant: lookups of the last record and index rebuilds in some storages, a call
    that blocks for ever, messages left in the channel at the end, and others; each is a theorem about the code as it is.

  \<^bold>\<open>Bounds and fuel.\<close> The binary search terminates by the measure of its window, and the other loops by the lists they
  walk. Only the loop of \<^verbatim>\<open>GetRecords\<close> may run for ever: \<open>get_loop\<close> takes fuel, and its result is \<open>None\<close> when the fuel
  is used up. The properties show that fuel above the number of records behind the iterator plus the number \<open>K\<close> of turns
  until the waiting time has passed gives a result, which does not depend on it. \<open>slice_ok\<close> says that a slice
  has less than \<open>2 ^ 63\<close> elements, as every Go slice has; ids are assumed to stay below \<open>2 ^ 64\<close> only where a
  property needs them not to wrap.

  \<^bold>\<open>Not modelled.\<close> The documentation generated from comments (docs/docs.go); messages to the log; parsing of command
  lines; the counting of the limiter library and the answers of the pages that libraries serve; the fields of answers
  that repeat a constant text; time spent inside a handler. storageprovider/catalog declares an interface without code,
  whose laws are the locale \<open>stream_catalog\<close>. The text of an error is kept where it is a constant or made of data the
  model has; where the code appends the text of a library's error or prints a value with \<^verbatim>\<open>%v\<close>, the constant part stands for it.
\<close>

end
